(* ===== verification/Prelude.thy ===== *)
theory Prelude
  imports Main "HOL-Library.Word" "HOL-Library.Multiset"
begin

text \<open>
  Shared vocabulary of the development: the machine types of
  \<^verbatim>\<open>drivers/linux-driver/src/inc/types.h\<close>, the faults a kernel function can end in, the
  sequencing of fallible calls, the C conversions between \<^verbatim>\<open>int\<close> and
  \<^verbatim>\<open>size_t\<close>, little-endian byte images, and the list and word facts the
  components share.
\<close>

unbundle bit_operations_syntax

named_theorems fault_simps \<open>unfolding rules for sequences of fallible calls\<close>
named_theorems c_arith \<open>the C integer conversions on values that are in range\<close>

subsection \<open>Machine types\<close>

type_synonym u8 = "8 word"
type_synonym u16 = "16 word"
type_synonym u32 = "32 word"
type_synonym u64 = "64 word"

subsection \<open>Faults and sequencing\<close>

text \<open>
  A function of the driver that crashes the kernel (a \<^verbatim>\<open>BUG_ON\<close> that fires, a write
  outside an allocated buffer, a NULL or freed pointer, a division by zero, a list operation on
  an empty list head) returns \<open>Inl\<close> with the fault; every ordinary return, the error
  returns of the source included, is an \<open>Inr\<close>.
\<close>

datatype fault = BugOn | OutOfBounds | NullDeref | UseAfterFree | ListCorrupt | DivByZero

definition kbind :: "fault + 'a \<Rightarrow> ('a \<Rightarrow> fault + 'b) \<Rightarrow> fault + 'b" where
  "kbind m f = (case m of Inl e \<Rightarrow> Inl e | Inr x \<Rightarrow> f x)"

lemma kbind_Inl [simp]: "kbind (Inl e) f = Inl e"
  by (simp add: kbind_def)

lemma kbind_Inr [simp]: "kbind (Inr x) f = f x"
  by (simp add: kbind_def)

lemma kbind_assoc: "kbind (kbind m f) g = kbind m (\<lambda>x. kbind (f x) g)"
  by (cases m) simp_all

lemma kbind_eq_Inr [fault_simps]: "kbind m f = Inr y \<longleftrightarrow> (\<exists>x. m = Inr x \<and> f x = Inr y)"
  by (cases m) simp_all

lemma kbind_eq_Inl [fault_simps]:
  "kbind m f = Inl e \<longleftrightarrow> m = Inl e \<or> (\<exists>x. m = Inr x \<and> f x = Inl e)"
  by (cases m) simp_all

lemma kbind_cong [fundef_cong]:
  "m = m' \<Longrightarrow> (\<And>x. m' = Inr x \<Longrightarrow> f x = g x) \<Longrightarrow> kbind m f = kbind m' g"
  by (cases m') simp_all

subsection \<open>C integers\<close>

text \<open>
  \<^verbatim>\<open>int\<close> is a 32-bit two's complement value: \<open>c_int\<close> wraps a mathematical
  integer to it. \<open>size_t\<close> converts an \<^verbatim>\<open>int\<close> to the 64-bit unsigned
  \<^verbatim>\<open>size_t\<close>; \<open>sz\<close> wraps a sum or product of \<^verbatim>\<open>size_t\<close> values and
  \<open>sz_sub\<close> is their subtraction.
\<close>

definition c_int :: "int \<Rightarrow> int" where
  "c_int z = (z + 2147483648) mod 4294967296 - 2147483648"

definition size_t :: "int \<Rightarrow> nat" where
  "size_t z = nat (z mod 18446744073709551616)"

definition sz :: "nat \<Rightarrow> nat" where
  "sz n = n mod 18446744073709551616"

definition sz_sub :: "nat \<Rightarrow> nat \<Rightarrow> nat" where
  "sz_sub a b = (if b \<le> a then a - b else 18446744073709551616 + a - b)"

lemma c_int_id [c_arith]: "-2147483648 \<le> z \<Longrightarrow> z < 2147483648 \<Longrightarrow> c_int z = z"
  by (simp add: c_int_def)

lemma size_t_id [c_arith]: "0 \<le> z \<Longrightarrow> z < 18446744073709551616 \<Longrightarrow> size_t z = nat z"
  by (simp add: size_t_def)

lemma sz_id [c_arith]: "n < 18446744073709551616 \<Longrightarrow> sz n = n"
  by (simp add: sz_def)

lemma sz_sub_id [c_arith]: "b \<le> a \<Longrightarrow> sz_sub a b = a - b"
  by (simp add: sz_sub_def)

lemma size_t_int [simp]: "n < 18446744073709551616 \<Longrightarrow> size_t (int n) = n"
  by (simp add: size_t_def)

subsection \<open>Little-endian images\<close>

text \<open>
  The memory image of \<^verbatim>\<open>cpu_to_le16(v)\<close> and of \<^verbatim>\<open>cpu_to_le32(v)\<close>: the
  low byte first, on a host of either byte order. \<open>le16_to_cpu\<close> and
  \<open>le32_to_cpu\<close> read such an image back.
\<close>

definition cpu_to_le16 :: "u16 \<Rightarrow> u8 list" where
  "cpu_to_le16 v = [ucast v, ucast (drop_bit 8 v)]"

definition cpu_to_le32 :: "u32 \<Rightarrow> u8 list" where
  "cpu_to_le32 v = [ucast v, ucast (drop_bit 8 v), ucast (drop_bit 16 v), ucast (drop_bit 24 v)]"

definition le16_to_cpu :: "u8 \<Rightarrow> u8 \<Rightarrow> u16" where
  "le16_to_cpu b0 b1 = ucast b0 OR push_bit 8 (ucast b1)"

definition le32_to_cpu :: "u8 \<Rightarrow> u8 \<Rightarrow> u8 \<Rightarrow> u8 \<Rightarrow> u32" where
  "le32_to_cpu b0 b1 b2 b3 =
     ucast b0 OR push_bit 8 (ucast b1) OR push_bit 16 (ucast b2) OR push_bit 24 (ucast b3)"

lemma length_cpu_to_le16 [simp]: "length (cpu_to_le16 v) = 2"
  by (simp add: cpu_to_le16_def)

lemma length_cpu_to_le32 [simp]: "length (cpu_to_le32 v) = 4"
  by (simp add: cpu_to_le32_def)

lemma le16_round_trip [simp]: "le16_to_cpu (ucast v) (ucast (drop_bit 8 v)) = v"
  unfolding le16_to_cpu_def
  by (rule bit_word_eqI) (auto simp: bit_simps)

lemma le32_round_trip [simp]:
  "le32_to_cpu (ucast v) (ucast (drop_bit 8 v)) (ucast (drop_bit 16 v)) (ucast (drop_bit 24 v)) = v"
proof (rule bit_word_eqI)
  fix n :: nat
  assume "n < LENGTH(32)"
  moreover have "n < 8 \<or> 8 \<le> n \<and> n < 16 \<or> 16 \<le> n \<and> n < 24 \<or> 24 \<le> n"
    by arith
  ultimately show "bit (le32_to_cpu (ucast v) (ucast (drop_bit 8 v)) (ucast (drop_bit 16 v))
      (ucast (drop_bit 24 v))) n = bit v n"
    unfolding le32_to_cpu_def by (elim disjE conjE) (auto simp: bit_simps)
qed

lemma cpu_to_le16_inject [simp]: "cpu_to_le16 v = cpu_to_le16 w \<longleftrightarrow> v = w"
  by (metis cpu_to_le16_def le16_round_trip list.inject)

subsection \<open>Buffers\<close>

text \<open>Overwriting part of a buffer; the callers check the range first.\<close>

definition buf_put :: "nat \<Rightarrow> 'a list \<Rightarrow> 'a list \<Rightarrow> 'a list" where
  "buf_put off bs buf = take off buf @ bs @ drop (off + length bs) buf"

lemma length_buf_put [simp]:
  "off + length bs \<le> length buf \<Longrightarrow> length (buf_put off bs buf) = length buf"
  by (simp add: buf_put_def)

lemma buf_put_Nil [simp]: "buf_put off [] buf = buf"
  by (simp add: buf_put_def)

lemma buf_put_append:
  assumes "off + length as + length bs \<le> length buf"
  shows "buf_put off (as @ bs) buf = buf_put (off + length as) bs (buf_put off as buf)"
proof -
  have off: "length (take off buf) = off"
    using assms by simp
  have "take (off + length as) (buf_put off as buf) = take off buf @ as"
    unfolding buf_put_def using off by (simp only: take_append) simp
  moreover have "drop (off + length as + length bs) (buf_put off as buf)
      = drop (off + length as + length bs) buf"
    unfolding buf_put_def using off by (simp add: add.assoc add.commute)
  ultimately show ?thesis
    by (simp add: buf_put_def [of _ _ "buf_put off as buf"] buf_put_def [of off "as @ bs"] add.assoc)
qed

lemma take_buf_put:
  "off + length bs \<le> length buf \<Longrightarrow>
   take (off + length bs) (buf_put off bs buf) = take off buf @ bs"
  by (simp add: buf_put_def)

subsection \<open>Rearranged lists\<close>

lemma same_mset:
  assumes "mset xs = mset ys"
  shows "distinct xs = distinct ys" "set xs = set ys" "length xs = length ys"
  using assms by (auto dest: mset_eq_setD mset_eq_length mset_eq_imp_distinct_iff)

lemma mset_take_drop: "mset (take n xs) + mset (drop n xs) = mset xs"
  by (metis append_take_drop_id mset_append)

end
