(* ===== verification/Protocol.thy ===== *)
theory Protocol
  imports Prelude
begin

text \<open>
  The wire protocol of \<^verbatim>\<open>drivers/common/inc/protocol.h\<close>: the command and flag
  bytes, the packed display packets with their byte images, the status packet, and the reading
  side a device or a host applies to those images.
\<close>

subsection \<open>Command and flag bytes\<close>

definition RPUSBDISP_DISPCMD_NOPE :: u8 where "RPUSBDISP_DISPCMD_NOPE = 0"
definition RPUSBDISP_DISPCMD_FILL :: u8 where "RPUSBDISP_DISPCMD_FILL = 1"
definition RPUSBDISP_DISPCMD_BITBLT :: u8 where "RPUSBDISP_DISPCMD_BITBLT = 2"
definition RPUSBDISP_DISPCMD_RECT :: u8 where "RPUSBDISP_DISPCMD_RECT = 3"
definition RPUSBDISP_DISPCMD_COPY_AREA :: u8 where "RPUSBDISP_DISPCMD_COPY_AREA = 4"
definition RPUSBDISP_DISPCMD_BITBLT_RLE :: u8 where "RPUSBDISP_DISPCMD_BITBLT_RLE = 5"

definition RPUSBDISP_OPERATION_COPY :: u8 where "RPUSBDISP_OPERATION_COPY = 0"
definition RPUSBDISP_OPERATION_XOR :: u8 where "RPUSBDISP_OPERATION_XOR = 1"
definition RPUSBDISP_OPERATION_OR :: u8 where "RPUSBDISP_OPERATION_OR = 2"
definition RPUSBDISP_OPERATION_AND :: u8 where "RPUSBDISP_OPERATION_AND = 3"

definition RPUSBDISP_CMD_MASK :: u8 where "RPUSBDISP_CMD_MASK = 0x3F"
definition RPUSBDISP_CMD_FLAG_CLEARDITY :: u8 where "RPUSBDISP_CMD_FLAG_CLEARDITY = push_bit 6 1"
definition RPUSBDISP_CMD_FLAG_START :: u8 where "RPUSBDISP_CMD_FLAG_START = push_bit 7 1"

definition RPUSBDISP_RLE_BLOCKFLAG_COMMON_BIT :: u8 where "RPUSBDISP_RLE_BLOCKFLAG_COMMON_BIT = 0x80"
definition RPUSBDISP_RLE_BLOCKFLAG_SIZE_BIT :: u8 where "RPUSBDISP_RLE_BLOCKFLAG_SIZE_BIT = 0x7f"

definition RPUSBDISP_STATUS_TYPE_NORMAL :: u8 where "RPUSBDISP_STATUS_TYPE_NORMAL = 0"
definition RPUSBDISP_DISPLAY_STATUS_DIRTY_FLAG :: u8 where "RPUSBDISP_DISPLAY_STATUS_DIRTY_FLAG = 0x80"
definition RPUSBDISP_TOUCH_STATUS_NO_TOUCH :: u8 where "RPUSBDISP_TOUCH_STATUS_NO_TOUCH = 0"
definition RPUSBDISP_TOUCH_STATUS_PRESSED :: u8 where "RPUSBDISP_TOUCH_STATUS_PRESSED = 1"

lemmas cmd_defs =
  RPUSBDISP_DISPCMD_NOPE_def RPUSBDISP_DISPCMD_FILL_def RPUSBDISP_DISPCMD_BITBLT_def
  RPUSBDISP_DISPCMD_RECT_def RPUSBDISP_DISPCMD_COPY_AREA_def RPUSBDISP_DISPCMD_BITBLT_RLE_def
  RPUSBDISP_CMD_MASK_def RPUSBDISP_CMD_FLAG_CLEARDITY_def RPUSBDISP_CMD_FLAG_START_def

lemmas operation_defs =
  RPUSBDISP_OPERATION_COPY_def RPUSBDISP_OPERATION_XOR_def RPUSBDISP_OPERATION_OR_def
  RPUSBDISP_OPERATION_AND_def

lemmas status_defs =
  RPUSBDISP_STATUS_TYPE_NORMAL_def RPUSBDISP_DISPLAY_STATUS_DIRTY_FLAG_def
  RPUSBDISP_TOUCH_STATUS_NO_TOUCH_def RPUSBDISP_TOUCH_STATUS_PRESSED_def

subsection \<open>Display packets\<close>

text \<open>
  The packed structures, header byte first. Each has the byte image its
  \<^verbatim>\<open>__attribute__((packed))\<close> layout gives it once the fields went through
  \<^verbatim>\<open>cpu_to_le16\<close>.
\<close>

record rpusbdisp_disp_packet_header_t =
  cmd_flag :: u8

record rpusbdisp_disp_fill_packet_t =
  fill_header :: rpusbdisp_disp_packet_header_t
  fill_color_565 :: u16

record rpusbdisp_disp_bitblt_packet_t =
  bitblt_header :: rpusbdisp_disp_packet_header_t
  bitblt_x :: u16
  bitblt_y :: u16
  bitblt_width :: u16
  bitblt_height :: u16
  bitblt_operation :: u8

record rpusbdisp_disp_fillrect_packet_t =
  fillrect_header :: rpusbdisp_disp_packet_header_t
  fillrect_left :: u16
  fillrect_top :: u16
  fillrect_right :: u16
  fillrect_bottom :: u16
  fillrect_color_565 :: u16
  fillrect_operation :: u8

record rpusbdisp_disp_copyarea_packet_t =
  copyarea_header :: rpusbdisp_disp_packet_header_t
  copyarea_sx :: u16
  copyarea_sy :: u16
  copyarea_dx :: u16
  copyarea_dy :: u16
  copyarea_width :: u16
  copyarea_height :: u16

definition header_bytes :: "rpusbdisp_disp_packet_header_t \<Rightarrow> u8 list" where
  "header_bytes h = [cmd_flag h]"

definition fill_bytes :: "rpusbdisp_disp_fill_packet_t \<Rightarrow> u8 list" where
  "fill_bytes p = header_bytes (fill_header p) @ cpu_to_le16 (fill_color_565 p)"

definition bitblt_bytes :: "rpusbdisp_disp_bitblt_packet_t \<Rightarrow> u8 list" where
  "bitblt_bytes p = header_bytes (bitblt_header p) @ cpu_to_le16 (bitblt_x p)
     @ cpu_to_le16 (bitblt_y p) @ cpu_to_le16 (bitblt_width p) @ cpu_to_le16 (bitblt_height p)
     @ [bitblt_operation p]"

definition fillrect_bytes :: "rpusbdisp_disp_fillrect_packet_t \<Rightarrow> u8 list" where
  "fillrect_bytes p = header_bytes (fillrect_header p) @ cpu_to_le16 (fillrect_left p)
     @ cpu_to_le16 (fillrect_top p) @ cpu_to_le16 (fillrect_right p)
     @ cpu_to_le16 (fillrect_bottom p) @ cpu_to_le16 (fillrect_color_565 p)
     @ [fillrect_operation p]"

definition copyarea_bytes :: "rpusbdisp_disp_copyarea_packet_t \<Rightarrow> u8 list" where
  "copyarea_bytes p = header_bytes (copyarea_header p) @ cpu_to_le16 (copyarea_sx p)
     @ cpu_to_le16 (copyarea_sy p) @ cpu_to_le16 (copyarea_dx p) @ cpu_to_le16 (copyarea_dy p)
     @ cpu_to_le16 (copyarea_width p) @ cpu_to_le16 (copyarea_height p)"

lemmas packet_bytes_defs =
  header_bytes_def fill_bytes_def bitblt_bytes_def fillrect_bytes_def copyarea_bytes_def

text \<open>The \<^verbatim>\<open>sizeof\<close> of each packed structure.\<close>

lemma packet_sizes [simp]:
  "length (header_bytes h) = 1"
  "length (fill_bytes f) = 3"
  "length (bitblt_bytes b) = 10"
  "length (fillrect_bytes r) = 12"
  "length (copyarea_bytes c) = 13"
  by (simp_all add: packet_bytes_defs)

subsection \<open>The reading side\<close>

text \<open>
  How a receiver reads the images back, by the layout of the structures. These are the abstract
  device of the development: the sender's theorems say what these functions recover.
\<close>

fun parse_bitblt :: "u8 list \<Rightarrow> (rpusbdisp_disp_bitblt_packet_t \<times> u8 list) option" where
  "parse_bitblt (c # x0 # x1 # y0 # y1 # w0 # w1 # h0 # h1 # op # rest) =
     Some (\<lparr>bitblt_header = \<lparr>cmd_flag = c\<rparr>, bitblt_x = le16_to_cpu x0 x1,
            bitblt_y = le16_to_cpu y0 y1, bitblt_width = le16_to_cpu w0 w1,
            bitblt_height = le16_to_cpu h0 h1, bitblt_operation = op\<rparr>, rest)"
| "parse_bitblt _ = None"

fun parse_fillrect :: "u8 list \<Rightarrow> (rpusbdisp_disp_fillrect_packet_t \<times> u8 list) option" where
  "parse_fillrect (c # l0 # l1 # t0 # t1 # r0 # r1 # b0 # b1 # k0 # k1 # op # rest) =
     Some (\<lparr>fillrect_header = \<lparr>cmd_flag = c\<rparr>, fillrect_left = le16_to_cpu l0 l1,
            fillrect_top = le16_to_cpu t0 t1, fillrect_right = le16_to_cpu r0 r1,
            fillrect_bottom = le16_to_cpu b0 b1, fillrect_color_565 = le16_to_cpu k0 k1,
            fillrect_operation = op\<rparr>, rest)"
| "parse_fillrect _ = None"

fun parse_copyarea :: "u8 list \<Rightarrow> (rpusbdisp_disp_copyarea_packet_t \<times> u8 list) option" where
  "parse_copyarea (c # a0 # a1 # b0 # b1 # d0 # d1 # e0 # e1 # w0 # w1 # h0 # h1 # rest) =
     Some (\<lparr>copyarea_header = \<lparr>cmd_flag = c\<rparr>, copyarea_sx = le16_to_cpu a0 a1,
            copyarea_sy = le16_to_cpu b0 b1, copyarea_dx = le16_to_cpu d0 d1,
            copyarea_dy = le16_to_cpu e0 e1, copyarea_width = le16_to_cpu w0 w1,
            copyarea_height = le16_to_cpu h0 h1\<rparr>, rest)"
| "parse_copyarea _ = None"

fun parse_pixels :: "u8 list \<Rightarrow> u16 list" where
  "parse_pixels (b0 # b1 # rest) = le16_to_cpu b0 b1 # parse_pixels rest"
| "parse_pixels _ = []"

lemma parse_bitblt_bytes [simp]: "parse_bitblt (bitblt_bytes p @ rest) = Some (p, rest)"
  by (simp add: packet_bytes_defs cpu_to_le16_def)

lemma parse_fillrect_bytes [simp]: "parse_fillrect (fillrect_bytes p @ rest) = Some (p, rest)"
  by (simp add: packet_bytes_defs cpu_to_le16_def)

lemma parse_copyarea_bytes [simp]: "parse_copyarea (copyarea_bytes p @ rest) = Some (p, rest)"
  by (simp add: packet_bytes_defs cpu_to_le16_def)

lemma parse_pixels_image [simp]: "parse_pixels (concat (map cpu_to_le16 ps)) = ps"
  by (induction ps) (simp_all add: cpu_to_le16_def)

lemma length_pixel_image [simp]: "length (concat (map cpu_to_le16 ps)) = 2 * length ps"
  by (induction ps) simp_all

subsection \<open>Status packets\<close>

record rpusbdisp_status_normal_packet_t =
  packet_type :: u8
  display_status :: u8
  touch_status :: u8
  touch_x :: u32
  touch_y :: u32

definition status_bytes :: "rpusbdisp_status_normal_packet_t \<Rightarrow> u8 list" where
  "status_bytes p = [packet_type p, display_status p, touch_status p]
     @ cpu_to_le32 (touch_x p) @ cpu_to_le32 (touch_y p)"

lemma length_status_bytes [simp]: "length (status_bytes p) = 11"
  by (simp add: status_bytes_def)

text \<open>Splitting off the START and CLEARDITY flags leaves the command number.\<close>

lemma cmd_of_flags:
  "(RPUSBDISP_DISPCMD_BITBLT OR RPUSBDISP_CMD_FLAG_START) AND RPUSBDISP_CMD_MASK
     = RPUSBDISP_DISPCMD_BITBLT"
  "(RPUSBDISP_DISPCMD_BITBLT_RLE OR RPUSBDISP_CMD_FLAG_START) AND RPUSBDISP_CMD_MASK
     = RPUSBDISP_DISPCMD_BITBLT_RLE"
  "(RPUSBDISP_DISPCMD_BITBLT OR RPUSBDISP_CMD_FLAG_START OR RPUSBDISP_CMD_FLAG_CLEARDITY)
     AND RPUSBDISP_CMD_MASK = RPUSBDISP_DISPCMD_BITBLT"
  "(RPUSBDISP_DISPCMD_BITBLT_RLE OR RPUSBDISP_CMD_FLAG_START OR RPUSBDISP_CMD_FLAG_CLEARDITY)
     AND RPUSBDISP_CMD_MASK = RPUSBDISP_DISPCMD_BITBLT_RLE"
  by (simp_all add: cmd_defs)

end
