(* ===== verification/Driver_State.thy ===== *)
theory Driver_State
  imports Protocol
begin

text \<open>
  The data of the Linux driver: the configuration constants of \<^verbatim>\<open>inc/devconf.h\<close> and
  \<^verbatim>\<open>inc/drvconf.h\<close>, the structures of \<^verbatim>\<open>usbhandlers.c\<close> and
  \<^verbatim>\<open>fbhandlers.c\<close>, and the state \<open>st\<close> an operation on one display device
  works on. Pointers to tickets, devices and framebuffers are numbers; a list head is the list of
  the nodes linked behind it.
\<close>

subsection \<open>Configuration\<close>

definition RP_DISP_DEFAULT_HEIGHT :: int where "RP_DISP_DEFAULT_HEIGHT = 240"
definition RP_DISP_DEFAULT_WIDTH :: int where "RP_DISP_DEFAULT_WIDTH = 320"
definition RP_DISP_DEFAULT_PIXEL_BITS :: int where "RP_DISP_DEFAULT_PIXEL_BITS = 16"
definition RP_DISP_FEATURE_RLE_FWVERSION :: u16 where "RP_DISP_FEATURE_RLE_FWVERSION = 0x0104"

definition RPUSBDISP_STATUS_QUERY_RETRY_COUNT :: int where
  "RPUSBDISP_STATUS_QUERY_RETRY_COUNT = 4"
definition PAGE_SIZE :: nat where "PAGE_SIZE = 4096"
definition RPUSBDISP_MAX_TRANSFER_SIZE :: nat where
  "RPUSBDISP_MAX_TRANSFER_SIZE = PAGE_SIZE * 16 - 512"
definition RPUSBDISP_MAX_TRANSFER_TICKETS_COUNT :: nat where
  "RPUSBDISP_MAX_TRANSFER_TICKETS_COUNT = 10"
definition RPUSBDISP_STATUS_BUFFER_SIZE :: nat where "RPUSBDISP_STATUS_BUFFER_SIZE = 32"

lemmas conf_defs =
  RP_DISP_DEFAULT_HEIGHT_def RP_DISP_DEFAULT_WIDTH_def RP_DISP_DEFAULT_PIXEL_BITS_def
  RPUSBDISP_MAX_TRANSFER_SIZE_def PAGE_SIZE_def

subsection \<open>Tickets and their pool\<close>

type_synonym tid = nat
type_synonym dev_ptr = nat
type_synonym fb_ptr = nat

text \<open>A ticket owns one URB; its fields here are those of the URB that the driver touches.\<close>

record rpusbdisp_disp_ticket =
  transfer_buffer :: "u8 list"
  transfer_buffer_length :: nat
  urb_status :: int

record rpusbdisp_disp_ticket_pool =
  pool_list :: "tid list"
  disp_urb_count :: nat
  packet_size_factor :: nat
  availiable_count :: int
  completion_work :: bool

subsection \<open>The device\<close>

text \<open>
  \<open>completion_work\<close> above says that the delayed work is scheduled, \<open>urb_status_query\<close>
  below whether the status URB is allocated, and then whether it is submitted.
\<close>

record rpusbdisp_dev =
  dev_id :: int
  is_alive :: bool
  status_in_buffer :: "u8 list"
  status_in_buffer_recvsize :: nat
  status_in_ep_addr :: u8
  urb_status_query :: "bool option"
  urb_status_fail_count :: int
  disp_out_ep_addr :: u8
  disp_out_ep_max_size :: nat
  disp_tickets_pool :: rpusbdisp_disp_ticket_pool
  fb_handle :: "fb_ptr option"
  device_fwver :: u16

subsection \<open>The framebuffer\<close>

record dirty_rect =
  left :: int
  top :: int
  right :: int
  bottom :: int
  dirty_flag :: int

record rpusbdisp_fb_private =
  pseudo_palette :: "u32 list"
  dirty_rect :: dirty_rect
  binded_usbdev :: "dev_ptr option"
  unsync_flag :: u32

record fb_bitfield =
  offset :: nat
  flength :: nat

datatype fb_visual =
  FB_VISUAL_TRUECOLOR | FB_VISUAL_STATIC_PSEUDOCOLOR | FB_VISUAL_PSEUDOCOLOR | FB_VISUAL_OTHER

record fb_info =
  visual :: fb_visual
  var_width :: u32
  var_height :: u32
  grayscale :: bool
  red :: fb_bitfield
  green :: fb_bitfield
  blue :: fb_bitfield
  transp :: fb_bitfield
  line_length :: u32
  smem_len :: nat
  mmio_start :: nat
  smem :: "u16 list"
  par :: rpusbdisp_fb_private

subsection \<open>The USB core\<close>

text \<open>
  \<^verbatim>\<open>usb_submit_urb\<close> is code of the kernel: it is a parameter \<open>hcd\<close> that answers
  every submission attempt, given the attempts made so far. The answer holds the return code, what
  the call leaves in \<^verbatim>\<open>urb->status\<close>, and which URBs the controller completes, with
  which status, before the driver's next step.
\<close>

record usb_xfer =
  xfer_bytes :: "u8 list"
  xfer_rc :: int

record submit_reply =
  reply_rc :: int
  reply_status :: int
  reply_completed :: "(tid \<times> int) list"

type_synonym hcd = "usb_xfer list \<Rightarrow> u8 list \<Rightarrow> submit_reply"

subsection \<open>The state of an operation on one device\<close>

record st =
  dv :: rpusbdisp_dev
  tickets :: "tid \<rightharpoonup> rpusbdisp_disp_ticket"
  inflight :: "tid list"
  usb_log :: "usb_xfer list"
  default_fb :: "fb_ptr option"
  fb :: fb_info

abbreviation pool :: "st \<Rightarrow> rpusbdisp_disp_ticket_pool" where
  "pool s \<equiv> disp_tickets_pool (dv s)"

abbreviation free_tickets :: "st \<Rightarrow> tid list" where
  "free_tickets s \<equiv> pool_list (pool s)"

abbreviation ep_size :: "st \<Rightarrow> nat" where
  "ep_size s \<equiv> disp_out_ep_max_size (dv s)"

abbreviation factor :: "st \<Rightarrow> nat" where
  "factor s \<equiv> packet_size_factor (pool s)"

abbreviation pool_update :: "(rpusbdisp_disp_ticket_pool \<Rightarrow> rpusbdisp_disp_ticket_pool) \<Rightarrow> st \<Rightarrow> st"
  where "pool_update f \<equiv> dv_update (disp_tickets_pool_update f)"

abbreviation private_update :: "(rpusbdisp_fb_private \<Rightarrow> rpusbdisp_fb_private) \<Rightarrow> st \<Rightarrow> st" where
  "private_update f \<equiv> fb_update (par_update f)"

subsection \<open>Accessors between the two halves of the driver\<close>

definition rpusbdisp_usb_set_fbhandle :: "fb_ptr option \<Rightarrow> rpusbdisp_dev \<Rightarrow> rpusbdisp_dev" where
  "rpusbdisp_usb_set_fbhandle fbhandle dev = dev\<lparr>fb_handle := fbhandle\<rparr>"

definition rpusbdisp_usb_get_fbhandle :: "rpusbdisp_dev \<Rightarrow> fb_ptr option" where
  "rpusbdisp_usb_get_fbhandle dev = fb_handle dev"

text \<open>
  A device that is bound to a framebuffer marks the default framebuffer's display as out of
  sync. \<^verbatim>\<open>_get_fb_private\<close> dereferences the default framebuffer.
\<close>

definition fbhandler_set_unsync_flag :: "st \<Rightarrow> fault + st" where
  "fbhandler_set_unsync_flag s =
     (if rpusbdisp_usb_get_fbhandle (dv s) \<noteq> None
      then (if default_fb s = None then Inl NullDeref
            else Inr (private_update (unsync_flag_update (\<lambda>_. 1)) s))
      else Inr s)"

definition schedule_completion_work :: "st \<Rightarrow> st" where
  "schedule_completion_work s = pool_update (completion_work_update (\<lambda>_. True)) s"

end
