(* ===== verification/Ticket_Pool.thy ===== *)
theory Ticket_Pool
  imports Driver_State
begin

text \<open>
  The ticket pool of \<^verbatim>\<open>usbhandlers.c\<close>: selling tickets to a sender, returning them,
  submitting a ticket's URB and the completion handler. A ticket is at any time in exactly one of
  three places: free (linked in the pool), in flight (owned by the USB core) or held by the sender
  that bought it. \<open>pool_inv H\<close> says so for a sender holding \<open>H\<close>, and every operation
  is shown to keep it, so that a ticket can neither be lost nor be used twice.
\<close>

subsection \<open>Selling and returning tickets\<close>

text \<open>The loop of \<^verbatim>\<open>_sell_disp_tickets\<close> moves the head node of the pool to the bundle.\<close>

fun take_nodes :: "nat \<Rightarrow> tid list \<Rightarrow> tid list \<Rightarrow> fault + (tid list \<times> tid list)" where
  "take_nodes 0 pool_nodes sold = Inr (sold, pool_nodes)"
| "take_nodes (Suc n) [] sold = Inl ListCorrupt"
| "take_nodes (Suc n) (node # pool_nodes) sold = take_nodes n pool_nodes (sold @ [node])"

text \<open>The result is the answer of the function, the bundle's list and the new state.\<close>

definition sell_disp_tickets :: "nat \<Rightarrow> st \<Rightarrow> fault + (int \<times> tid list \<times> st)" where
  "sell_disp_tickets required_count s =
     (if \<not> is_alive (dv s) then Inr (0, [], s)
      else if required_count = 0 then Inr (0, [], s)
      else if required_count > size_t (availiable_count (pool s)) then Inr (0, [], s)
      else
        (let s1 = pool_update (availiable_count_update (\<lambda>c. c - int required_count)) s in
         kbind (take_nodes required_count (free_tickets s1) [])
           (\<lambda>(sold, nodes).
              Inr (c_int (int required_count), sold, pool_update (pool_list_update (\<lambda>_. nodes)) s1))))"

definition return_disp_tickets :: "tid \<Rightarrow> st \<Rightarrow> bool \<times> st" where
  "return_disp_tickets ticket s =
     (let s1 = pool_update (pool_list_update (\<lambda>l. l @ [ticket])) s;
          s2 = pool_update (availiable_count_update (\<lambda>c. c + 1)) s1;
          all_finished = (size_t (availiable_count (pool s2)) = disp_urb_count (pool s2))
      in (all_finished, s2))"

subsection \<open>Completion of a transfer\<close>

text \<open>The completion handler of a display URB; it is also called when a submission fails.\<close>

definition on_display_transfer_finished :: "tid \<Rightarrow> st \<Rightarrow> fault + st" where
  "on_display_transfer_finished ticket s =
     (case tickets s ticket of
        None \<Rightarrow> Inl UseAfterFree
      | Some urb \<Rightarrow>
          kbind (if urb_status urb \<noteq> 0 \<and> is_alive (dv s) then fbhandler_set_unsync_flag s else Inr s)
            (\<lambda>s1.
               let s2 = s1\<lparr>tickets := (tickets s1)
                          (ticket \<mapsto> urb\<lparr>transfer_buffer_length := factor s1 * ep_size s1\<rparr>)\<rparr>;
                   (all_finished, s3) = return_disp_tickets ticket s2
               in Inr (if all_finished \<and> urb_status urb = 0 then schedule_completion_work s3 else s3)))"

subsection \<open>Submitting a ticket\<close>

text \<open>
  The controller completes an URB it owns: it stores the status and calls the handler. Answers
  that name other tickets do nothing.
\<close>

definition complete_urb :: "tid \<Rightarrow> int \<Rightarrow> st \<Rightarrow> fault + st" where
  "complete_urb ticket status s =
     (if ticket \<in> set (inflight s)
      then on_display_transfer_finished ticket
             (s\<lparr>inflight := remove1 ticket (inflight s),
                tickets := (tickets s)(ticket := map_option (urb_status_update (\<lambda>_. status)) (tickets s ticket))\<rparr>)
      else Inr s)"

fun complete_urbs :: "(tid \<times> int) list \<Rightarrow> st \<Rightarrow> fault + st" where
  "complete_urbs [] s = Inr s"
| "complete_urbs ((ticket, status) # rest) s = kbind (complete_urb ticket status s) (complete_urbs rest)"

text \<open>
  \<^verbatim>\<open>usb_submit_urb\<close> for a ticket: the bytes it sends are the first
  \<^verbatim>\<open>transfer_buffer_length\<close> of its buffer; an accepted URB is in flight afterwards.
\<close>

definition usb_submit_urb :: "hcd \<Rightarrow> tid \<Rightarrow> st \<Rightarrow> fault + (int \<times> st)" where
  "usb_submit_urb hcd ticket s =
     (case tickets s ticket of
        None \<Rightarrow> Inl UseAfterFree
      | Some urb \<Rightarrow>
          if transfer_buffer_length urb > length (transfer_buffer urb) then Inl OutOfBounds
          else
            (let bytes = take (transfer_buffer_length urb) (transfer_buffer urb);
                 reply = hcd (usb_log s) bytes;
                 rc = reply_rc reply;
                 s1 = s\<lparr>usb_log := usb_log s @ [\<lparr>xfer_bytes = bytes, xfer_rc = rc\<rparr>],
                        tickets := (tickets s)(ticket \<mapsto> urb\<lparr>urb_status := reply_status reply\<rparr>),
                        inflight := (if rc = 0 then inflight s @ [ticket] else inflight s)\<rparr>
             in kbind (complete_urbs (reply_completed reply) s1) (\<lambda>s2. Inr (rc, s2))))"

subsection \<open>The invariant\<close>

definition pool_inv :: "tid list \<Rightarrow> st \<Rightarrow> bool" where
  "pool_inv H s \<longleftrightarrow>
     distinct (free_tickets s @ inflight s @ H)
   \<and> set (free_tickets s @ inflight s @ H) = dom (tickets s)
   \<and> length (free_tickets s @ inflight s @ H) = disp_urb_count (pool s)
   \<and> disp_urb_count (pool s) \<le> RPUSBDISP_MAX_TRANSFER_TICKETS_COUNT
   \<and> availiable_count (pool s) = int (length (free_tickets s))
   \<and> (\<forall>urb \<in> ran (tickets s). length (transfer_buffer urb) = RPUSBDISP_MAX_TRANSFER_SIZE)
   \<and> (\<forall>t \<in> set (free_tickets s). \<forall>urb. tickets s t = Some urb \<longrightarrow>
        transfer_buffer_length urb = factor s * ep_size s)
   \<and> factor s * ep_size s \<le> RPUSBDISP_MAX_TRANSFER_SIZE
   \<and> (fb_handle (dv s) \<noteq> None \<longrightarrow> default_fb s \<noteq> None)"

definition full_length :: "tid list \<Rightarrow> st \<Rightarrow> bool" where
  "full_length ts s \<longleftrightarrow> (\<forall>t \<in> set ts. \<forall>urb. tickets s t = Some urb \<longrightarrow>
     transfer_buffer_length urb = factor s * ep_size s)"

text \<open>The part of the state that no completion and no submission changes.\<close>

definition stable :: "st \<Rightarrow> rpusbdisp_dev \<times> fb_ptr option \<times> fb_info" where
  "stable s =
     ((dv s)\<lparr>disp_tickets_pool := (pool s)\<lparr>pool_list := [], availiable_count := 0, completion_work := False\<rparr>\<rparr>,
      default_fb s,
      (fb s)\<lparr>par := (par (fb s))\<lparr>unsync_flag := 0\<rparr>\<rparr>)"

lemma stable_facts:
  assumes st: "stable s' = stable s"
  shows "ep_size s' = ep_size s" "factor s' = factor s"
    "disp_urb_count (pool s') = disp_urb_count (pool s)"
    "is_alive (dv s') = is_alive (dv s)" "fb_handle (dv s') = fb_handle (dv s)"
    "device_fwver (dv s') = device_fwver (dv s)" "default_fb s' = default_fb s"
    "smem (fb s') = smem (fb s)" "line_length (fb s') = line_length (fb s)"
    "var_width (fb s') = var_width (fb s)" "var_height (fb s') = var_height (fb s)"
    "dirty_rect (par (fb s')) = dirty_rect (par (fb s))"
    "binded_usbdev (par (fb s')) = binded_usbdev (par (fb s))"
proof -
  note dev = arg_cong [OF st, of "\<lambda>x. f (fst x)" for f]
  note info = arg_cong [OF st, of "\<lambda>x. g (snd (snd x))" for g]
  show "ep_size s' = ep_size s"
    using dev [of disp_out_ep_max_size] by (simp add: stable_def)
  show "factor s' = factor s"
    using dev [of "\<lambda>d. packet_size_factor (disp_tickets_pool d)"] by (simp add: stable_def)
  show "disp_urb_count (pool s') = disp_urb_count (pool s)"
    using dev [of "\<lambda>d. disp_urb_count (disp_tickets_pool d)"] by (simp add: stable_def)
  show "is_alive (dv s') = is_alive (dv s)"
    using dev [of is_alive] by (simp add: stable_def)
  show "fb_handle (dv s') = fb_handle (dv s)"
    using dev [of fb_handle] by (simp add: stable_def)
  show "device_fwver (dv s') = device_fwver (dv s)"
    using dev [of device_fwver] by (simp add: stable_def)
  show "default_fb s' = default_fb s"
    using arg_cong [OF st, of "\<lambda>x. fst (snd x)"] by (simp add: stable_def)
  show "smem (fb s') = smem (fb s)"
    using info [of smem] by (simp add: stable_def)
  show "line_length (fb s') = line_length (fb s)"
    using info [of line_length] by (simp add: stable_def)
  show "var_width (fb s') = var_width (fb s)"
    using info [of var_width] by (simp add: stable_def)
  show "var_height (fb s') = var_height (fb s)"
    using info [of var_height] by (simp add: stable_def)
  show "dirty_rect (par (fb s')) = dirty_rect (par (fb s))"
    using info [of "\<lambda>f. dirty_rect (par f)"] by (simp add: stable_def)
  show "binded_usbdev (par (fb s')) = binded_usbdev (par (fb s))"
    using info [of "\<lambda>f. binded_usbdev (par f)"] by (simp add: stable_def)
qed

text \<open>Changes to the parts that \<open>stable\<close> leaves out.\<close>

lemma stable_updates [simp]:
  "stable (s\<lparr>tickets := T\<rparr>) = stable s" "stable (s\<lparr>inflight := I\<rparr>) = stable s"
  "stable (s\<lparr>usb_log := L\<rparr>) = stable s"
  "stable (pool_update (pool_list_update f) s) = stable s"
  "stable (pool_update (availiable_count_update g) s) = stable s"
  "stable (pool_update (completion_work_update h) s) = stable s"
  "stable (private_update (unsync_flag_update k) s) = stable s"
  by (simp_all add: stable_def)

subsection \<open>Selling\<close>

lemma take_nodes_char:
  "n \<le> length nodes \<Longrightarrow> take_nodes n nodes sold = Inr (sold @ take n nodes, drop n nodes)"
  by (induction n nodes sold rule: take_nodes.induct) simp_all

lemma pool_invD:
  assumes "pool_inv H s"
  shows "availiable_count (pool s) = int (length (free_tickets s))"
    "length (free_tickets s) \<le> 10" "length (free_tickets s) + length (inflight s) + length H
       = disp_urb_count (pool s)"
    "t \<in> set H \<or> t \<in> set (free_tickets s) \<or> t \<in> set (inflight s) \<Longrightarrow> \<exists>urb. tickets s t = Some urb"
    "tickets s t = Some urb \<Longrightarrow> length (transfer_buffer urb) = RPUSBDISP_MAX_TRANSFER_SIZE"
    "factor s * ep_size s \<le> RPUSBDISP_MAX_TRANSFER_SIZE"
    "distinct H" "full_length (free_tickets s) s"
    "fb_handle (dv s) \<noteq> None \<Longrightarrow> default_fb s \<noteq> None"
  using assms unfolding pool_inv_def RPUSBDISP_MAX_TRANSFER_TICKETS_COUNT_def full_length_def
  by (auto simp: ran_def)

text \<open>
  Selling is all or nothing: a living device with enough free tickets hands over the oldest
  \<open>n\<close> of them, in order; otherwise nothing changes.
\<close>

lemma sell_disp_tickets_char:
  assumes "pool_inv H s"
  shows "sell_disp_tickets n s =
    (if is_alive (dv s) \<and> 0 < n \<and> n \<le> length (free_tickets s)
     then Inr (int n, take n (free_tickets s),
               pool_update (pool_list_update (\<lambda>l. drop n l))
                 (pool_update (availiable_count_update (\<lambda>c. c - int n)) s))
     else Inr (0, [], s))"
proof -
  note inv = pool_invD [OF assms]
  have avail: "size_t (availiable_count (pool s)) = length (free_tickets s)"
    using inv(1,2) by simp
  show ?thesis
    using avail inv(2) by (simp add: sell_disp_tickets_def take_nodes_char c_int_id)
qed

text \<open>The invariant reads the lists of a state only up to their order.\<close>

lemma pool_inv_rearrange:
  assumes inv: "pool_inv H s"
    and moved: "mset (free_tickets s' @ inflight s' @ H') = mset (free_tickets s @ inflight s @ H)"
    and count: "availiable_count (pool s') = int (length (free_tickets s'))"
    and doms: "dom (tickets s') = dom (tickets s)"
    and bufs: "\<And>t urb. tickets s' t = Some urb \<Longrightarrow> length (transfer_buffer urb) = RPUSBDISP_MAX_TRANSFER_SIZE"
    and full: "full_length (free_tickets s') s'"
    and stable: "stable s' = stable s"
  shows "pool_inv H' s'"
proof -
  note same = same_mset [OF moved] and eqs = stable_facts [OF stable]
  have bufs': "\<forall>urb \<in> ran (tickets s'). length (transfer_buffer urb) = RPUSBDISP_MAX_TRANSFER_SIZE"
    using bufs by (auto simp: ran_def)
  show ?thesis
    unfolding pool_inv_def same doms eqs
    using inv count bufs' full unfolding pool_inv_def full_length_def eqs by simp
qed

lemma pool_inv_sold:
  assumes "pool_inv H s" "n \<le> length (free_tickets s)"
  shows "pool_inv (take n (free_tickets s) @ H)
    (pool_update (pool_list_update (\<lambda>l. drop n l))
       (pool_update (availiable_count_update (\<lambda>c. c - int n)) s))"
proof (rule pool_inv_rearrange [OF assms(1)])
  show "full_length (free_tickets (pool_update (pool_list_update (\<lambda>l. drop n l))
       (pool_update (availiable_count_update (\<lambda>c. c - int n)) s)))
     (pool_update (pool_list_update (\<lambda>l. drop n l))
       (pool_update (availiable_count_update (\<lambda>c. c - int n)) s))"
    using pool_invD(8) [OF assms(1)] by (auto simp: full_length_def dest: in_set_dropD)
  show "stable (pool_update (pool_list_update (\<lambda>l. drop n l))
       (pool_update (availiable_count_update (\<lambda>c. c - int n)) s)) = stable s"
    by (simp only: stable_updates)
  show "availiable_count (pool (pool_update (pool_list_update (\<lambda>l. drop n l))
       (pool_update (availiable_count_update (\<lambda>c. c - int n)) s)))
     = int (length (free_tickets (pool_update (pool_list_update (\<lambda>l. drop n l))
       (pool_update (availiable_count_update (\<lambda>c. c - int n)) s))))"
    using assms(2) pool_invD(1) [OF assms(1)] by (simp add: of_nat_diff)
qed (simp_all add: pool_invD(5) [OF assms(1)] mset_take_drop [of n "free_tickets s", symmetric])

subsection \<open>Returning\<close>

lemma return_disp_tickets_frame [simp]:
  "free_tickets (snd (return_disp_tickets t s)) = free_tickets s @ [t]"
  "inflight (snd (return_disp_tickets t s)) = inflight s"
  "tickets (snd (return_disp_tickets t s)) = tickets s"
  "usb_log (snd (return_disp_tickets t s)) = usb_log s"
  "completion_work (pool (snd (return_disp_tickets t s))) = completion_work (pool s)"
  "fb (snd (return_disp_tickets t s)) = fb s"
  by (simp_all add: return_disp_tickets_def Let_def)

lemma return_disp_tickets_stable [simp]: "stable (snd (return_disp_tickets t s)) = stable s"
  unfolding return_disp_tickets_def Let_def snd_conv by (simp only: stable_updates)

lemma full_length_append [simp]: "full_length (ts @ us) s \<longleftrightarrow> full_length ts s \<and> full_length us s"
  by (auto simp: full_length_def)

lemma full_length_Cons:
  "full_length (t # ts) s \<longleftrightarrow> full_length [t] s \<and> full_length ts s"
  by (simp add: full_length_def)

lemma full_length_cong:
  assumes st: "stable s' = stable s" and same: "\<And>t. t \<in> set ts \<Longrightarrow> tickets s' t = tickets s t"
  shows "full_length ts s' = full_length ts s"
  using same unfolding full_length_def stable_facts [OF st] by simp

lemma pool_inv_return:
  assumes inv: "pool_inv (t # H) s" and full: "full_length [t] s"
  shows "pool_inv H (snd (return_disp_tickets t s))"
proof (rule pool_inv_rearrange [OF inv])
  let ?s' = "snd (return_disp_tickets t s)"
  show "full_length (free_tickets ?s') ?s'"
    using full pool_invD(8) [OF inv] by (simp add: full_length_cong [of ?s' s])
  show "availiable_count (pool ?s') = int (length (free_tickets ?s'))"
    using pool_invD(1) [OF inv] by (simp add: return_disp_tickets_def Let_def)
qed (simp_all add: pool_invD(5) [OF inv])

text \<open>The last ticket to come home is reported, and only that one.\<close>

lemma return_disp_tickets_all_finished:
  assumes inv: "pool_inv (t # H) s"
  shows "fst (return_disp_tickets t s) \<longleftrightarrow> inflight s = [] \<and> H = []"
proof -
  have "size_t (availiable_count (pool s) + 1) = Suc (length (free_tickets s))"
    using pool_invD(1,2) [OF inv] by (simp add: size_t_def nat_add_distrib)
  then have "fst (return_disp_tickets t s) \<longleftrightarrow> Suc (length (free_tickets s)) = disp_urb_count (pool s)"
    by (simp add: return_disp_tickets_def Let_def)
  also have "\<dots> \<longleftrightarrow> length (inflight s) + length H = 0"
    using pool_invD(3) [OF inv] by (simp only: list.size(4)) arith
  finally show ?thesis by simp
qed

subsection \<open>Completion\<close>

lemma fbhandler_set_unsync_flag_ok:
  assumes "fb_handle (dv s) \<noteq> None \<Longrightarrow> default_fb s \<noteq> None"
  shows "fbhandler_set_unsync_flag s =
    Inr (if fb_handle (dv s) \<noteq> None then private_update (unsync_flag_update (\<lambda>_. 1)) s else s)"
  using assms
  by (cases "fb_handle (dv s)") (auto simp: fbhandler_set_unsync_flag_def rpusbdisp_usb_get_fbhandle_def)

text \<open>
  The completion handler on a ticket that the caller (the USB core, or a sender whose submission
  failed) owns: it cannot fault, the ticket goes to the end of the free list with its length reset,
  a failed transfer of a living bound device marks the display out of sync, and the flush work is
  scheduled exactly when a successful transfer was the last one out.
\<close>

lemma on_display_transfer_finished_ok:
  assumes inv: "pool_inv (t # H) s" and t: "tickets s t = Some urb"
  obtains s' where "on_display_transfer_finished t s = Inr s'" "pool_inv H s'" "stable s' = stable s"
    "usb_log s' = usb_log s" "inflight s' = inflight s" "free_tickets s' = free_tickets s @ [t]"
    "tickets s' = (tickets s)(t \<mapsto> urb\<lparr>transfer_buffer_length := factor s * ep_size s\<rparr>)"
    "unsync_flag (par (fb s')) =
       (if urb_status urb \<noteq> 0 \<and> is_alive (dv s) \<and> fb_handle (dv s) \<noteq> None then 1
        else unsync_flag (par (fb s)))"
    "completion_work (pool s') =
       (completion_work (pool s) \<or> urb_status urb = 0 \<and> inflight s = [] \<and> H = [])"
proof -
  define s1 where "s1 = (if urb_status urb \<noteq> 0 \<and> is_alive (dv s) \<and> fb_handle (dv s) \<noteq> None
    then private_update (unsync_flag_update (\<lambda>_. 1)) s else s)"
  define s2 where "s2 = s1\<lparr>tickets := (tickets s1)
    (t \<mapsto> urb\<lparr>transfer_buffer_length := factor s1 * ep_size s1\<rparr>)\<rparr>"
  have set: "(if urb_status urb \<noteq> 0 \<and> is_alive (dv s) then fbhandler_set_unsync_flag s else Inr s) = Inr s1"
    using fbhandler_set_unsync_flag_ok [of s] pool_invD(9) [OF inv] by (simp add: s1_def)
  have st1: "stable s1 = stable s"
    by (simp add: s1_def)
  have st2: "stable s2 = stable s"
    unfolding s2_def by (simp add: st1)
  have same: "free_tickets s2 = free_tickets s" "inflight s2 = inflight s" "usb_log s2 = usb_log s"
    "availiable_count (pool s2) = availiable_count (pool s)"
    "completion_work (pool s2) = completion_work (pool s)"
    "tickets s2 = (tickets s)(t \<mapsto> urb\<lparr>transfer_buffer_length := factor s * ep_size s\<rparr>)"
    by (simp_all add: s2_def s1_def)
  have t_notin: "t \<notin> set (free_tickets s)"
    using inv by (auto simp: pool_inv_def)
  have inv2: "pool_inv (t # H) s2"
  proof (rule pool_inv_rearrange [OF inv _ _ _ _ _ st2])
    show "full_length (free_tickets s2) s2"
      using pool_invD(8) [OF inv] t_notin by (auto simp: same full_length_def stable_facts [OF st2])
    show "dom (tickets s2) = dom (tickets s)"
      using t by (auto simp: same)
    fix u urb' assume "tickets s2 u = Some urb'"
    then show "length (transfer_buffer urb') = RPUSBDISP_MAX_TRANSFER_SIZE"
      using pool_invD(5) [OF inv, of u] pool_invD(5) [OF inv, of t] t
      by (auto simp: same split: if_splits)
  qed (use pool_invD(1) [OF inv] in \<open>simp_all add: same\<close>)
  have full2: "full_length [t] s2"
    by (simp add: full_length_def same stable_facts [OF st2])
  define s3 where "s3 = snd (return_disp_tickets t s2)"
  have inv3: "pool_inv H s3"
    unfolding s3_def by (rule pool_inv_return [OF inv2 full2])
  define fin where "fin = (inflight s = [] \<and> H = [] \<and> urb_status urb = 0)"
  define s4 where "s4 = (if fin then schedule_completion_work s3 else s3)"
  have st4: "stable s4 = stable s3"
    by (simp add: s4_def schedule_completion_work_def)
  have keep: "free_tickets s4 = free_tickets s3" "inflight s4 = inflight s3" "usb_log s4 = usb_log s3"
    "tickets s4 = tickets s3" "availiable_count (pool s4) = availiable_count (pool s3)" "fb s4 = fb s3"
    "completion_work (pool s4) = (completion_work (pool s3) \<or> fin)"
    by (simp_all add: s4_def schedule_completion_work_def)
  have inv4: "pool_inv H s4"
  proof (rule pool_inv_rearrange [OF inv3 _ _ _ _ _ st4])
    show "full_length (free_tickets s4) s4"
      using pool_invD(8) [OF inv3] by (simp add: keep full_length_cong [OF st4])
  qed (use pool_invD(1,5) [OF inv3] in \<open>simp_all add: keep\<close>)
  have run: "on_display_transfer_finished t s = Inr s4"
    using t set return_disp_tickets_all_finished [OF inv2]
    by (simp add: on_display_transfer_finished_def Let_def case_prod_unfold s4_def s3_def fin_def same
        flip: s2_def)
  have st: "stable s4 = stable s"
    by (simp add: st4 s3_def st2)
  show thesis
    by (rule that [OF run inv4 st]) (auto simp: keep s3_def same fin_def, auto simp: s2_def s1_def)
qed


subsection \<open>The USB core at work\<close>

text \<open>
  Whatever the controller completes during a submission, the sender's own tickets stay as they
  are and the invariant holds.
\<close>

lemma complete_urb_ok:
  assumes inv: "pool_inv H s"
  obtains s' where "complete_urb t status s = Inr s'" "pool_inv H s'" "stable s' = stable s"
    "usb_log s' = usb_log s" "set (inflight s') \<subseteq> set (inflight s)"
    "\<And>u. u \<notin> set (inflight s) \<Longrightarrow> tickets s' u = tickets s u"
proof (cases "t \<in> set (inflight s)")
  case False
  show thesis
    by (rule that [of s]) (use False inv in \<open>simp_all add: complete_urb_def\<close>)
next
  case True
  then obtain urb where urb: "tickets s t = Some urb"
    using pool_invD(4) [OF inv] by blast
  define s1 where "s1 = s\<lparr>inflight := remove1 t (inflight s),
    tickets := (tickets s)(t \<mapsto> urb\<lparr>urb_status := status\<rparr>)\<rparr>"
  have st1: "stable s1 = stable s"
    by (simp add: s1_def)
  have t_notin: "t \<notin> set (free_tickets s)"
    using inv True by (auto simp: pool_inv_def)
  have inv1: "pool_inv (t # H) s1"
  proof (rule pool_inv_rearrange [OF inv _ _ _ _ _ st1])
    show "mset (free_tickets s1 @ inflight s1 @ t # H) = mset (free_tickets s @ inflight s @ H)"
      using True by (simp add: s1_def)
    show "full_length (free_tickets s1) s1"
      using pool_invD(8) [OF inv] t_notin by (auto simp: full_length_def s1_def)
    show "dom (tickets s1) = dom (tickets s)"
      using urb by (auto simp: s1_def)
    fix u urb' assume "tickets s1 u = Some urb'"
    then show "length (transfer_buffer urb') = RPUSBDISP_MAX_TRANSFER_SIZE"
      using pool_invD(5) [OF inv, of u] pool_invD(5) [OF inv, of t] urb
      by (auto simp: s1_def split: if_splits)
  qed (use pool_invD(1) [OF inv] in \<open>simp_all add: s1_def\<close>)
  have t1: "tickets s1 t = Some (urb\<lparr>urb_status := status\<rparr>)"
    by (simp add: s1_def)
  obtain s' where s': "on_display_transfer_finished t s1 = Inr s'" "pool_inv H s'" "stable s' = stable s1"
    "usb_log s' = usb_log s1" "inflight s' = inflight s1"
    "tickets s' = (tickets s1)(t \<mapsto> urb\<lparr>urb_status := status,
       transfer_buffer_length := factor s1 * ep_size s1\<rparr>)"
    by (rule on_display_transfer_finished_ok [OF inv1 t1]) auto
  have "complete_urb t status s = Inr s'"
    using True urb s'(1) by (simp add: complete_urb_def s1_def)
  moreover have "set (inflight s') \<subseteq> set (inflight s)"
    using s'(5) set_remove1_subset [of t "inflight s"] by (simp add: s1_def)
  moreover have "tickets s' u = tickets s u" if "u \<notin> set (inflight s)" for u
    using that True s'(6) by (auto simp: s1_def)
  ultimately show thesis
    by (intro that [of s']) (use s' st1 in \<open>simp_all add: s1_def\<close>)
qed

lemma complete_urbs_ok:
  assumes "pool_inv H s"
  obtains s' where "complete_urbs cs s = Inr s'" "pool_inv H s'" "stable s' = stable s"
    "usb_log s' = usb_log s" "set (inflight s') \<subseteq> set (inflight s)"
    "\<And>u. u \<notin> set (inflight s) \<Longrightarrow> tickets s' u = tickets s u"
  using assms
proof (induction cs arbitrary: s thesis)
  case Nil
  show ?case by (rule Nil.prems(1) [of s]) (simp_all add: Nil.prems(2))
next
  case (Cons c cs)
  obtain t status where c: "c = (t, status)" by (cases c)
  obtain s1 where s1: "complete_urb t status s = Inr s1" "pool_inv H s1" "stable s1 = stable s"
    "usb_log s1 = usb_log s" "set (inflight s1) \<subseteq> set (inflight s)"
    "\<And>u. u \<notin> set (inflight s) \<Longrightarrow> tickets s1 u = tickets s u"
    by (rule complete_urb_ok [OF Cons.prems(2), of t status]) blast
  obtain s' where s': "complete_urbs cs s1 = Inr s'" "pool_inv H s'" "stable s' = stable s1"
    "usb_log s' = usb_log s1" "set (inflight s') \<subseteq> set (inflight s1)"
    "\<And>u. u \<notin> set (inflight s1) \<Longrightarrow> tickets s' u = tickets s1 u"
    by (rule Cons.IH [OF _ s1(2)]) blast
  show ?case
  proof (rule Cons.prems(1) [of s'])
    show "tickets s' u = tickets s u" if "u \<notin> set (inflight s)" for u
      using s'(6) [of u] s1(5,6) that by auto
  qed (use s1 s' c in auto)
qed

text \<open>
  A submission by the holder of the ticket: the attempt is logged with the bytes the URB holds; an
  accepted ticket leaves the sender for the controller, a refused one stays with the sender.
\<close>

lemma usb_submit_urb_ok:
  fixes hcd :: hcd
  assumes inv: "pool_inv (t # H) s" and t: "tickets s t = Some urb"
    and len: "transfer_buffer_length urb \<le> RPUSBDISP_MAX_TRANSFER_SIZE"
  defines "bytes \<equiv> take (transfer_buffer_length urb) (transfer_buffer urb)"
  defines "rc \<equiv> reply_rc (hcd (usb_log s) bytes)"
  obtains s' where "usb_submit_urb hcd t s = Inr (rc, s')" "stable s' = stable s"
    "usb_log s' = usb_log s @ [\<lparr>xfer_bytes = bytes, xfer_rc = rc\<rparr>]"
    "pool_inv (if rc = 0 then H else t # H) s'"
    "\<And>u. u \<in> set H \<Longrightarrow> tickets s' u = tickets s u"
    "rc \<noteq> 0 \<Longrightarrow> tickets s' t = Some (urb\<lparr>urb_status := reply_status (hcd (usb_log s) bytes)\<rparr>)"
proof -
  define s1 where "s1 = s\<lparr>usb_log := usb_log s @ [\<lparr>xfer_bytes = bytes, xfer_rc = rc\<rparr>],
    tickets := (tickets s)(t \<mapsto> urb\<lparr>urb_status := reply_status (hcd (usb_log s) bytes)\<rparr>),
    inflight := (if rc = 0 then inflight s @ [t] else inflight s)\<rparr>"
  let ?H = "if rc = 0 then H else t # H"
  have st1: "stable s1 = stable s"
    by (simp add: s1_def)
  have apart: "t \<notin> set (free_tickets s)" "t \<notin> set (inflight s)" "set H \<inter> set (inflight s) = {}" "t \<notin> set H"
    using inv by (auto simp: pool_inv_def)
  have inv1: "pool_inv ?H s1"
  proof (rule pool_inv_rearrange [OF inv _ _ _ _ _ st1])
    show "full_length (free_tickets s1) s1"
      using pool_invD(8) [OF inv] apart(1) by (auto simp: full_length_def s1_def)
    show "dom (tickets s1) = dom (tickets s)"
      using t by (auto simp: s1_def)
    fix u urb' assume "tickets s1 u = Some urb'"
    then show "length (transfer_buffer urb') = RPUSBDISP_MAX_TRANSFER_SIZE"
      using pool_invD(5) [OF inv, of u] pool_invD(5) [OF inv, of t] t
      by (auto simp: s1_def split: if_splits)
  qed (use pool_invD(1) [OF inv] in \<open>simp_all add: s1_def\<close>)
  obtain s' where s': "complete_urbs (reply_completed (hcd (usb_log s) bytes)) s1 = Inr s'"
    "pool_inv ?H s'" "stable s' = stable s1" "usb_log s' = usb_log s1"
    "\<And>u. u \<notin> set (inflight s1) \<Longrightarrow> tickets s' u = tickets s1 u"
    by (rule complete_urbs_ok [OF inv1, where cs = "reply_completed (hcd (usb_log s) bytes)"]) blast
  have "usb_submit_urb hcd t s = Inr (rc, s')"
    using t len s'(1) pool_invD(5) [OF inv t]
    by (simp add: usb_submit_urb_def Let_def bytes_def [symmetric] rc_def [symmetric] s1_def [symmetric])
  moreover have "tickets s' u = tickets s u" if "u \<in> set H" for u
  proof -
    have "u \<noteq> t" "u \<notin> set (inflight s)"
      using that apart by auto
    then show ?thesis
      using s'(5) [of u] by (simp add: s1_def split: if_splits)
  qed
  moreover have "tickets s' t = Some (urb\<lparr>urb_status := reply_status (hcd (usb_log s) bytes)\<rparr>)" if "rc \<noteq> 0"
    using s'(5) [of t] that apart by (auto simp: s1_def)
  ultimately show thesis
    by (intro that [of s']) (use s' st1 in \<open>simp_all add: s1_def\<close>)
qed

subsection \<open>What the pool guarantees\<close>

text \<open>A pool of two tickets, one of them in the hands of the sender.\<close>

definition sample_pool_dev :: rpusbdisp_dev where
  "sample_pool_dev =
     \<lparr>dev_id = 0, is_alive = True, status_in_buffer = replicate 32 0, status_in_buffer_recvsize = 0,
      status_in_ep_addr = 0x81, urb_status_query = Some True, urb_status_fail_count = 0,
      disp_out_ep_addr = 1, disp_out_ep_max_size = 64,
      disp_tickets_pool = \<lparr>pool_list = [0], disp_urb_count = 2, packet_size_factor = 1016,
         availiable_count = 1, completion_work = False\<rparr>,
      fb_handle = Some 0, device_fwver = 0x0104\<rparr>"

definition sample_pool :: st where
  "sample_pool =
     \<lparr>dv = sample_pool_dev,
      tickets = [0 \<mapsto> \<lparr>transfer_buffer = replicate 65024 0, transfer_buffer_length = 65024, urb_status = 0\<rparr>,
                 1 \<mapsto> \<lparr>transfer_buffer = replicate 65024 0, transfer_buffer_length = 12, urb_status = -71\<rparr>],
      inflight = [], usb_log = [], default_fb = Some 0,
      fb = \<lparr>visual = FB_VISUAL_TRUECOLOR, var_width = 0, var_height = 0, grayscale = False,
         red = \<lparr>offset = 0, flength = 5\<rparr>, green = \<lparr>offset = 5, flength = 6\<rparr>,
         blue = \<lparr>offset = 11, flength = 5\<rparr>, transp = \<lparr>offset = 0, flength = 0\<rparr>,
         line_length = 0, smem_len = 0, mmio_start = 0, smem = [],
         par = \<lparr>pseudo_palette = [],
           dirty_rect = \<lparr>left = 0, top = 0, right = 0, bottom = 0, dirty_flag = 0\<rparr>,
           binded_usbdev = Some 0, unsync_flag = 0\<rparr>\<rparr>\<rparr>"

lemma sample_pool_ok: "pool_inv [1] sample_pool"
  by (auto simp: pool_inv_def sample_pool_def sample_pool_dev_def conf_defs
      RPUSBDISP_MAX_TRANSFER_TICKETS_COUNT_def ran_def split: if_splits)

text \<open>
  C8. Selling is all or nothing: a living device with at least \<open>n > 0\<close> free tickets hands
  over exactly the \<open>n\<close> oldest ones, in order; in every other case nothing is sold and
  nothing changes. No ticket is then in two places.
\<close>

theorem sell_all_or_nothing:
  assumes "pool_inv H s"
  shows "\<exists>r sold s'. sell_disp_tickets n s = Inr (r, sold, s') \<and> pool_inv (sold @ H) s' \<and>
    (if is_alive (dv s) \<and> 0 < n \<and> n \<le> length (free_tickets s)
     then r = int n \<and> sold = take n (free_tickets s) \<and> free_tickets s' = drop n (free_tickets s)
     else r = 0 \<and> sold = [] \<and> s' = s)"
  using pool_inv_sold [OF assms, of n] assms by (auto simp: sell_disp_tickets_char [OF assms])

theorem sell_all_or_nothing_witness:
  "\<exists>s'. sell_disp_tickets 1 sample_pool = Inr (1, [0], s') \<and> pool_inv [0, 1] s' \<and> free_tickets s' = []"
  using sell_all_or_nothing [OF sample_pool_ok, of 1] by (auto simp: sample_pool_def sample_pool_dev_def)

text \<open>
  C9. The completion handler of a display transfer cannot fault; it puts the ticket at the end of
  the free list with its transfer length reset, marks the display out of sync exactly when a
  transfer of a living, bound device failed, and schedules the flush exactly when a transfer
  succeeded and no other ticket is in flight or held.
\<close>

theorem completion_returns_ticket:
  assumes "pool_inv (t # H) s" "tickets s t = Some urb"
  shows "\<exists>s'. on_display_transfer_finished t s = Inr s' \<and> pool_inv H s'
    \<and> free_tickets s' = free_tickets s @ [t] \<and> inflight s' = inflight s
    \<and> tickets s' = (tickets s)(t \<mapsto> urb\<lparr>transfer_buffer_length := factor s * ep_size s\<rparr>)
    \<and> unsync_flag (par (fb s')) =
        (if urb_status urb \<noteq> 0 \<and> is_alive (dv s) \<and> fb_handle (dv s) \<noteq> None then 1
         else unsync_flag (par (fb s)))
    \<and> completion_work (pool s') =
        (completion_work (pool s) \<or> urb_status urb = 0 \<and> inflight s = [] \<and> H = [])"
  by (rule on_display_transfer_finished_ok [OF assms]) blast

theorem completion_returns_ticket_witness:
  "\<exists>s'. on_display_transfer_finished 1 sample_pool = Inr s' \<and> pool_inv [] s'
    \<and> free_tickets s' = [0, 1] \<and> unsync_flag (par (fb s')) = 1 \<and> \<not> completion_work (pool s')"
  using completion_returns_ticket [OF sample_pool_ok,
      of "\<lparr>transfer_buffer = replicate 65024 0, transfer_buffer_length = 12, urb_status = -71\<rparr>"]
  by (auto simp: sample_pool_def sample_pool_dev_def)

text \<open>
  Submitting a held ticket conserves the tickets, whatever the controller answers and whichever
  URBs it completes meanwhile: an accepted ticket leaves the sender, a refused one stays with it,
  the sender's other tickets are untouched, and the attempt is logged with the first
  \<^verbatim>\<open>transfer_buffer_length\<close> bytes of the buffer.
\<close>

theorem submit_conserves_tickets:
  fixes hcd :: hcd
  assumes "pool_inv (t # H) s" "tickets s t = Some urb"
    "transfer_buffer_length urb \<le> RPUSBDISP_MAX_TRANSFER_SIZE"
  shows "\<exists>rc s'. usb_submit_urb hcd t s = Inr (rc, s') \<and> pool_inv (if rc = 0 then H else t # H) s'
    \<and> usb_log s' = usb_log s @
        [\<lparr>xfer_bytes = take (transfer_buffer_length urb) (transfer_buffer urb), xfer_rc = rc\<rparr>]
    \<and> (\<forall>u \<in> set H. tickets s' u = tickets s u) \<and> stable s' = stable s"
  by (rule usb_submit_urb_ok [OF assms, of hcd]) blast

theorem submit_conserves_tickets_witness:
  "\<exists>rc s'. usb_submit_urb (\<lambda>log bytes. \<lparr>reply_rc = 0, reply_status = 0, reply_completed = [(1, -2)]\<rparr>) 1 sample_pool
      = Inr (rc, s') \<and> pool_inv (if rc = 0 then [] else [1]) s'"
proof -
  have t: "tickets sample_pool 1 =
      Some \<lparr>transfer_buffer = replicate 65024 0, transfer_buffer_length = 12, urb_status = -71\<rparr>"
    by (simp add: sample_pool_def)
  have len: "transfer_buffer_length \<lparr>transfer_buffer = replicate 65024 0 :: u8 list,
      transfer_buffer_length = 12, urb_status = -71\<rparr> \<le> RPUSBDISP_MAX_TRANSFER_SIZE"
    by (simp add: conf_defs)
  show ?thesis
    using submit_conserves_tickets [OF sample_pool_ok t len,
      of "\<lambda>log bytes. \<lparr>reply_rc = 0, reply_status = 0, reply_completed = [(1, -2)]\<rparr>"]
    by (elim exE conjE) (intro exI conjI)
qed

end
