(* ===== verification/Byte_Sink.thy ===== *)
theory Byte_Sink
  imports Protocol
begin

text \<open>
  The interface between the image encoders and the packet encoder of
  \<^verbatim>\<open>usbhandlers.c\<close>: a routine that takes a piece of payload, puts it into the packets
  under construction and answers whether to go on. What the encoders rely on is that it does not
  matter how the payload is cut into calls.
\<close>

type_synonym 'e sink = "'e \<Rightarrow> u8 list \<Rightarrow> fault + (bool \<times> 'e)"

text \<open>Going on after a call that answered 1, and stopping with its state after one that answered 0.\<close>

definition continue_if :: "fault + (bool \<times> 'e) \<Rightarrow> ('e \<Rightarrow> fault + (bool \<times> 'e)) \<Rightarrow> fault + (bool \<times> 'e)" where
  "continue_if m f = kbind m (\<lambda>(ok, e). if ok then f e else Inr (False, e))"

lemma continue_if_simps [simp]:
  "continue_if (Inl flt) f = Inl flt"
  "continue_if (Inr (True, e)) f = f e"
  "continue_if (Inr (False, e)) f = Inr (False, e)"
  by (simp_all add: continue_if_def)

lemma continue_if_cong [fundef_cong]:
  "m = m' \<Longrightarrow> (\<And>e. m' = Inr (True, e) \<Longrightarrow> f e = g e) \<Longrightarrow> continue_if m f = continue_if m' g"
  by (cases m') (auto simp: continue_if_def split: prod.splits)

lemma continue_if_Inr [simp]: "continue_if m (\<lambda>e. Inr (True, e)) = m"
  by (cases m) (auto simp: continue_if_def split: prod.split)

lemma continue_if_assoc:
  "continue_if (continue_if m f) g = continue_if m (\<lambda>e. continue_if (f e) g)"
  by (cases m) (auto simp: continue_if_def split: prod.split)

lemma continue_if_eq_True:
  "continue_if m f = Inr (True, e') \<longleftrightarrow> (\<exists>e. m = Inr (True, e) \<and> f e = Inr (True, e'))"
  by (cases m) (auto simp: continue_if_def split: prod.splits if_splits)

locale byte_sink =
  fixes put :: "'e sink"
  assumes put_Nil: "put e [] = Inr (True, e)"
    and put_append: "put e (xs @ ys) = continue_if (put e xs) (\<lambda>e'. put e' ys)"
begin

lemma put_Cons: "put e (x # xs) = continue_if (put e [x]) (\<lambda>e'. put e' xs)"
  using put_append [of e "[x]" xs] by simp

text \<open>Payload pieces put one after the other until a call answers 0.\<close>

lemma put_concat:
  "put e (concat (xs # xss)) = continue_if (put e xs) (\<lambda>e'. put e' (concat xss))"
  by (simp add: put_append)

text \<open>
  What holds of single bytes holds of whole payloads: an invariant \<open>I\<close> that every byte
  keeps, up to \<open>B\<close> bytes, unless the call stops with \<open>J\<close>.
\<close>

lemma put_invariant:
  assumes byte: "\<And>e b p. I e p \<Longrightarrow> length p < B \<Longrightarrow>
    \<exists>ok e'. put e [b] = Inr (ok, e') \<and> (if ok then I e' (p @ [b]) else J e')"
  shows "I e p \<Longrightarrow> length p + length bs \<le> B \<Longrightarrow>
    \<exists>ok e'. put e bs = Inr (ok, e') \<and> (if ok then I e' (p @ bs) else J e')"
proof (induction bs arbitrary: e p)
  case Nil
  then show ?case by (intro exI [of _ True] exI [of _ e]) (simp add: put_Nil)
next
  case (Cons b bs)
  have "length p < B"
    using Cons.prems(2) by simp
  then obtain ok e' where e': "put e [b] = Inr (ok, e')" "if ok then I e' (p @ [b]) else J e'"
    using byte [OF Cons.prems(1)] by blast
  show ?case
  proof (cases ok)
    case True
    then have "I e' (p @ [b])"
      using e'(2) by simp
    moreover have "length (p @ [b]) + length bs \<le> B"
      using Cons.prems(2) by simp
    ultimately obtain ok' e'' where "put e' bs = Inr (ok', e'')" "if ok' then I e'' ((p @ [b]) @ bs) else J e''"
      using Cons.IH by blast
    then show ?thesis
      using e'(1) True by (intro exI [of _ ok'] exI [of _ e'']) (cases ok', simp_all add: put_Cons [of e b bs])
  next
    case False
    then show ?thesis
      using e' by (intro exI [of _ False] exI [of _ e']) (simp add: put_Cons [of e b bs])
  qed
qed

end

end
