(* ===== verification/Rle_Encoder.thy ===== *)
theory Rle_Encoder
  imports Byte_Sink
begin

text \<open>
  The run-length encoder of \<^verbatim>\<open>usbhandlers.c\<close>, over any sink for its output. A
  pixel is the memory image of its little-endian value. The encoder collects a section of up to
  128 pixels that is either literal or a run of one pixel, and puts each finished section as one
  header byte and its pixel data.
\<close>

subsection \<open>The encoder\<close>

type_synonym pixel_le = "u8 list"

text \<open>
  \<open>encoder_ctx\<close> is the state of the sink. The array \<open>section_data\<close> is not
  initialised by the source; entries that were never written are empty images.
\<close>

record 'e rle_encoder_context =
  encoder_ctx :: 'e
  is_common_section :: bool
  section_size :: nat
  section_data :: "pixel_le list"

definition rle_compress_init :: "'e \<Rightarrow> 'e rle_encoder_context" where
  "rle_compress_init e =
     \<lparr>encoder_ctx = e, is_common_section = False, section_size = 0, section_data = replicate 128 []\<rparr>"

definition rle_put :: "'e sink \<Rightarrow> 'e rle_encoder_context sink" where
  "rle_put put rle_ctx bs =
     kbind (put (encoder_ctx rle_ctx) bs) (\<lambda>(ok, e). Inr (ok, rle_ctx\<lparr>encoder_ctx := e\<rparr>))"

definition section_header :: "bool \<Rightarrow> nat \<Rightarrow> u8" where
  "section_header common n =
     (let h = word_of_nat (n - 1) AND RPUSBDISP_RLE_BLOCKFLAG_SIZE_BIT
      in if common then h OR RPUSBDISP_RLE_BLOCKFLAG_COMMON_BIT else h)"

definition rle_flush_section :: "'e sink \<Rightarrow> 'e rle_encoder_context
    \<Rightarrow> fault + (bool \<times> 'e rle_encoder_context)" where
  "rle_flush_section put rle_ctx =
     (if section_size rle_ctx > unat RPUSBDISP_RLE_BLOCKFLAG_SIZE_BIT + 1 then Inl BugOn
      else if section_size rle_ctx = 0 then Inr (True, rle_ctx)
      else continue_if
        (rle_put put rle_ctx [section_header (is_common_section rle_ctx) (section_size rle_ctx)])
        (\<lambda>c. let section_data_len = (if is_common_section c then 1 else section_size c)
              in if section_data_len > length (section_data c) then Inl OutOfBounds
                 else continue_if (rle_put put c (concat (take section_data_len (section_data c))))
                        (\<lambda>c. Inr (True, c\<lparr>is_common_section := False, section_size := 0\<rparr>))))"

definition set_section :: "nat \<Rightarrow> pixel_le \<Rightarrow> 'e rle_encoder_context \<Rightarrow> 'e rle_encoder_context" where
  "set_section n pixel c = c\<lparr>section_size := n, section_data := (section_data c)[0 := pixel]\<rparr>"

definition rle_compress_n_encode :: "'e sink \<Rightarrow> pixel_le \<Rightarrow> 'e rle_encoder_context
    \<Rightarrow> fault + (bool \<times> 'e rle_encoder_context)" where
  "rle_compress_n_encode put pixel rle_ctx =
     (if section_size rle_ctx > length (section_data rle_ctx) then Inl OutOfBounds
      else if is_common_section rle_ctx then
        if section_size rle_ctx = 0 then Inl BugOn
        else if pixel \<noteq> section_data rle_ctx ! 0 then
          continue_if (rle_flush_section put rle_ctx) (\<lambda>c. Inr (True, set_section 1 pixel c))
        else if section_size rle_ctx = unat RPUSBDISP_RLE_BLOCKFLAG_SIZE_BIT + 1 then
          continue_if (rle_flush_section put rle_ctx) (\<lambda>c. Inr (True, set_section 1 pixel c))
        else Inr (True, rle_ctx\<lparr>section_size := section_size rle_ctx + 1\<rparr>)
      else if section_size rle_ctx \<noteq> 0
          \<and> pixel = section_data rle_ctx ! (section_size rle_ctx - 1) then
        (let c = rle_ctx\<lparr>section_size := section_size rle_ctx - 1\<rparr>
         in continue_if (if section_size c \<noteq> 0 then rle_flush_section put c else Inr (True, c))
              (\<lambda>c. Inr (True, (set_section 2 pixel c)\<lparr>is_common_section := True\<rparr>)))
      else
        continue_if
          (if section_size rle_ctx = unat RPUSBDISP_RLE_BLOCKFLAG_SIZE_BIT + 1
           then rle_flush_section put rle_ctx else Inr (True, rle_ctx))
          (\<lambda>c. if section_size c < length (section_data c)
                then Inr (True, c\<lparr>section_data := (section_data c)[section_size c := pixel],
                                  section_size := section_size c + 1\<rparr>)
                else Inl OutOfBounds))"

text \<open>The pixels of an image one after the other, until a call answers 0.\<close>

fun rle_encode_pixels :: "'e sink \<Rightarrow> pixel_le list \<Rightarrow> 'e rle_encoder_context
    \<Rightarrow> fault + (bool \<times> 'e rle_encoder_context)" where
  "rle_encode_pixels put [] c = Inr (True, c)"
| "rle_encode_pixels put (px # pxs) c =
     continue_if (rle_compress_n_encode put px c) (rle_encode_pixels put pxs)"

subsection \<open>Sections as data\<close>

datatype rle_section = Literal "pixel_le list" | Common pixel_le nat

definition section_bytes :: "rle_section \<Rightarrow> u8 list" where
  "section_bytes sec = (case sec of
     Literal pxs \<Rightarrow> if pxs = [] then [] else section_header False (length pxs) # concat pxs
   | Common px n \<Rightarrow> section_header True n # px)"

fun section_pixels :: "rle_section \<Rightarrow> pixel_le list" where
  "section_pixels (Literal pxs) = pxs"
| "section_pixels (Common px n) = replicate n px"

text \<open>What a pixel finishes, and the section it leaves open.\<close>

fun next_section :: "pixel_le \<Rightarrow> rle_section \<Rightarrow> rle_section \<times> rle_section" where
  "next_section px (Common q n) =
     (if px \<noteq> q \<or> n = 128 then (Common q n, Literal [px]) else (Literal [], Common q (n + 1)))"
| "next_section px (Literal pxs) =
     (if pxs \<noteq> [] \<and> last pxs = px then (Literal (butlast pxs), Common px 2)
      else if length pxs = 128 then (Literal pxs, Literal [px])
      else (Literal [], Literal (pxs @ [px])))"

fun sections :: "rle_section \<Rightarrow> pixel_le list \<Rightarrow> rle_section list" where
  "sections sec [] = [sec]"
| "sections sec (px # pxs) = (case next_section px sec of (out, sec') \<Rightarrow> out # sections sec' pxs)"

definition rle_bytes :: "pixel_le list \<Rightarrow> u8 list" where
  "rle_bytes pxs = concat (map section_bytes (sections (Literal []) pxs))"

fun wf_section :: "rle_section \<Rightarrow> bool" where
  "wf_section (Literal pxs) = (length pxs \<le> 128)"
| "wf_section (Common px n) = (2 \<le> n \<and> n \<le> 128)"

lemma next_section_wf:
  "wf_section sec \<Longrightarrow> next_section px sec = (out, sec') \<Longrightarrow> wf_section out \<and> wf_section sec'"
  by (cases sec) (auto split: if_splits)

lemma sections_wf: "wf_section sec \<Longrightarrow> \<forall>s \<in> set (sections sec pxs). wf_section s"
proof (induction pxs arbitrary: sec)
  case (Cons px pxs)
  obtain out sec' where "next_section px sec = (out, sec')"
    by (cases "next_section px sec")
  then show ?case
    using Cons next_section_wf [of sec px out sec'] by auto
qed simp

text \<open>No pixel is lost, repeated or moved.\<close>

lemma next_section_pixels:
  "next_section px sec = (out, sec') \<Longrightarrow>
   section_pixels out @ section_pixels sec' = section_pixels sec @ [px]"
proof (cases sec)
  case (Literal pxs)
  assume step: "next_section px sec = (out, sec')"
  have "pxs = butlast pxs @ [px]" if "pxs \<noteq> [] \<and> last pxs = px"
    using that append_butlast_last_id by metis
  with step Literal show ?thesis
    by (auto split: if_splits simp: numeral_2_eq_2) 
next
  case (Common q n)
  assume "next_section px sec = (out, sec')"
  with Common show ?thesis
    by (auto split: if_splits simp: replicate_append_same)
qed

lemma sections_pixels:
  "concat (map section_pixels (sections sec pxs)) = section_pixels sec @ pxs"
proof (induction pxs arbitrary: sec)
  case (Cons px pxs)
  obtain out sec' where "next_section px sec = (out, sec')"
    by (cases "next_section px sec")
  then show ?case
    using Cons.IH [of sec'] next_section_pixels [of px sec out sec'] by simp
qed simp

subsection \<open>The size of the output\<close>

text \<open>
  After \<open>k\<close> pixels, the bytes put so far are bounded by what the finished sections
  take; a run pays for the header of the literal section before it.
\<close>

fun size_bound :: "nat \<Rightarrow> rle_section \<Rightarrow> nat" where
  "size_bound k (Literal pxs) = 2 * (k - length pxs) + (k - length pxs) div 128"
| "size_bound k (Common px n) = 2 * (k - n) + (k - n) div 128 + 1"

lemma length_concat_2: "\<forall>px \<in> set pxs. length px = 2 \<Longrightarrow> length (concat pxs) = 2 * length pxs"
  by (induction pxs) simp_all

lemma length_section_bytes:
  assumes "\<forall>px \<in> set (section_pixels sec). length px = 2" "wf_section sec"
  shows "length (section_bytes sec) = (case sec of
    Literal pxs \<Rightarrow> if pxs = [] then 0 else 1 + 2 * length pxs | Common px n \<Rightarrow> 3)"
  using assms by (cases sec) (auto simp: section_bytes_def length_concat_2)

lemma next_section_size:
  assumes two: "\<forall>px \<in> set (section_pixels sec). length px = 2"
    and wf: "wf_section sec" and k: "length (section_pixels sec) \<le> k"
    and step: "next_section px sec = (out, sec')"
  shows "size_bound k sec + length (section_bytes out) \<le> size_bound (k + 1) sec'"
proof (cases sec)
  case (Common q n)
  have "k - n + n = k" "2 \<le> n" "length q = 2"
    using Common wf k two by auto
  moreover from this have "(k - n) div 128 \<le> k div 128"
    by (intro div_le_mono) simp
  ultimately show ?thesis
    using Common step by (auto simp: section_bytes_def split: if_splits)
next
  case (Literal pxs)
  let ?l = "length pxs"
  have l: "?l \<le> k" "?l \<le> 128"
    using Literal wf k by auto
  consider "pxs \<noteq> []" "last pxs = px" | "\<not> (pxs \<noteq> [] \<and> last pxs = px)" "?l = 128"
    | "\<not> (pxs \<noteq> [] \<and> last pxs = px)" "?l \<noteq> 128" by blast
  then show ?thesis
  proof cases
    case 1
    then have out: "out = Literal (butlast pxs)" "sec' = Common px 2"
      using step Literal by auto
    have "\<forall>px \<in> set (butlast pxs). length px = 2"
      using two Literal in_set_butlastD by fastforce
    then have "length (section_bytes out) \<le> 1 + 2 * (?l - 1)"
      using out by (auto simp: section_bytes_def length_concat_2)
    moreover have "(k - ?l) div 128 \<le> (k - 1) div 128"
      using 1(1) by (intro div_le_mono diff_le_mono2) (simp add: Suc_leI)
    moreover have "2 * (k - ?l) + 2 * (?l - 1) = 2 * (k - 1)"
      using 1(1) l(1) by (cases pxs) auto
    ultimately show ?thesis
      using Literal out l(1) by simp
  next
    case 2
    then have out: "out = Literal pxs" "sec' = Literal [px]"
      using step Literal by auto
    have "length (section_bytes out) = 257"
      using two Literal out 2(2) by (auto simp: section_bytes_def length_concat_2)
    moreover have "k div 128 = (k - 128) div 128 + 1"
      using 2(2) l(1) by (simp add: le_div_geq)
    ultimately show ?thesis
      using Literal out 2(2) l(1) by simp
  next
    case 3
    then have out: "out = Literal []" "sec' = Literal (pxs @ [px])"
      using step Literal by auto
    then show ?thesis
      using Literal by (simp add: section_bytes_def)
  qed
qed

lemma sections_size:
  assumes "\<forall>px \<in> set (section_pixels sec) \<union> set pxs. length px = 2" "wf_section sec"
    "length (section_pixels sec) \<le> k"
  shows "size_bound k sec + length (concat (map section_bytes (sections sec pxs)))
    \<le> 2 * (k + length pxs) + (k + length pxs + 127) div 128"
  using assms
proof (induction pxs arbitrary: sec k)
  case Nil
  then have bytes: "length (section_bytes sec) = (case sec of
    Literal pxs \<Rightarrow> if pxs = [] then 0 else 1 + 2 * length pxs | Common px n \<Rightarrow> 3)"
    by (intro length_section_bytes) simp_all
  show ?case
  proof (cases sec)
    case (Literal pxs)
    have "k div 128 \<le> (k + 127) div 128"
      by (intro div_le_mono) simp
    moreover have "(k - length pxs) div 128 + 1 \<le> (k + 127) div 128" if "pxs \<noteq> []"
    proof -
      have "(k - length pxs) div 128 + 1 = (k - length pxs + 128) div 128" by simp
      also have "\<dots> \<le> (k + 127) div 128"
        using that Nil.prems(3) Literal by (intro div_le_mono) (cases pxs; simp)
      finally show ?thesis .
    qed
    ultimately show ?thesis
      using bytes Literal Nil.prems(3) by auto
  next
    case (Common q n)
    have "(k - n) div 128 \<le> (k + 127) div 128"
      by (intro div_le_mono) simp
    then show ?thesis
      using bytes Common Nil.prems(2,3) by auto
  qed
next
  case (Cons px pxs)
  obtain out sec' where step: "next_section px sec = (out, sec')"
    by (cases "next_section px sec")
  note pixels = next_section_pixels [OF step]
  have two': "\<forall>x \<in> set (section_pixels sec') \<union> set pxs. length x = 2"
  proof -
    have "set (section_pixels sec') \<subseteq> set (section_pixels sec @ [px])"
      by (subst pixels [symmetric]) simp
    then show ?thesis using Cons.prems(1) by auto
  qed
  have k': "length (section_pixels sec') \<le> k + 1"
    using arg_cong [OF pixels, of length] Cons.prems(3) by simp
  have "size_bound k sec + length (section_bytes out) \<le> size_bound (k + 1) sec'"
    using next_section_size [OF _ Cons.prems(2,3) step] Cons.prems(1) by simp
  with Cons.IH [OF two' _ k'] next_section_wf [OF Cons.prems(2) step] step show ?case
    by simp
qed

lemma length_rle_bytes:
  assumes "\<forall>px \<in> set pxs. length px = 2"
  shows "length (rle_bytes pxs) \<le> 2 * length pxs + (length pxs + 127) div 128"
  using sections_size [of "Literal []" pxs 0] assms by (simp add: rle_bytes_def)

text \<open>The bound is tight: an image without two equal neighbours takes exactly that much.\<close>

lemma sections_size_distinct:
  assumes "\<forall>px \<in> set (qs @ pxs). length px = 2" "distinct_adj (qs @ pxs)" "length qs \<le> 128"
  shows "length (concat (map section_bytes (sections (Literal qs) pxs)))
    = 2 * (length qs + length pxs) + (length qs + length pxs + 127) div 128"
  using assms
proof (induction pxs arbitrary: qs)
  case Nil
  then show ?case
    by (cases "qs = []") (auto simp: section_bytes_def length_concat_2 Suc_le_eq div_if)
next
  case (Cons px pxs)
  have "\<not> (qs \<noteq> [] \<and> last qs = px)"
    using Cons.prems(2) by (auto simp: distinct_adj_append_iff)
  then have step: "next_section px (Literal qs) =
      (if length qs = 128 then (Literal qs, Literal [px]) else (Literal [], Literal (qs @ [px])))"
    by auto
  show ?case
  proof (cases "length qs = 128")
    case True
    have "distinct_adj ([px] @ pxs)"
      using Cons.prems(2) by (simp add: distinct_adj_append_iff)
    then have "length (concat (map section_bytes (sections (Literal [px]) pxs)))
        = 2 * (1 + length pxs) + (1 + length pxs + 127) div 128"
      using Cons.IH [of "[px]"] Cons.prems(1) by simp
    moreover have "length (section_bytes (Literal qs)) = 257"
      using True Cons.prems(1) by (auto simp: section_bytes_def length_concat_2)
    ultimately show ?thesis
      unfolding sections.simps step using True by simp
  next
    case False
    then show ?thesis
      unfolding sections.simps step using Cons.IH [of "qs @ [px]"] Cons.prems by (simp add: section_bytes_def)
  qed
qed

lemma length_rle_bytes_distinct:
  assumes "\<forall>px \<in> set pxs. length px = 2" "distinct_adj pxs"
  shows "length (rle_bytes pxs) = 2 * length pxs + (length pxs + 127) div 128"
  using sections_size_distinct [of "[]" pxs] assms by (simp add: rle_bytes_def)

subsection \<open>Decoding\<close>

text \<open>The receiver's reading of the stream, as the protocol describes it.\<close>

fun rle_decode :: "nat \<Rightarrow> u8 list \<Rightarrow> pixel_le list" where
  "rle_decode 0 bs = []"
| "rle_decode (Suc fuel) [] = []"
| "rle_decode (Suc fuel) (h # bs) =
     (let n = unat (h AND RPUSBDISP_RLE_BLOCKFLAG_SIZE_BIT) + 1
      in if h AND RPUSBDISP_RLE_BLOCKFLAG_COMMON_BIT \<noteq> 0
         then replicate n (take 2 bs) @ rle_decode fuel (drop 2 bs)
         else map (\<lambda>i. [bs ! (2 * i), bs ! (2 * i + 1)]) [0..<n] @ rle_decode fuel (drop (2 * n) bs))"

lemma section_header_bits:
  assumes "1 \<le> n" "n \<le> 128"
  shows "unat (section_header c n AND RPUSBDISP_RLE_BLOCKFLAG_SIZE_BIT) + 1 = n"
    and "section_header c n AND RPUSBDISP_RLE_BLOCKFLAG_COMMON_BIT \<noteq> 0 \<longleftrightarrow> c"
proof -
  obtain m where m: "n - 1 = m" "n = Suc m" "m < 128"
    using assms by (cases n) auto
  define w :: u8 where "w = word_of_nat (n - 1)"
  have mask: "x AND 0x7f = take_bit 7 x" for x :: u8
    using take_bit_eq_mask [of 7 x] by (simp add: mask_eq_exp_minus_1)
  have "take_bit 7 w = w"
    unfolding w_def m(1) using m(3) by (simp only: take_bit_of_nat) (simp add: take_bit_nat_eq_self)
  then have w: "w AND 0x7f = w" "(w OR 0x80) AND 0x7f = w"
    by (simp_all add: mask bit.conj_disj_distrib2)
  have header: "section_header c n = (if c then w OR 0x80 else w)"
    unfolding section_header_def Let_def w_def [symmetric] RPUSBDISP_RLE_BLOCKFLAG_SIZE_BIT_def
      RPUSBDISP_RLE_BLOCKFLAG_COMMON_BIT_def w(1) ..
  have "unat w = n - 1"
    unfolding w_def m(1) using m(3) by (simp add: unat_of_nat)
  then show "unat (section_header c n AND RPUSBDISP_RLE_BLOCKFLAG_SIZE_BIT) + 1 = n"
    using assms w by (simp add: header RPUSBDISP_RLE_BLOCKFLAG_SIZE_BIT_def)
  have "(w AND 0x7f) AND 0x80 = w AND (0x7f AND 0x80)"
    by (simp only: and.assoc)
  then have "w AND 0x80 = 0"
    using w(1) by simp
  then show "section_header c n AND RPUSBDISP_RLE_BLOCKFLAG_COMMON_BIT \<noteq> 0 \<longleftrightarrow> c"
    by (simp add: header RPUSBDISP_RLE_BLOCKFLAG_COMMON_BIT_def bit.conj_disj_distrib2)
qed

lemma pixels_of_concat:
  assumes "\<forall>px \<in> set pxs. length px = 2"
  shows "map (\<lambda>i. [(concat pxs @ bs) ! (2 * i), (concat pxs @ bs) ! (2 * i + 1)]) [0..<length pxs] = pxs"
  using assms
proof (induction pxs)
  case (Cons px pxs)
  obtain a b where px: "px = [a, b]"
    using Cons.prems by (cases px; cases "tl px") auto
  have "map (\<lambda>i. [(concat pxs @ bs) ! (2 * i), (concat pxs @ bs) ! (2 * i + 1)]) [0..<length pxs] = pxs"
    using Cons by simp
  moreover have "[0..<length (px # pxs)] = 0 # map Suc [0..<length pxs]"
    by (simp add: upt_conv_Cons map_Suc_upt del: upt_Suc)
  ultimately show ?case
    by (simp only:) (simp add: px comp_def)
qed simp

text \<open>The sections a receiver reads back: any size the header can hold.\<close>

fun decodable :: "rle_section \<Rightarrow> bool" where
  "decodable (Literal pxs) = (length pxs \<le> 128)"
| "decodable (Common px n) = (1 \<le> n \<and> n \<le> 128)"

lemma wf_decodable: "wf_section sec \<Longrightarrow> decodable sec"
  by (cases sec) simp_all

lemma rle_decode_section:
  assumes "decodable sec" "\<forall>px \<in> set (section_pixels sec). length px = 2" "section_bytes sec \<noteq> []"
  shows "rle_decode (Suc fuel) (section_bytes sec @ bs) = section_pixels sec @ rle_decode fuel bs"
proof (cases sec)
  case (Literal pxs)
  then have n: "1 \<le> length pxs" "length pxs \<le> 128" "pxs \<noteq> []"
    using assms(1,3) by (auto simp: section_bytes_def Suc_le_eq)
  then show ?thesis
    using assms(2) Literal section_header_bits [OF n(1,2), of False] n(3) pixels_of_concat [of pxs bs]
    by (simp add: section_bytes_def Let_def length_concat_2)
next
  case (Common px n)
  then have n: "1 \<le> n" "n \<le> 128"
    using assms(1) by auto
  then show ?thesis
    using assms(1,2) Common section_header_bits [OF n, of True]
    by (simp add: section_bytes_def Let_def)
qed

lemma rle_decode_sections:
  assumes "\<forall>s \<in> set secs. decodable s \<and> (\<forall>px \<in> set (section_pixels s). length px = 2)"
    "length (concat (map section_bytes secs)) \<le> fuel"
  shows "rle_decode fuel (concat (map section_bytes secs)) = concat (map section_pixels secs)"
  using assms
proof (induction secs arbitrary: fuel)
  case Nil
  then show ?case by (cases fuel) simp_all
next
  case (Cons sec secs)
  show ?case
  proof (cases "section_bytes sec = []")
    case True
    then have "section_pixels sec = []"
      by (cases sec) (auto simp: section_bytes_def split: if_splits)
    then show ?thesis using True Cons by simp
  next
    case False
    then obtain f where f: "fuel = Suc f" "length (concat (map section_bytes secs)) \<le> f"
      using Cons.prems(2) by (cases fuel; cases "section_bytes sec") auto
    show ?thesis
      using rle_decode_section [OF _ _ False, of f] Cons f by simp
  qed
qed

text \<open>Decoding the encoder's stream gives the image back.\<close>

lemma rle_round_trip:
  assumes "\<forall>px \<in> set pxs. length px = 2" "length (rle_bytes pxs) \<le> fuel"
  shows "rle_decode fuel (rle_bytes pxs) = pxs"
proof -
  have pixels: "concat (map section_pixels (sections (Literal []) pxs)) = pxs"
    by (simp add: sections_pixels)
  have "\<forall>s \<in> set (sections (Literal []) pxs). \<forall>px \<in> set (section_pixels s). length px = 2"
  proof (intro ballI)
    fix s px assume "s \<in> set (sections (Literal []) pxs)" "px \<in> set (section_pixels s)"
    then have "px \<in> set (concat (map section_pixels (sections (Literal []) pxs)))"
      by auto
    then show "length px = 2"
      unfolding pixels using assms(1) by blast
  qed
  then show ?thesis
    using rle_decode_sections [of "sections (Literal []) pxs" fuel] sections_wf [of "Literal []" pxs]
      assms(2) pixels by (simp add: rle_bytes_def wf_decodable)
qed

subsection \<open>The encoder puts exactly that stream\<close>

text \<open>The encoder's context holds the open section.\<close>

definition rle_open :: "'e rle_encoder_context \<Rightarrow> rle_section \<Rightarrow> bool" where
  "rle_open c sec \<longleftrightarrow> length (section_data c) = 128 \<and>
     (case sec of
        Literal pxs \<Rightarrow> \<not> is_common_section c \<and> section_size c = length pxs \<and> length pxs \<le> 128
          \<and> take (length pxs) (section_data c) = pxs
      | Common px n \<Rightarrow> is_common_section c \<and> section_size c = n \<and> 2 \<le> n \<and> n \<le> 128
          \<and> section_data c ! 0 = px)"

text \<open>
  A result that is what putting \<open>bs\<close> gives, with the section \<open>sec\<close> open when the
  sink goes on.
\<close>

definition rle_run :: "'e sink \<Rightarrow> 'e rle_encoder_context \<Rightarrow> u8 list \<Rightarrow> rle_section
    \<Rightarrow> fault + (bool \<times> 'e rle_encoder_context) \<Rightarrow> bool" where
  "rle_run put c bs sec r \<longleftrightarrow>
     (case put (encoder_ctx c) bs of
        Inl flt \<Rightarrow> r = Inl flt
      | Inr (ok, e) \<Rightarrow> \<exists>c'. r = Inr (ok, c') \<and> encoder_ctx c' = e \<and> (ok \<longrightarrow> rle_open c' sec))"

context byte_sink
begin

lemma rle_run_now:
  "encoder_ctx c' = encoder_ctx c \<Longrightarrow> rle_open c' sec \<Longrightarrow> rle_run put c [] sec (Inr (True, c'))"
  by (simp add: rle_run_def put_Nil)

lemma rle_run_seq:
  assumes r: "rle_run put c bs1 sec1 r"
    and f: "\<And>c'. rle_open c' sec1 \<Longrightarrow> rle_run put c' bs2 sec2 (f c')"
  shows "rle_run put c (bs1 @ bs2) sec2 (continue_if r f)"
proof (cases "put (encoder_ctx c) bs1")
  case (Inl flt)
  then show ?thesis
    using r by (simp add: rle_run_def put_append)
next
  case (Inr x)
  obtain ok e where x: "x = (ok, e)" by (cases x)
  obtain c' where c': "r = Inr (ok, c')" "encoder_ctx c' = e" "ok \<longrightarrow> rle_open c' sec1"
    using r Inr x by (auto simp: rle_run_def)
  show ?thesis
  proof (cases ok)
    case True
    then show ?thesis
      using f [of c'] c' Inr x by (simp add: rle_run_def put_append)
  next
    case False
    then show ?thesis
      using c' Inr x by (simp add: rle_run_def put_append)
  qed
qed

lemma rle_put_run:
  assumes "rle_open c sec"
  shows "rle_run put c bs sec (rle_put put c bs)"
proof -
  have "rle_open (c\<lparr>encoder_ctx := e\<rparr>) sec" for e
    using assms by (simp add: rle_open_def split: rle_section.splits)
  then show ?thesis
    by (cases "put (encoder_ctx c) bs") (auto simp: rle_run_def rle_put_def)
qed

lemma rle_flush_section_run:
  assumes c: "rle_open c sec"
  shows "rle_run put c (section_bytes sec) (Literal []) (rle_flush_section put c)"
proof (cases "section_size c = 0")
  case True
  then have "sec = Literal []"
    using c by (auto simp: rle_open_def split: rle_section.splits)
  then show ?thesis
    using True c by (simp add: rle_flush_section_def section_bytes_def rle_run_now)
next
  case False
  let ?n = "if is_common_section c then 1 else section_size c"
  let ?hd = "[section_header (is_common_section c) (section_size c)]"
  have bytes: "section_bytes sec = ?hd @ concat (take ?n (section_data c)) @ []"
    using c False by (cases "section_data c")
      (auto simp: rle_open_def section_bytes_def split: rle_section.splits)
  have size: "section_size c \<le> unat RPUSBDISP_RLE_BLOCKFLAG_SIZE_BIT + 1"
    using c by (auto simp: rle_open_def RPUSBDISP_RLE_BLOCKFLAG_SIZE_BIT_def split: rle_section.splits)
  have same: "is_common_section c' = is_common_section c \<and> section_size c' = section_size c
      \<and> take ?n (section_data c') = take ?n (section_data c) \<and> ?n \<le> length (section_data c')"
    if "rle_open c' sec" for c'
    using that c by (cases "section_data c"; cases "section_data c'")
      (auto simp: rle_open_def split: rle_section.splits)
  let ?reset = "\<lambda>c'. Inr (True, c'\<lparr>is_common_section := False, section_size := 0\<rparr>)"
  define rest where "rest = (\<lambda>c'. let section_data_len = (if is_common_section c' then 1 else section_size c')
    in if section_data_len > length (section_data c') then Inl OutOfBounds
       else continue_if (rle_put put c' (concat (take section_data_len (section_data c')))) ?reset)"
  have "rle_run put c' (concat (take ?n (section_data c)) @ []) (Literal []) (rest c')"
    if c': "rle_open c' sec" for c'
  proof -
    have rest: "rest c' = continue_if (rle_put put c' (concat (take ?n (section_data c)))) ?reset"
    proof -
      have "(if is_common_section c' then 1 else section_size c') = ?n"
        using same [OF c'] by simp
      then show ?thesis
        unfolding rest_def Let_def using same [OF c'] by (simp only: not_less [symmetric] if_False)
    qed
    have "rle_run put d [] (Literal []) (?reset d)" if "rle_open d sec" for d
      using that by (intro rle_run_now) (simp_all add: rle_open_def)
    then show ?thesis
      unfolding rest by (rule rle_run_seq [OF rle_put_run [OF c']])
  qed
  then have "rle_run put c (?hd @ concat (take ?n (section_data c)) @ []) (Literal [])
      (continue_if (rle_put put c ?hd) rest)"
    by (rule rle_run_seq [OF rle_put_run [OF c]])
  moreover have "rle_flush_section put c = continue_if (rle_put put c ?hd) rest"
    using False size by (simp add: rle_flush_section_def rest_def)
  ultimately show ?thesis
    by (simp only: bytes)
qed

text \<open>Flushing and opening a new section.\<close>

lemma rle_flush_then:
  assumes "rle_open c sec" "\<And>c'. rle_open c' (Literal []) \<Longrightarrow> rle_open (f c') sec' \<and> encoder_ctx (f c') = encoder_ctx c'"
  shows "rle_run put c (section_bytes sec) sec' (continue_if (rle_flush_section put c) (\<lambda>c'. Inr (True, f c')))"
  using rle_run_seq [OF rle_flush_section_run [OF assms(1)], of "[]" sec' "\<lambda>c'. Inr (True, f c')"]
    assms(2) rle_run_now by simp

lemma rle_compress_n_encode_run:
  assumes c: "rle_open c sec" and step: "next_section px sec = (out, sec')"
  shows "rle_run put c (section_bytes out) sec' (rle_compress_n_encode put px c)"
proof -
  have size: "\<not> section_size c > length (section_data c)"
    and len: "length (section_data c) = 128"
    using c by (auto simp: rle_open_def split: rle_section.splits)
  have set1: "rle_open (set_section 1 px c') (Literal [px]) \<and> encoder_ctx (set_section 1 px c') = encoder_ctx c'"
    if "rle_open c' (Literal [])" for c' :: "'a rle_encoder_context"
    using that by (cases "section_data c'") (auto simp: rle_open_def set_section_def)
  have max: "unat RPUSBDISP_RLE_BLOCKFLAG_SIZE_BIT + 1 = 128"
    by (simp add: RPUSBDISP_RLE_BLOCKFLAG_SIZE_BIT_def)
  show ?thesis
  proof (cases sec)
    case (Common q n)
    then have fields: "is_common_section c" "section_size c = n" "2 \<le> n" "n \<le> 128" "section_data c ! 0 = q"
      using c by (auto simp: rle_open_def)
    show ?thesis
    proof (cases "px \<noteq> q \<or> n = 128")
      case True
      then have "rle_compress_n_encode put px c =
          continue_if (rle_flush_section put c) (\<lambda>c. Inr (True, set_section 1 px c))"
        using fields size unfolding rle_compress_n_encode_def max by auto
      then show ?thesis
        using rle_flush_then [OF c set1] True step Common by simp
    next
      case False
      then have "rle_compress_n_encode put px c = Inr (True, c\<lparr>section_size := section_size c + 1\<rparr>)"
        using fields size unfolding rle_compress_n_encode_def max by auto
      then show ?thesis
        using False step Common fields len by (auto intro!: rle_run_now simp: section_bytes_def rle_open_def)
    qed
  next
    case (Literal pxs)
    then have fields: "\<not> is_common_section c" "section_size c = length pxs" "length pxs \<le> 128"
      "take (length pxs) (section_data c) = pxs"
      using c by (auto simp: rle_open_def)
    have last: "section_data c ! (length pxs - 1) = last pxs" if "pxs \<noteq> []"
      using that fields(4) by (metis diff_less last_conv_nth length_greater_0_conv nth_take zero_less_one)
    show ?thesis
    proof (cases "pxs \<noteq> [] \<and> last pxs = px")
      case True
      define d where "d = c\<lparr>section_size := length pxs - 1\<rparr>"
      have "take (length pxs - 1) (section_data c) = butlast pxs"
        unfolding butlast_conv_take using fields(4) by (metis diff_le_self min.absorb1 take_take)
      then have d: "rle_open d (Literal (butlast pxs))"
        using fields len by (simp add: rle_open_def d_def)
      have set2: "rle_open ((set_section 2 px c')\<lparr>is_common_section := True\<rparr>) (Common px 2)
          \<and> encoder_ctx ((set_section 2 px c')\<lparr>is_common_section := True\<rparr>) = encoder_ctx c'"
        if "rle_open c' (Literal [])" for c' :: "'a rle_encoder_context"
        using that by (cases "section_data c'") (auto simp: rle_open_def set_section_def)
      have "rle_compress_n_encode put px c = continue_if (rle_flush_section put d)
          (\<lambda>c. Inr (True, (set_section 2 px c)\<lparr>is_common_section := True\<rparr>))"
        using fields size True last
        by (auto simp: rle_compress_n_encode_def d_def Let_def rle_flush_section_def)
      moreover have "out = Literal (butlast pxs)" "sec' = Common px 2" "encoder_ctx d = encoder_ctx c"
        using True step Literal by (auto simp: d_def)
      ultimately show ?thesis
        using rle_flush_then [OF d set2] by (simp add: rle_run_def)
    next
      case False
      have add: "rle_run put c' [] (Literal (qs @ [px]))
          (if section_size c' < length (section_data c')
           then Inr (True, c'\<lparr>section_data := (section_data c')[section_size c' := px],
                             section_size := section_size c' + 1\<rparr>)
           else Inl OutOfBounds)"
        if "rle_open c' (Literal qs)" "length qs < 128" for c' qs
        using that by (auto intro!: rle_run_now simp: rle_open_def take_Suc_conv_app_nth)
      have differs: "\<not> (section_size c \<noteq> 0 \<and> px = section_data c ! (section_size c - 1))"
        using fields(2) False last by (cases "pxs = []") auto
      have run: "rle_compress_n_encode put px c = continue_if
          (if length pxs = 128 then rle_flush_section put c else Inr (True, c))
          (\<lambda>c. if section_size c < length (section_data c)
                then Inr (True, c\<lparr>section_data := (section_data c)[section_size c := px],
                                  section_size := section_size c + 1\<rparr>)
                else Inl OutOfBounds)"
        unfolding rle_compress_n_encode_def max by (simp only: differs [unfolded fields(2)] size [unfolded fields(2)] fields(1,2) if_False)
      show ?thesis
      proof (cases "length pxs = 128")
        case True
        then have full: "(if length pxs = 128 then rle_flush_section put c else Inr (True, c))
            = rle_flush_section put c"
          by simp
        have "rle_run put c (section_bytes (Literal pxs) @ []) (Literal ([] @ [px]))
            (rle_compress_n_encode put px c)"
          unfolding run full by (rule rle_run_seq [OF rle_flush_section_run add]) (use c Literal in auto)
        moreover have "out = Literal pxs" "sec' = Literal [px]"
          using True False step Literal by (auto split: if_splits)
        ultimately show ?thesis by simp
      next
        case no: False
        then have "out = Literal []" "sec' = Literal (pxs @ [px])"
          using False step Literal by (auto split: if_splits)
        then show ?thesis
          unfolding run using no add [of c pxs] c Literal fields(3) by (simp add: section_bytes_def)
      qed
    qed
  qed
qed

lemma rle_encode_pixels_run:
  assumes "rle_open c sec"
  shows "rle_run put c (concat (map section_bytes (butlast (sections sec pxs)))) (last (sections sec pxs))
    (rle_encode_pixels put pxs c)"
  using assms
proof (induction pxs arbitrary: c sec)
  case Nil
  then show ?case
    by (simp add: rle_run_now)
next
  case (Cons px pxs)
  obtain out sec1 where step: "next_section px sec = (out, sec1)"
    by (cases "next_section px sec")
  have "sections sec1 pxs \<noteq> []"
    by (cases pxs) (simp_all split: prod.split)
  then show ?case
    using rle_run_seq [OF rle_compress_n_encode_run [OF Cons.prems step] Cons.IH] step by simp
qed

text \<open>An image from the initialisation of the encoder to its last flush.\<close>

lemma rle_image_run:
  "rle_run put (rle_compress_init e) (rle_bytes pxs) (Literal [])
     (continue_if (rle_encode_pixels put pxs (rle_compress_init e)) (rle_flush_section put))"
proof -
  let ?secs = "sections (Literal []) pxs"
  have "?secs \<noteq> []"
    by (cases pxs) (simp_all split: prod.split)
  then have "concat (map section_bytes (butlast ?secs)) @ section_bytes (last ?secs) = rle_bytes pxs"
    unfolding rle_bytes_def by (cases ?secs rule: rev_cases) simp_all
  moreover have "rle_open (rle_compress_init e) (Literal [])"
    by (simp add: rle_open_def rle_compress_init_def)
  ultimately show ?thesis
    using rle_run_seq [OF rle_encode_pixels_run rle_flush_section_run] by metis
qed

end

subsection \<open>The encoder on its own\<close>

text \<open>A sink that collects the stream.\<close>

definition collect :: "u8 list sink" where
  "collect out bs = Inr (True, out @ bs)"

interpretation collector: byte_sink collect
  by unfold_locales (simp_all add: collect_def)

lemma collected_image:
  "\<exists>c. continue_if (rle_encode_pixels collect pxs (rle_compress_init [])) (rle_flush_section collect) = Inr (True, c)
     \<and> encoder_ctx c = rle_bytes pxs"
  using collector.rle_image_run [of "[]" pxs] by (auto simp: rle_run_def collect_def rle_compress_init_def)

text \<open>
  C6. The run-length encoder loses nothing: fed with any image, pixel by pixel, and flushed, it
  never hits one of its \<^verbatim>\<open>BUG_ON\<close>s or leaves its section array, and expanding the
  blocks of its output gives the image back.
\<close>

theorem rle_encoder_round_trip:
  assumes "\<forall>px \<in> set pxs. length px = 2"
  shows "\<exists>c. continue_if (rle_encode_pixels collect pxs (rle_compress_init [])) (rle_flush_section collect)
      = Inr (True, c)
    \<and> rle_decode (length (encoder_ctx c)) (encoder_ctx c) = pxs"
  using collected_image [of pxs] rle_round_trip [OF assms order.refl] by auto

theorem rle_encoder_round_trip_witness:
  "\<exists>c. continue_if (rle_encode_pixels collect [[1, 2], [1, 2], [3, 4]] (rle_compress_init []))
      (rle_flush_section collect) = Inr (True, c)
    \<and> rle_decode (length (encoder_ctx c)) (encoder_ctx c) = [[1, 2], [1, 2], [3, 4]]"
  using rle_encoder_round_trip [of "[[1, 2], [1, 2], [3, 4]]"] by simp

text \<open>
  C7. The run-length encoder never needs more than the estimate of
  \<^verbatim>\<open>_bitblt_encoder_init\<close>: two bytes per pixel and one byte for every 128 pixels or
  part of 128.
\<close>

theorem rle_encoder_size:
  assumes "\<forall>px \<in> set pxs. length px = 2"
  shows "\<exists>c. continue_if (rle_encode_pixels collect pxs (rle_compress_init [])) (rle_flush_section collect)
      = Inr (True, c)
    \<and> length (encoder_ctx c) \<le> 2 * length pxs + (length pxs + 127) div 128"
  using collected_image [of pxs] length_rle_bytes [OF assms] by auto

theorem rle_encoder_size_witness:
  "\<exists>c. continue_if (rle_encode_pixels collect [[1, 2], [3, 4]] (rle_compress_init []))
      (rle_flush_section collect) = Inr (True, c)
    \<and> length (encoder_ctx c) \<le> 5"
  using rle_encoder_size [of "[[1, 2], [3, 4]]"] by simp

end
