(* ===== verification/Bitblt_Encoder.thy ===== *)
theory Bitblt_Encoder
  imports Ticket_Pool Rle_Encoder
begin

text \<open>
  The bitblt packet encoder of \<^verbatim>\<open>usbhandlers.c\<close>: it buys the tickets an image may need,
  writes the command header, cuts the payload into endpoint-sized packets that each start with a
  command byte, submits every URB it fills and at the end the last one, and gives unused tickets
  back.
\<close>

subsection \<open>The encoder\<close>

text \<open>
  \<open>current_node\<close> is the rest of the bundle's list from the current node on, so it is empty
  where the C pointer has come back to the list head; \<open>urbbuffer\<close> is the pointer's offset in
  the current ticket's transfer buffer.
\<close>

record bitblt_encoding_context_t =
  enc_ticket :: tid
  current_node :: "tid list"
  encoded_pos :: nat
  packet_pos :: nat
  urbbuffer :: nat
  rlemode :: bool

type_synonym enc = "bitblt_encoding_context_t \<times> st"

text \<open>A store into a ticket's transfer buffer.\<close>

definition urb_write :: "tid \<Rightarrow> nat \<Rightarrow> u8 list \<Rightarrow> st \<Rightarrow> fault + st" where
  "urb_write t off bs s =
     (case tickets s t of
        None \<Rightarrow> Inl UseAfterFree
      | Some urb \<Rightarrow>
          if off + length bs > length (transfer_buffer urb) then Inl OutOfBounds
          else Inr (s\<lparr>tickets := (tickets s)
                 (t \<mapsto> urb\<lparr>transfer_buffer := buf_put off bs (transfer_buffer urb)\<rparr>)\<rparr>))"

text \<open>How many tickets an image of \<open>image_size\<close> bytes may need.\<close>

definition required_tickets :: "nat \<Rightarrow> nat \<Rightarrow> nat \<Rightarrow> bool \<Rightarrow> fault + nat" where
  "required_tickets ep fac image_size rle =
     (let payload = sz (9 + image_size);
          payload = (if rle then sz (payload + sz (image_size div 2 + 127) div 128) else payload);
          effective = sz_sub ep 1
      in if effective = 0 then Inl DivByZero
         else
           (let packet_count = sz_sub (sz (payload + effective)) 1 div effective
            in if fac = 0 then Inl DivByZero
               else Inr (sz_sub (sz (packet_count + fac)) 1 div fac)))"

text \<open>The answer is the initialised context, or nothing where the function returns 0.\<close>

definition bitblt_encoder_init :: "nat \<Rightarrow> bool \<Rightarrow> st \<Rightarrow> fault + (bitblt_encoding_context_t option \<times> st)" where
  "bitblt_encoder_init image_size rle s =
     kbind (required_tickets (ep_size s) (factor s) image_size rle) (\<lambda>required_tickets_count.
       if required_tickets_count > RPUSBDISP_MAX_TRANSFER_TICKETS_COUNT then Inr (None, s)
       else kbind (sell_disp_tickets required_tickets_count s) (\<lambda>(ans, ticket_list, s1).
         if ans = 0 then Inr (None, s1)
         else (case ticket_list of
                 [] \<Rightarrow> Inl ListCorrupt
               | t # _ \<Rightarrow> Inr (Some \<lparr>enc_ticket = t, current_node = ticket_list, encoded_pos = 0,
                                    packet_pos = 0, urbbuffer = 0, rlemode = rle\<rparr>, s1))))"

definition bitblt_cmd :: "bitblt_encoding_context_t \<Rightarrow> u8" where
  "bitblt_cmd ctx = (if rlemode ctx then RPUSBDISP_DISPCMD_BITBLT_RLE else RPUSBDISP_DISPCMD_BITBLT)"

definition bitblt_command :: "bitblt_encoding_context_t \<Rightarrow> int \<Rightarrow> int \<Rightarrow> int \<Rightarrow> int \<Rightarrow> bool
    \<Rightarrow> rpusbdisp_disp_bitblt_packet_t" where
  "bitblt_command ctx x y right' bottom' clear_dirty =
     (let flag = bitblt_cmd ctx OR RPUSBDISP_CMD_FLAG_START;
          flag = (if clear_dirty then flag OR RPUSBDISP_CMD_FLAG_CLEARDITY else flag)
      in \<lparr>bitblt_header = \<lparr>cmd_flag = flag\<rparr>, bitblt_x = word_of_int x, bitblt_y = word_of_int y,
          bitblt_width = word_of_int (right' + 1 - x), bitblt_height = word_of_int (bottom' + 1 - y),
          bitblt_operation = RPUSBDISP_OPERATION_COPY\<rparr>)"

definition bitblt_encode_command_header :: "int \<Rightarrow> int \<Rightarrow> int \<Rightarrow> int \<Rightarrow> bool \<Rightarrow> enc \<Rightarrow> fault + enc" where
  "bitblt_encode_command_header x y right' bottom' clear_dirty = (\<lambda>(ctx, s).
     kbind (urb_write (enc_ticket ctx) (urbbuffer ctx)
              (bitblt_bytes (bitblt_command ctx x y right' bottom' clear_dirty)) s)
       (\<lambda>s1. Inr (ctx\<lparr>encoded_pos := 10\<rparr>, s1)))"

fun return_nodes :: "tid list \<Rightarrow> st \<Rightarrow> st" where
  "return_nodes [] s = s"
| "return_nodes (ticket # nodes) s = return_nodes nodes (snd (return_disp_tickets ticket s))"

definition bitblt_encoder_cleanup :: "enc \<Rightarrow> st" where
  "bitblt_encoder_cleanup = (\<lambda>(ctx, s). return_nodes (current_node ctx) s)"

definition set_transfer_length :: "tid \<Rightarrow> nat \<Rightarrow> st \<Rightarrow> fault + st" where
  "set_transfer_length t n s =
     (case tickets s t of
        None \<Rightarrow> Inl UseAfterFree
      | Some urb \<Rightarrow> Inr (s\<lparr>tickets := (tickets s)(t \<mapsto> urb\<lparr>transfer_buffer_length := n\<rparr>)\<rparr>))"

text \<open>
  Submit the current ticket after moving on to the next node; a refused ticket goes through the
  completion handler. The answer says whether the submission was accepted.
\<close>

definition submit_current :: "hcd \<Rightarrow> enc \<Rightarrow> fault + (bool \<times> enc)" where
  "submit_current hcd = (\<lambda>(ctx, s).
     case current_node ctx of
       [] \<Rightarrow> Inl ListCorrupt
     | _ # nodes \<Rightarrow>
         (let ctx1 = ctx\<lparr>current_node := nodes\<rparr>
          in kbind (usb_submit_urb hcd (enc_ticket ctx) s) (\<lambda>(rc, s1).
               if rc \<noteq> 0
               then kbind (on_display_transfer_finished (enc_ticket ctx) s1) (\<lambda>s2. Inr (False, ctx1, s2))
               else Inr (True, ctx1, s1))))"

definition bitblt_encoder_flush :: "hcd \<Rightarrow> enc \<Rightarrow> fault + (bool \<times> st)" where
  "bitblt_encoder_flush hcd = (\<lambda>(ctx, s).
     (let transfer_size = sz (packet_pos ctx * ep_size s + encoded_pos ctx)
      in if transfer_size \<noteq> 0
         then kbind (set_transfer_length (enc_ticket ctx) transfer_size s) (\<lambda>s1.
                kbind (submit_current hcd (ctx, s1)) (\<lambda>(ok, ctx2, s2).
                  if ok then Inr (True, bitblt_encoder_cleanup (ctx2, s2)) else Inr (False, s2)))
         else Inr (True, bitblt_encoder_cleanup (ctx, s))))"

text \<open>What the transfer loop does when the current packet is full.\<close>

definition encode_packet_header :: "enc \<Rightarrow> fault + (bool \<times> enc)" where
  "encode_packet_header = (\<lambda>(ctx, s).
     kbind (urb_write (enc_ticket ctx) (urbbuffer ctx) [bitblt_cmd ctx] s)
       (\<lambda>s1. Inr (True, ctx\<lparr>encoded_pos := 1\<rparr>, s1)))"

definition next_packet :: "hcd \<Rightarrow> enc \<Rightarrow> fault + (bool \<times> enc)" where
  "next_packet hcd = (\<lambda>(ctx, s).
     (let ctx1 = ctx\<lparr>urbbuffer := urbbuffer ctx + ep_size s, packet_pos := packet_pos ctx + 1\<rparr>
      in if packet_pos ctx1 \<ge> factor s
         then continue_if (submit_current hcd (ctx1, s)) (\<lambda>(ctx2, s2).
                case current_node ctx2 of
                  [] \<Rightarrow> Inl BugOn
                | t # _ \<Rightarrow> encode_packet_header
                             (ctx2\<lparr>packet_pos := 0, enc_ticket := t, urbbuffer := 0\<rparr>, s2))
         else encode_packet_header (ctx1, s)))"

lemma submit_current_nodes:
  "submit_current hcd (ctx, s) = Inr (ok, ctx', s') \<Longrightarrow>
   \<exists>t. current_node ctx = t # current_node ctx' \<and> ctx' = ctx\<lparr>current_node := current_node ctx'\<rparr>"
  by (cases "current_node ctx") (auto simp: submit_current_def fault_simps Let_def split: if_splits)

lemma urb_write_dv: "urb_write t off bs s = Inr s' \<Longrightarrow> dv s' = dv s"
  by (auto simp: urb_write_def split: option.splits if_splits)

lemma encode_packet_header_keeps:
  "encode_packet_header (ctx, s) = Inr (ok, ctx', s') \<Longrightarrow>
   ok \<and> ctx' = ctx\<lparr>encoded_pos := 1\<rparr> \<and> dv s' = dv s"
  by (auto simp: encode_packet_header_def fault_simps dest: urb_write_dv)

text \<open>Starting a packet uses up a packet slot of the ticket, or a ticket.\<close>

lemma next_packet_progress:
  assumes "next_packet hcd (ctx, s) = Inr (True, ctx', s')"
  shows "length (current_node ctx') < length (current_node ctx) \<or>
    length (current_node ctx') = length (current_node ctx) \<and>
    factor s' - packet_pos ctx' < factor s - packet_pos ctx"
proof (cases "factor s \<le> packet_pos ctx + 1")
  case True
  then obtain ctx2 s2 where sub: "submit_current hcd
      (ctx\<lparr>urbbuffer := urbbuffer ctx + ep_size s, packet_pos := packet_pos ctx + 1\<rparr>, s) = Inr (True, ctx2, s2)"
    and hd: "(case current_node ctx2 of [] \<Rightarrow> Inl BugOn | t # _ \<Rightarrow> encode_packet_header
      (ctx2\<lparr>packet_pos := 0, enc_ticket := t, urbbuffer := 0\<rparr>, s2)) = Inr (True, ctx', s')"
    using assms by (auto simp: next_packet_def Let_def continue_if_eq_True)
  obtain t where "current_node ctx = t # current_node ctx2"
    using submit_current_nodes [OF sub] by auto
  moreover have "current_node ctx' = current_node ctx2"
    using hd by (cases "current_node ctx2") (auto dest: encode_packet_header_keeps)
  ultimately show ?thesis by simp
next
  case False
  then show ?thesis
    using assms by (auto simp: next_packet_def Let_def dest!: encode_packet_header_keeps)
qed

text \<open>
  One round of the transfer loop, on the bytes that are left: it copies what fits into the current
  packet and, when the packet is full, starts the next one. The answer holds the bytes left over.
\<close>

definition transfer_round :: "hcd \<Rightarrow> enc \<Rightarrow> u8 list \<Rightarrow> fault + (bool \<times> enc \<times> u8 list)" where
  "transfer_round hcd = (\<lambda>(ctx, s) payload.
     (let buffer_avail_length = sz_sub (ep_size s) (encoded_pos ctx);
          size_to_copy = (if length payload > buffer_avail_length then buffer_avail_length
                          else length payload)
      in kbind (urb_write (enc_ticket ctx) (urbbuffer ctx + encoded_pos ctx)
                  (take size_to_copy payload) s) (\<lambda>s1.
           let ctx1 = ctx\<lparr>encoded_pos := encoded_pos ctx + size_to_copy\<rparr>
           in kbind (if buffer_avail_length = size_to_copy then next_packet hcd (ctx1, s1)
                     else Inr (True, ctx1, s1))
                (\<lambda>(ok, e). Inr (ok, e, drop size_to_copy payload)))))"

lemma transfer_round_progress:
  assumes "transfer_round hcd e payload = Inr (True, e', rest)" and "payload \<noteq> []"
  shows "((e', rest), (e, payload)) \<in> measures [\<lambda>(e, payload). length payload,
    \<lambda>((ctx, s), payload). length (current_node ctx), \<lambda>((ctx, s), payload). factor s - packet_pos ctx]"
proof -
  obtain ctx s where e: "e = (ctx, s)" by (cases e)
  define avail where "avail = sz_sub (ep_size s) (encoded_pos ctx)"
  define n where "n = (if length payload > avail then avail else length payload)"
  obtain s1 where written: "urb_write (enc_ticket ctx) (urbbuffer ctx + encoded_pos ctx) (take n payload) s = Inr s1"
    and next_or_same: "(if avail = n then next_packet hcd (ctx\<lparr>encoded_pos := encoded_pos ctx + n\<rparr>, s1)
      else Inr (True, ctx\<lparr>encoded_pos := encoded_pos ctx + n\<rparr>, s1)) = Inr (True, e')"
    and rest: "rest = drop n payload"
    using assms(1) unfolding transfer_round_def e prod.case Let_def
    unfolding avail_def [symmetric] n_def [symmetric]
    by (auto simp: fault_simps split: prod.splits)
  show ?thesis
  proof (cases "avail = n")
    case True
    then have "next_packet hcd (ctx\<lparr>encoded_pos := encoded_pos ctx + n\<rparr>, s1) = Inr (True, fst e', snd e')"
      using next_or_same by simp
    from next_packet_progress [OF this] show ?thesis
      using urb_write_dv [OF written] by (cases e') (auto simp: e rest)
  next
    case False
    then have "n = length payload"
      by (simp add: n_def split: if_splits)
    then show ?thesis
      using assms(2) by (simp add: e rest)
  qed
qed

function bitblt_encode_n_transfer_data :: "hcd \<Rightarrow> enc \<Rightarrow> u8 list \<Rightarrow> fault + (bool \<times> enc)" where
  "bitblt_encode_n_transfer_data hcd e payload =
     (if payload = [] then Inr (True, e)
      else (case transfer_round hcd e payload of
              Inl flt \<Rightarrow> Inl flt
            | Inr (ok, e', rest) \<Rightarrow>
                if ok then bitblt_encode_n_transfer_data hcd e' rest else Inr (False, e')))"
  by pat_completeness auto
termination
  by (relation "inv_image (measures [\<lambda>(e, payload). length payload,
      \<lambda>((ctx, s), payload). length (current_node ctx), \<lambda>((ctx, s), payload). factor s - packet_pos ctx]) snd")
     (auto dest: transfer_round_progress simp del: in_measures)

declare bitblt_encode_n_transfer_data.simps [simp del]

subsection \<open>Payload may be cut anywhere\<close>

lemma sz_sub_add: "k \<le> sz_sub a b \<Longrightarrow> sz_sub a (b + k) = sz_sub a b - k"
  by (auto simp: sz_sub_def split: if_splits)

lemma urb_write_append:
  "urb_write t off (xs @ ys) s = kbind (urb_write t off xs s) (urb_write t (off + length xs) ys)"
  by (auto simp: urb_write_def buf_put_append split: option.splits)

text \<open>The round, with its two quantities spelled out.\<close>

lemma transfer_round_less:
  assumes "length xs < sz_sub (ep_size s) (encoded_pos ctx)"
  shows "transfer_round hcd (ctx, s) xs =
    kbind (urb_write (enc_ticket ctx) (urbbuffer ctx + encoded_pos ctx) xs s)
      (\<lambda>s1. Inr (True, (ctx\<lparr>encoded_pos := encoded_pos ctx + length xs\<rparr>, s1), []))"
  using assms by (simp add: transfer_round_def Let_def)

lemma transfer_round_ge:
  assumes "sz_sub (ep_size s) (encoded_pos ctx) \<le> length xs"
  shows "transfer_round hcd (ctx, s) xs =
    (let n = sz_sub (ep_size s) (encoded_pos ctx) in
     kbind (urb_write (enc_ticket ctx) (urbbuffer ctx + encoded_pos ctx) (take n xs) s)
      (\<lambda>s1. kbind (next_packet hcd (ctx\<lparr>encoded_pos := encoded_pos ctx + n\<rparr>, s1))
         (\<lambda>(ok, e). Inr (ok, e, drop n xs))))"
  using assms by (simp add: transfer_round_def Let_def)

lemma transfer_data_Nil [simp]: "bitblt_encode_n_transfer_data hcd e [] = Inr (True, e)"
  by (subst bitblt_encode_n_transfer_data.simps) simp

lemma transfer_data_round:
  "xs \<noteq> [] \<Longrightarrow> bitblt_encode_n_transfer_data hcd e xs =
     kbind (transfer_round hcd e xs)
       (\<lambda>(ok, e', rest). if ok then bitblt_encode_n_transfer_data hcd e' rest else Inr (False, e'))"
  by (subst bitblt_encode_n_transfer_data.simps) (auto simp: kbind_def split: sum.split)

lemma transfer_data_append:
  "bitblt_encode_n_transfer_data hcd e (xs @ ys) =
     continue_if (bitblt_encode_n_transfer_data hcd e xs) (\<lambda>e'. bitblt_encode_n_transfer_data hcd e' ys)"
proof (induction hcd e xs rule: bitblt_encode_n_transfer_data.induct)
  case (1 hcd e xs)
  obtain ctx s where e: "e = (ctx, s)" by (cases e)
  define avail where "avail = sz_sub (ep_size s) (encoded_pos ctx)"
  consider "xs = []" | "ys = []" | "xs \<noteq> []" "ys \<noteq> []" "length xs < avail" | "xs \<noteq> []" "avail \<le> length xs"
    by linarith
  then show ?case
  proof cases
    case 3
    let ?t = "enc_ticket ctx" and ?off = "urbbuffer ctx + encoded_pos ctx"
    let ?ctx1 = "ctx\<lparr>encoded_pos := encoded_pos ctx + length xs\<rparr>"
    have "bitblt_encode_n_transfer_data hcd e xs =
        kbind (urb_write ?t ?off xs s) (\<lambda>s1. Inr (True, ?ctx1, s1))"
      using 3 by (simp add: e transfer_data_round transfer_round_less avail_def [symmetric] kbind_assoc)
    moreover have "transfer_round hcd e (xs @ ys) =
        kbind (urb_write ?t ?off xs s) (\<lambda>s1. transfer_round hcd (?ctx1, s1) ys)"
    proof (cases "urb_write ?t ?off xs s")
      case (Inr s1)
      have avail1: "sz_sub (ep_size s1) (encoded_pos ctx + length xs) = avail - length xs"
        using 3(3) urb_write_dv [OF Inr] sz_sub_add [of "length xs" "ep_size s" "encoded_pos ctx"]
        by (simp add: avail_def)
      show ?thesis
      proof (cases "avail \<le> length xs + length ys")
        case True
        then have "avail - length xs \<le> length ys" by arith
        then show ?thesis
          using 3(3) True Inr avail1
          by (simp add: e transfer_round_ge avail_def [symmetric] Let_def urb_write_append kbind_assoc add.assoc)
      next
        case False
        then have "length ys < avail - length xs" by arith
        then show ?thesis
          using 3(3) False Inr avail1
          by (simp add: e transfer_round_less avail_def [symmetric] urb_write_append kbind_assoc add.assoc)
      qed
    qed (use 3(3) in \<open>auto simp: transfer_round_def e Let_def avail_def [symmetric] urb_write_append\<close>)
    ultimately show ?thesis
      using 3(1,2) by (cases "urb_write ?t ?off xs s") (simp_all add: transfer_data_round)
  next
    case 4
    have round: "transfer_round hcd e (xs @ ys) =
        kbind (transfer_round hcd e xs) (\<lambda>(ok, e', rest). Inr (ok, e', rest @ ys))"
      using 4(2)
      by (simp add: e transfer_round_ge avail_def [symmetric] Let_def kbind_assoc case_prod_unfold)
    show ?thesis
    proof (cases "transfer_round hcd e xs")
      case (Inr r)
      obtain ok e' rest where r: "r = (ok, e', rest)" by (cases r)
      show ?thesis
        using 4(1) 1 [OF 4(1) Inr [unfolded r] refl refl] round
        by (cases ok) (simp_all add: transfer_data_round Inr r)
    qed (use 4(1) round in \<open>simp add: transfer_data_round\<close>)
  qed simp_all
qed

interpretation packets: byte_sink "bitblt_encode_n_transfer_data hcd" for hcd
  by unfold_locales (simp_all add: transfer_data_append)

end
