(* ===== verification/Packet_Stream.thy ===== *)
theory Packet_Stream
  imports Protocol
begin

text \<open>
  What the packet encoder must put on the wire, as pure functions: a stream that starts with a
  command header and carries one header byte at every multiple of the endpoint size, and the
  receiver's view of the transfers, which are cut into packets of the endpoint size whose first
  byte is a header.
\<close>

subsection \<open>Framing\<close>

definition frame_byte :: "nat \<Rightarrow> u8 \<Rightarrow> u8 list \<Rightarrow> u8 \<Rightarrow> u8 list" where
  "frame_byte ep cmd out b = out @ b # (if (length out + 1) mod ep = 0 then [cmd] else [])"

definition framed :: "nat \<Rightarrow> u8 \<Rightarrow> u8 list \<Rightarrow> u8 list \<Rightarrow> u8 list" where
  "framed ep cmd hdr payload = foldl (frame_byte ep cmd) hdr payload"

lemma framed_Nil [simp]: "framed ep cmd hdr [] = hdr"
  by (simp add: framed_def)

lemma framed_snoc [simp]: "framed ep cmd hdr (p @ [b]) = frame_byte ep cmd (framed ep cmd hdr p) b"
  by (simp add: framed_def)

subsection \<open>The receiver's view\<close>

definition packet_headers :: "nat \<Rightarrow> u8 list \<Rightarrow> u8 list" where
  "packet_headers ep bytes = nths bytes {i. i mod ep = 0}"

definition packet_payload :: "nat \<Rightarrow> u8 list \<Rightarrow> u8 list" where
  "packet_payload ep bytes = nths bytes {i. i mod ep \<noteq> 0}"

lemma nths_snoc: "nths (xs @ [x]) A = nths xs A @ (if length xs \<in> A then [x] else [])"
  by (simp add: nths_append)

lemma packet_append:
  assumes "length xs mod ep = 0"
  shows "packet_payload ep (xs @ ys) = packet_payload ep xs @ packet_payload ep ys"
    and "packet_headers ep (xs @ ys) = packet_headers ep xs @ packet_headers ep ys"
proof -
  have "(j + length xs) mod ep = j mod ep" for j
    using assms by (metis add.right_neutral mod_add_right_eq)
  then show "packet_payload ep (xs @ ys) = packet_payload ep xs @ packet_payload ep ys"
    and "packet_headers ep (xs @ ys) = packet_headers ep xs @ packet_headers ep ys"
    by (simp_all add: packet_payload_def packet_headers_def nths_append)
qed

lemma packet_concat:
  assumes "\<forall>u \<in> set us. length u mod ep = 0"
  shows "packet_payload ep (concat us @ v) = concat (map (packet_payload ep) us) @ packet_payload ep v"
    and "packet_headers ep (concat us @ v) = concat (map (packet_headers ep) us) @ packet_headers ep v"
  using assms by (induction us) (simp_all add: packet_append)

subsection \<open>Lengths\<close>

text \<open>
  A stream that ends inside a packet: the header byte of the next packet is written as soon as a
  packet is full.
\<close>

lemma framed_inside:
  assumes "0 < length hdr" "length hdr < ep"
  shows "length (framed ep cmd hdr p) mod ep \<noteq> 0"
proof (induction p rule: rev_induct)
  case Nil
  show ?case using assms by simp
next
  case (snoc b p)
  let ?n = "length (framed ep cmd hdr p)"
  show ?case
  proof (cases "(?n + 1) mod ep = 0")
    case True
    then have "(?n + 2) mod ep = 1 mod ep"
      by (metis add_0 add.assoc mod_add_left_eq one_add_one)
    then show ?thesis
      using True assms by (simp add: frame_byte_def)
  next
    case False
    then show ?thesis by (simp add: frame_byte_def)
  qed
qed

text \<open>
  \<open>q\<close> counts the bytes that are not packet headers. After them the stream holds one
  header per started packet.
\<close>

lemma length_framed:
  assumes "0 < length hdr" "length hdr < ep"
  shows "length (framed ep cmd hdr p) =
    (let q = length hdr - 1 + length p in 1 + q + q div (ep - 1))"
proof (induction p rule: rev_induct)
  case Nil
  obtain k where "length hdr = Suc k" "k < ep - 1"
    using assms by (intro that [of "length hdr - 1"]) arith+
  then show ?case by (simp add: Let_def)
next
  case (snoc b p)
  define q where "q = length hdr - 1 + length p"
  define m where "m = ep - 1"
  have m: "0 < m" "ep = Suc m"
    unfolding m_def using assms by arith+
  have len: "length (framed ep cmd hdr p) = 1 + q + q div m"
    using snoc unfolding Let_def q_def m_def .
  have split: "q = m * (q div m) + q mod m"
    by simp
  have full: "(length (framed ep cmd hdr p) + 1) mod ep = 0 \<longleftrightarrow> Suc (q mod m) = m"
  proof -
    have "length (framed ep cmd hdr p) + 1 = (q mod m + 2) + (q div m) * ep"
      by (subst len, subst split) (simp add: m(2) algebra_simps)
    then have "(length (framed ep cmd hdr p) + 1) mod ep = (q mod m + 2) mod ep"
      by (simp only: mod_mult_self1)
    moreover have "(q mod m + 2) mod ep = 0 \<longleftrightarrow> Suc (q mod m) = m"
    proof (cases "Suc (q mod m) = m")
      case True
      then show ?thesis using m(2) by simp
    next
      case False
      then have "q mod m + 2 < ep"
        using m mod_less_divisor [OF m(1), of q] by linarith
      then show ?thesis using False by simp
    qed
    ultimately show ?thesis by simp
  qed
  have "Suc q div m = (if Suc (q mod m) = m then Suc (q div m) else q div m)"
    by (simp add: div_Suc mod_Suc)
  moreover have "length hdr - 1 + length (p @ [b]) = Suc q"
    by (simp add: q_def)
  ultimately show ?case
    unfolding Let_def m_def [symmetric] using len full by (simp add: frame_byte_def)
qed

subsection \<open>Reading a stream back\<close>

lemma framed_payload:
  assumes "0 < length hdr" "length hdr < ep"
  shows "packet_payload ep (framed ep cmd hdr p) = tl hdr @ p"
proof (induction p rule: rev_induct)
  case Nil
  have "nths hdr {i. i mod ep \<noteq> 0} = tl hdr"
  proof (cases hdr)
    case (Cons h t)
    have "nths t {j. Suc j mod ep \<noteq> 0} = t"
      using assms by (intro nths_all) (auto simp: Cons mod_less)
    then show ?thesis by (simp add: Cons nths_Cons)
  qed (use assms in simp)
  then show ?case by (simp add: packet_payload_def)
next
  case (snoc b p)
  have "length (framed ep cmd hdr p) mod ep \<noteq> 0"
    by (rule framed_inside [OF assms])
  then show ?case
    using snoc by (simp add: frame_byte_def packet_payload_def nths_append nths_Cons)
qed

lemma framed_headers:
  assumes "0 < length hdr" "length hdr < ep"
  shows "\<exists>n. packet_headers ep (framed ep cmd hdr p) = hd hdr # replicate n cmd"
proof (induction p rule: rev_induct)
  case Nil
  have "nths hdr {i. i mod ep = 0} = [hd hdr]"
  proof (cases hdr)
    case (Cons h t)
    have "set (nths t {j. Suc j mod ep = 0}) = {}"
      using assms by (auto simp: set_nths Cons mod_less)
    then have "nths t {j. Suc j mod ep = 0} = []"
      by (simp only: set_empty)
    then show ?thesis by (simp add: Cons nths_Cons)
  qed (use assms in simp)
  then show ?case by (simp add: packet_headers_def exI [of _ 0])
next
  case (snoc b p)
  then obtain n where n: "packet_headers ep (framed ep cmd hdr p) = hd hdr # replicate n cmd" ..
  have "length (framed ep cmd hdr p) mod ep \<noteq> 0"
    by (rule framed_inside [OF assms])
  then have "packet_headers ep (framed ep cmd hdr (p @ [b]))
      = hd hdr # replicate n cmd @ (if (length (framed ep cmd hdr p) + 1) mod ep = 0 then [cmd] else [])"
    using n by (simp add: frame_byte_def packet_headers_def nths_append nths_Cons)
  then show ?case
    by (intro exI [of _ "if (length (framed ep cmd hdr p) + 1) mod ep = 0 then Suc n else n"])
       (simp add: replicate_append_same)
qed

end
