(* ===== verification/Bitblt_Correct.thy ===== *)
theory Bitblt_Correct
  imports Bitblt_Encoder Packet_Stream
begin

text \<open>
  Correctness of the bitblt packet encoder: while payload is put, the bytes of the URBs submitted
  so far followed by the filled part of the current one are the framed stream of
  \<^verbatim>\<open>Packet_Stream\<close>, the tickets stay accounted for, and nothing faults as long
  as the stream is smaller than the tickets bought.
\<close>

subsection \<open>The primitive steps\<close>

lemma urb_write_ok:
  assumes inv: "pool_inv H s" and t: "t \<in> set H" "tickets s t = Some urb"
    and room: "off + length bs \<le> RPUSBDISP_MAX_TRANSFER_SIZE"
  obtains s' where "urb_write t off bs s = Inr s'" "pool_inv H s'" "stable s' = stable s"
    "usb_log s' = usb_log s" "free_tickets s' = free_tickets s" "inflight s' = inflight s"
    "tickets s' = (tickets s)(t \<mapsto> urb\<lparr>transfer_buffer := buf_put off bs (transfer_buffer urb)\<rparr>)"
proof -
  define s' where "s' = s\<lparr>tickets := (tickets s)
    (t \<mapsto> urb\<lparr>transfer_buffer := buf_put off bs (transfer_buffer urb)\<rparr>)\<rparr>"
  have st: "stable s' = stable s"
    by (simp add: s'_def)
  have room': "off + length bs \<le> length (transfer_buffer urb)"
    using room pool_invD(5) [OF inv t(2)] by simp
  have "t \<notin> set (free_tickets s)"
    using inv t(1) by (auto simp: pool_inv_def)
  then have full: "full_length (free_tickets s') s'"
    using pool_invD(8) [OF inv] by (auto simp: full_length_def s'_def)
  have "pool_inv H s'"
  proof (rule pool_inv_rearrange [OF inv _ _ _ _ full st])
    show "dom (tickets s') = dom (tickets s)"
      using t(2) by (auto simp: s'_def)
    fix u urb' assume "tickets s' u = Some urb'"
    then show "length (transfer_buffer urb') = RPUSBDISP_MAX_TRANSFER_SIZE"
      using pool_invD(5) [OF inv, of u] pool_invD(5) [OF inv t(2)] room'
      by (auto simp: s'_def split: if_splits)
  qed (use pool_invD(1) [OF inv] in \<open>simp_all add: s'_def\<close>)
  then show thesis
    using st room' t(2) by (intro that [of s']) (simp_all add: urb_write_def s'_def)
qed

lemma submit_current_ok:
  fixes hcd :: hcd
  assumes inv: "pool_inv (t # ts @ L) s" and full: "full_length ts s"
    and node: "current_node ctx = t # ts" "enc_ticket ctx = t"
    and t: "tickets s t = Some urb" "transfer_buffer_length urb \<le> RPUSBDISP_MAX_TRANSFER_SIZE"
  defines "bytes \<equiv> take (transfer_buffer_length urb) (transfer_buffer urb)"
  defines "rc \<equiv> reply_rc (hcd (usb_log s) bytes)"
  obtains s' where "submit_current hcd (ctx, s) = Inr (rc = 0, ctx\<lparr>current_node := ts\<rparr>, s')"
    "pool_inv (ts @ L) s'" "full_length ts s'" "stable s' = stable s"
    "usb_log s' = usb_log s @ [\<lparr>xfer_bytes = bytes, xfer_rc = rc\<rparr>]"
    "\<And>u. u \<in> set ts \<Longrightarrow> tickets s' u = tickets s u"
proof -
  obtain s1 where s1: "usb_submit_urb hcd t s = Inr (rc, s1)" "stable s1 = stable s"
    "usb_log s1 = usb_log s @ [\<lparr>xfer_bytes = bytes, xfer_rc = rc\<rparr>]"
    "pool_inv (if rc = 0 then ts @ L else t # ts @ L) s1"
    "\<And>u. u \<in> set (ts @ L) \<Longrightarrow> tickets s1 u = tickets s u"
    "rc \<noteq> 0 \<Longrightarrow> tickets s1 t = Some (urb\<lparr>urb_status := reply_status (hcd (usb_log s) bytes)\<rparr>)"
    unfolding rc_def bytes_def by (rule usb_submit_urb_ok [OF inv t, of hcd]) blast
  show thesis
  proof (cases "rc = 0")
    case True
    show thesis
      by (rule that [of s1]) (use True s1 full node full_length_cong [of s1 s ts] in
          \<open>simp_all add: submit_current_def Let_def\<close>)
  next
    case False
    then have inv1: "pool_inv (t # ts @ L) s1"
      using s1(4) by simp
    have tn: "t \<notin> set ts"
      using pool_invD(7) [OF inv] by simp
    obtain s2 where s2: "on_display_transfer_finished t s1 = Inr s2" "pool_inv (ts @ L) s2" "stable s2 = stable s1"
      "usb_log s2 = usb_log s1" "\<And>u. u \<noteq> t \<Longrightarrow> tickets s2 u = tickets s1 u"
      by (rule on_display_transfer_finished_ok [OF inv1 s1(6) [OF False]]) auto
    have same: "tickets s2 u = tickets s u" if "u \<in> set ts" for u
      using that tn s1(5) s2(5) by (cases "u = t") auto
    have "full_length ts s2"
      using full full_length_cong [of s2 s ts] same s2(3) s1(2) by simp
    then show thesis
      by (intro that [of s2]) (use False s1 s2 same node in \<open>simp_all add: submit_current_def Let_def\<close>)
  qed
qed

subsection \<open>The invariant of an image under construction\<close>

definition accepted :: "u8 list \<Rightarrow> usb_xfer" where
  "accepted u = \<lparr>xfer_bytes = u, xfer_rc = 0\<rparr>"

text \<open>
  \<open>N\<close> tickets were bought in the state \<open>s0\<close>, in which \<open>L\<close> were held by
  others, and the payload \<open>p\<close> has been put after the header \<open>hdr\<close>.
\<close>

definition enc_inv :: "tid list \<Rightarrow> u8 list \<Rightarrow> bool \<Rightarrow> nat \<Rightarrow> st \<Rightarrow> enc \<Rightarrow> u8 list \<Rightarrow> bool" where
  "enc_inv L hdr rle N s0 = (\<lambda>(ctx, s) p.
     pool_inv (current_node ctx @ L) s \<and> full_length (current_node ctx) s \<and> stable s = stable s0
   \<and> rlemode ctx = rle \<and> packet_pos ctx < factor s \<and> urbbuffer ctx = packet_pos ctx * ep_size s
   \<and> 0 < encoded_pos ctx \<and> encoded_pos ctx < ep_size s
   \<and> (\<exists>ts urb us. current_node ctx = enc_ticket ctx # ts
       \<and> tickets s (enc_ticket ctx) = Some urb
       \<and> usb_log s = usb_log s0 @ map accepted us
       \<and> (\<forall>u \<in> set us. length u = factor s * ep_size s)
       \<and> length us + length (current_node ctx) = N
       \<and> concat us @ take (packet_pos ctx * ep_size s + encoded_pos ctx) (transfer_buffer urb)
           = framed (ep_size s) (bitblt_cmd ctx) hdr p))"

text \<open>The log of an image of which the controller accepted \<open>us\<close> and refused \<open>u\<close>.\<close>

definition refused_log :: "hcd \<Rightarrow> st \<Rightarrow> u8 list list \<Rightarrow> u8 list \<Rightarrow> st \<Rightarrow> bool" where
  "refused_log hcd s0 us u s \<longleftrightarrow>
     (let before = usb_log s0 @ map accepted us; rc = reply_rc (hcd before u)
      in rc \<noteq> 0 \<and> usb_log s = before @ [\<lparr>xfer_bytes = u, xfer_rc = rc\<rparr>])"

text \<open>After a refused submission: the rest of the bundle is still the sender's.\<close>

definition enc_aborted :: "tid list \<Rightarrow> hcd \<Rightarrow> st \<Rightarrow> enc \<Rightarrow> bool" where
  "enc_aborted L hcd s0 = (\<lambda>(ctx, s).
     pool_inv (current_node ctx @ L) s \<and> full_length (current_node ctx) s \<and> stable s = stable s0
   \<and> (\<exists>us u. refused_log hcd s0 us u s))"

lemma enc_inv_pos:
  assumes "enc_inv L hdr rle N s0 (ctx, s) p"
  shows "packet_pos ctx * ep_size s + encoded_pos ctx < factor s * ep_size s"
    "packet_pos ctx * ep_size s + ep_size s \<le> factor s * ep_size s"
    "factor s * ep_size s \<le> RPUSBDISP_MAX_TRANSFER_SIZE"
proof -
  have "(packet_pos ctx + 1) * ep_size s \<le> factor s * ep_size s"
    using assms by (intro mult_right_mono) (simp_all add: enc_inv_def)
  then show "packet_pos ctx * ep_size s + ep_size s \<le> factor s * ep_size s"
    by simp
  then show "packet_pos ctx * ep_size s + encoded_pos ctx < factor s * ep_size s"
    using assms by (simp add: enc_inv_def)
  show "factor s * ep_size s \<le> RPUSBDISP_MAX_TRANSFER_SIZE"
    using assms pool_invD(6) by (auto simp: enc_inv_def)
qed

text \<open>The stream so far, in terms of the position in the bundle.\<close>

lemma enc_inv_length:
  assumes inv: "enc_inv L hdr rle N s0 (ctx, s) p"
  shows "length (framed (ep_size s) (bitblt_cmd ctx) hdr p) + length (current_node ctx) * (factor s * ep_size s)
    = N * (factor s * ep_size s) + packet_pos ctx * ep_size s + encoded_pos ctx"
proof -
  obtain ts urb us where us: "tickets s (enc_ticket ctx) = Some urb"
      "\<forall>u \<in> set us. length u = factor s * ep_size s" "length us + length (current_node ctx) = N"
      "concat us @ take (packet_pos ctx * ep_size s + encoded_pos ctx) (transfer_buffer urb)
           = framed (ep_size s) (bitblt_cmd ctx) hdr p"
    and "pool_inv (current_node ctx @ L) s"
    using inv by (auto simp: enc_inv_def)
  then have "length (transfer_buffer urb) = RPUSBDISP_MAX_TRANSFER_SIZE"
    using pool_invD(5) by blast
  then have "length (framed (ep_size s) (bitblt_cmd ctx) hdr p)
      = length (concat us) + (packet_pos ctx * ep_size s + encoded_pos ctx)"
    using enc_inv_pos [OF inv] by (subst us(4) [symmetric]) (simp del: length_concat)
  moreover have "length (concat us) = length us * (factor s * ep_size s)"
    using us(2) by (induction us) simp_all
  ultimately show ?thesis
    by (simp add: us(3) [symmetric] add_mult_distrib)
qed

lemma enc_inv_mod:
  assumes inv: "enc_inv L hdr rle N s0 (ctx, s) p"
  shows "length (framed (ep_size s) (bitblt_cmd ctx) hdr p) mod ep_size s = encoded_pos ctx"
proof -
  have "encoded_pos ctx < ep_size s"
    using inv by (simp add: enc_inv_def)
  moreover have "length (framed (ep_size s) (bitblt_cmd ctx) hdr p) mod ep_size s
      = (length (framed (ep_size s) (bitblt_cmd ctx) hdr p)
         + length (current_node ctx) * factor s * ep_size s) mod ep_size s"
    by simp
  moreover have "\<dots> = (N * factor s * ep_size s + packet_pos ctx * ep_size s + encoded_pos ctx) mod ep_size s"
    using enc_inv_length [OF inv] by (simp only: mult.assoc)
  moreover have "\<dots> = (encoded_pos ctx + (N * factor s + packet_pos ctx) * ep_size s) mod ep_size s"
    by (simp only: add_mult_distrib) (simp only: ac_simps)
  ultimately show ?thesis by simp
qed

subsection \<open>One byte\<close>

lemma full_length_urb_write:
  assumes "tickets s' = (tickets s)(t \<mapsto> urb\<lparr>transfer_buffer := buf\<rparr>)" "tickets s t = Some urb"
    "stable s' = stable s"
  shows "full_length ts s' = full_length ts s"
  using assms(1,2) by (auto simp: full_length_def stable_facts [OF assms(3)])

lemma put_byte:
  assumes True: "encoded_pos ctx < ep_size s"
  shows "bitblt_encode_n_transfer_data hcd (ctx, s) [b] =
     kbind (urb_write (enc_ticket ctx) (urbbuffer ctx + encoded_pos ctx) [b] s) (\<lambda>s1.
       if Suc (encoded_pos ctx) = ep_size s
       then next_packet hcd (ctx\<lparr>encoded_pos := Suc (encoded_pos ctx)\<rparr>, s1)
       else Inr (True, ctx\<lparr>encoded_pos := Suc (encoded_pos ctx)\<rparr>, s1))"
proof -
  have avail: "sz_sub (ep_size s) (encoded_pos ctx) = ep_size s - encoded_pos ctx"
    using True by (simp add: sz_sub_def)
  show ?thesis
  proof (cases "Suc (encoded_pos ctx) = ep_size s")
    case last: True
    then have one: "ep_size s - encoded_pos ctx = 1" by arith
    then show ?thesis
      using True last one
      by (simp add: transfer_data_round transfer_round_ge avail Let_def kbind_assoc case_prod_unfold)
         (auto simp: kbind_def case_prod_unfold split: sum.split)
  next
    case False
    then have "1 < ep_size s - encoded_pos ctx"
      using True by arith
    then show ?thesis
      using True False by (simp add: transfer_data_round transfer_round_less avail kbind_assoc)
  qed
qed

lemma take_put_byte:
  "off < length buf \<Longrightarrow> take (Suc off) (buf_put off [b] buf) = take off buf @ [b]"
  using take_buf_put [of off "[b]" buf] by simp

text \<open>The header byte of a further packet, at the start of a packet slot.\<close>

lemma encode_packet_header_ok:
  assumes inv: "pool_inv (t # ts @ L) s" and t: "enc_ticket ctx = t" "tickets s t = Some urb"
    and room: "urbbuffer ctx < RPUSBDISP_MAX_TRANSFER_SIZE"
  obtains s' where "encode_packet_header (ctx, s) = Inr (True, ctx\<lparr>encoded_pos := 1\<rparr>, s')"
    "pool_inv (t # ts @ L) s'" "stable s' = stable s" "usb_log s' = usb_log s"
    "tickets s' = (tickets s)(t \<mapsto>
       urb\<lparr>transfer_buffer := buf_put (urbbuffer ctx) [bitblt_cmd ctx] (transfer_buffer urb)\<rparr>)"
proof -
  obtain s' where s': "urb_write t (urbbuffer ctx) [bitblt_cmd ctx] s = Inr s'"
    "pool_inv (t # ts @ L) s'" "stable s' = stable s" "usb_log s' = usb_log s"
    "tickets s' = (tickets s)(t \<mapsto>
       urb\<lparr>transfer_buffer := buf_put (urbbuffer ctx) [bitblt_cmd ctx] (transfer_buffer urb)\<rparr>)"
    by (rule urb_write_ok [OF inv _ t(2), of "urbbuffer ctx" "[bitblt_cmd ctx]"]) (use room in auto)
  show thesis
    by (rule that [of s']) (use s' t(1) in \<open>simp_all add: encode_packet_header_def\<close>)
qed

lemma bitblt_cmd_cong: "rlemode ctx' = rlemode ctx \<Longrightarrow> bitblt_cmd ctx' = bitblt_cmd ctx"
  by (simp add: bitblt_cmd_def)

text \<open>A full packet that is not the last one of its ticket.\<close>

lemma next_packet_same_ticket:
  assumes inv: "pool_inv (t # ts @ L) s" and full: "full_length (t # ts) s"
    and node: "enc_ticket ctx = t" "tickets s t = Some urb" "current_node ctx = t # ts"
    and pos: "urbbuffer ctx = packet_pos ctx * ep_size s" "Suc (packet_pos ctx) < factor s" "1 < ep_size s"
    and log: "usb_log s = usb_log s0 @ map accepted us" "\<forall>u \<in> set us. length u = factor s * ep_size s"
      "length us + length (current_node ctx) = N"
    and out: "concat us @ take (Suc (packet_pos ctx) * ep_size s) (transfer_buffer urb) = out"
      "framed (ep_size s) (bitblt_cmd ctx) hdr p = out @ [bitblt_cmd ctx]"
    and st: "stable s = stable s0"
  shows "\<exists>e'. next_packet hcd (ctx, s) = Inr (True, e') \<and> enc_inv L hdr (rlemode ctx) N s0 e' p"
proof -
  define ctx1 where "ctx1 = ctx\<lparr>urbbuffer := urbbuffer ctx + ep_size s, packet_pos := packet_pos ctx + 1\<rparr>"
  have "(Suc (packet_pos ctx) + 1) * ep_size s \<le> factor s * ep_size s"
    using pos(2) by (intro mult_right_mono) simp_all
  then have room: "urbbuffer ctx1 < RPUSBDISP_MAX_TRANSFER_SIZE"
    using pos(1,3) pool_invD(6) [OF inv] by (simp add: ctx1_def)
  have t1: "enc_ticket ctx1 = t"
    by (simp add: ctx1_def node)
  obtain s' where s': "encode_packet_header (ctx1, s) = Inr (True, ctx1\<lparr>encoded_pos := 1\<rparr>, s')"
    "pool_inv (t # ts @ L) s'" "stable s' = stable s" "usb_log s' = usb_log s"
    "tickets s' = (tickets s)(t \<mapsto>
       urb\<lparr>transfer_buffer := buf_put (urbbuffer ctx1) [bitblt_cmd ctx1] (transfer_buffer urb)\<rparr>)"
    by (rule encode_packet_header_ok [OF inv t1 node(2) room]) blast
  have eqs: "ep_size s' = ep_size s" "factor s' = factor s"
    using stable_facts [OF s'(3)] by simp_all
  have "next_packet hcd (ctx, s) = Inr (True, ctx1\<lparr>encoded_pos := 1\<rparr>, s')"
    using pos(2) s'(1) by (simp add: next_packet_def ctx1_def Let_def)
  moreover have "enc_inv L hdr (rlemode ctx) N s0 (ctx1\<lparr>encoded_pos := 1\<rparr>, s') p"
  proof -
    have "take (Suc (urbbuffer ctx1)) (buf_put (urbbuffer ctx1) [bitblt_cmd ctx1] (transfer_buffer urb))
        = take (urbbuffer ctx1) (transfer_buffer urb) @ [bitblt_cmd ctx1]"
      using room pool_invD(5) [OF inv node(2)] by (intro take_put_byte) simp
    moreover have "bitblt_cmd (ctx1\<lparr>encoded_pos := 1\<rparr>) = bitblt_cmd ctx" "bitblt_cmd ctx1 = bitblt_cmd ctx"
      by (rule bitblt_cmd_cong, simp add: ctx1_def)+
    moreover have "urbbuffer ctx1 = Suc (packet_pos ctx) * ep_size s"
      by (simp add: ctx1_def pos(1))
    moreover have "full_length (t # ts) s'"
      using full full_length_urb_write [OF s'(5) node(2) s'(3)] by simp
    ultimately show ?thesis
      unfolding enc_inv_def prod.case eqs
      using s'(2-5) node pos log out st by (simp add: ctx1_def) (auto simp: add_ac)
  qed
  ultimately show ?thesis by blast
qed

text \<open>
  A full packet that fills its ticket: the ticket is submitted; if it is refused the image is
  aborted, and if it is accepted and was the last one of the bundle the driver hits its
  \<^verbatim>\<open>BUG_ON\<close>.
\<close>

lemma next_packet_next_ticket:
  fixes hcd :: hcd
  assumes inv: "pool_inv (t # ts @ L) s" and full: "full_length (t # ts) s"
    and node: "enc_ticket ctx = t" "tickets s t = Some urb" "current_node ctx = t # ts"
    and pos: "factor s \<le> Suc (packet_pos ctx)" "1 < ep_size s" "0 < factor s"
    and log: "usb_log s = usb_log s0 @ map accepted us" "\<forall>u \<in> set us. length u = factor s * ep_size s"
      "length us + length (current_node ctx) = N"
    and out: "concat us @ take (factor s * ep_size s) (transfer_buffer urb) = out"
      "framed (ep_size s) (bitblt_cmd ctx) hdr p = out @ [bitblt_cmd ctx]"
    and st: "stable s = stable s0"
  defines "rc \<equiv> reply_rc (hcd (usb_log s) (take (factor s * ep_size s) (transfer_buffer urb)))"
  shows "if rc \<noteq> 0 then \<exists>e'. next_packet hcd (ctx, s) = Inr (False, e') \<and> enc_aborted L hcd s0 e'
    else if ts = [] then next_packet hcd (ctx, s) = Inl BugOn
    else \<exists>e'. next_packet hcd (ctx, s) = Inr (True, e') \<and> enc_inv L hdr (rlemode ctx) N s0 e' p"
proof -
  define ctx1 where "ctx1 = ctx\<lparr>urbbuffer := urbbuffer ctx + ep_size s, packet_pos := packet_pos ctx + 1\<rparr>"
  let ?bytes = "take (factor s * ep_size s) (transfer_buffer urb)"
  have len: "transfer_buffer_length urb = factor s * ep_size s"
    using full node(2) by (simp add: full_length_def)
  have fits: "factor s * ep_size s \<le> RPUSBDISP_MAX_TRANSFER_SIZE"
    by (rule pool_invD(6) [OF inv])
  have full_ts: "full_length ts s"
    using full full_length_Cons by blast
  have node1: "current_node ctx1 = t # ts" "enc_ticket ctx1 = t"
    by (simp_all add: ctx1_def node)
  obtain s1 where s1: "submit_current hcd (ctx1, s) = Inr (rc = 0, ctx1\<lparr>current_node := ts\<rparr>, s1)"
    "pool_inv (ts @ L) s1" "full_length ts s1" "stable s1 = stable s"
    "usb_log s1 = usb_log s @ [\<lparr>xfer_bytes = ?bytes, xfer_rc = rc\<rparr>]"
    "\<And>u. u \<in> set ts \<Longrightarrow> tickets s1 u = tickets s u"
    using submit_current_ok [OF inv full_ts node1 node(2), of hcd] len fits unfolding rc_def by auto
  have np: "next_packet hcd (ctx, s) = continue_if (submit_current hcd (ctx1, s)) (\<lambda>(ctx2, s2).
      case current_node ctx2 of [] \<Rightarrow> Inl BugOn
      | t # _ \<Rightarrow> encode_packet_header (ctx2\<lparr>packet_pos := 0, enc_ticket := t, urbbuffer := 0\<rparr>, s2))"
    using pos(1) by (simp add: next_packet_def ctx1_def Let_def)
  show ?thesis
  proof (cases "rc = 0")
    case False
    have "enc_aborted L hcd s0 (ctx1\<lparr>current_node := ts\<rparr>, s1)"
      using s1(2-5) log(1) st False by (auto simp: enc_aborted_def refused_log_def rc_def Let_def)
    then show ?thesis
      using False by (simp add: np s1(1))
  next
    case True
    show ?thesis
    proof (cases ts)
      case Nil
      then show ?thesis
        using True by (simp add: np s1(1))
    next
      case (Cons t2 ts2)
      define ctx2 where "ctx2 = ctx1\<lparr>current_node := ts, packet_pos := 0, enc_ticket := t2, urbbuffer := 0\<rparr>"
      obtain urb2 where urb2: "tickets s1 t2 = Some urb2"
        using pool_invD(4) [OF s1(2), of t2] Cons by auto
      have eqs1: "ep_size s1 = ep_size s" "factor s1 = factor s"
        using stable_facts [OF s1(4)] by simp_all
      have max: "0 < RPUSBDISP_MAX_TRANSFER_SIZE"
        by (simp add: conf_defs)
      obtain s' where s': "encode_packet_header (ctx2, s1) = Inr (True, ctx2\<lparr>encoded_pos := 1\<rparr>, s')"
        "pool_inv (t2 # ts2 @ L) s'" "stable s' = stable s1" "usb_log s' = usb_log s1"
        "tickets s' = (tickets s1)(t2 \<mapsto>
           urb2\<lparr>transfer_buffer := buf_put 0 [bitblt_cmd ctx2] (transfer_buffer urb2)\<rparr>)"
        using encode_packet_header_ok [OF s1(2) [unfolded Cons append_Cons], of ctx2 urb2] urb2 max
        by (auto simp: ctx2_def)
      have eqs: "ep_size s' = ep_size s" "factor s' = factor s"
        using stable_facts [OF s'(3)] eqs1 by simp_all
      have "next_packet hcd (ctx, s) = Inr (True, ctx2\<lparr>encoded_pos := 1\<rparr>, s')"
        using True Cons s'(1) by (simp add: np s1(1) ctx2_def)
      moreover have "enc_inv L hdr (rlemode ctx) N s0 (ctx2\<lparr>encoded_pos := 1\<rparr>, s') p"
      proof -
        have "take (Suc 0) (buf_put 0 [bitblt_cmd ctx2] (transfer_buffer urb2)) = [bitblt_cmd ctx2]"
          using pool_invD(5) [OF s1(2) urb2] max take_put_byte [of 0 "transfer_buffer urb2"] by simp
        moreover have "bitblt_cmd (ctx2\<lparr>encoded_pos := 1\<rparr>) = bitblt_cmd ctx" "bitblt_cmd ctx2 = bitblt_cmd ctx"
          by (rule bitblt_cmd_cong, simp add: ctx2_def ctx1_def)+
        moreover have "full_length (t2 # ts2) s'"
          using s1(3) full_length_urb_write [OF s'(5) urb2 s'(3)] Cons by simp
        moreover have "length ?bytes = factor s * ep_size s"
          using fits pool_invD(5) [OF inv node(2)] by simp
        ultimately show ?thesis
          unfolding enc_inv_def prod.case eqs
          using s'(2-5) s1(4,5) True Cons node(3) pos log out st
          by (simp add: ctx2_def ctx1_def) (intro exI [of _ "us @ [?bytes]"], simp add: accepted_def)
      qed
      ultimately show ?thesis
        using True Cons by auto
    qed
  qed
qed

text \<open>One byte goes into the stream, or the submission it causes is refused, or it fills the bundle.\<close>

lemma enc_inv_byte:
  assumes inv: "enc_inv L hdr rle N s0 (ctx, s) p"
  shows "(\<exists>e'. bitblt_encode_n_transfer_data hcd (ctx, s) [b] = Inr (True, e') \<and> enc_inv L hdr rle N s0 e' (p @ [b]))
    \<or> (\<exists>e' u. bitblt_encode_n_transfer_data hcd (ctx, s) [b] = Inr (False, e') \<and> enc_aborted L hcd s0 e'
         \<and> reply_rc (hcd (usb_log s) u) \<noteq> 0
         \<and> packet_pos ctx * ep_size s + encoded_pos ctx + 1 = factor s * ep_size s)
    \<or> (bitblt_encode_n_transfer_data hcd (ctx, s) [b] = Inl BugOn
       \<and> length (framed (ep_size s) (bitblt_cmd ctx) hdr p) + 1 = N * (factor s * ep_size s))"
proof -
  let ?put = "bitblt_encode_n_transfer_data hcd (ctx, s) [b]"
  let ?off = "packet_pos ctx * ep_size s + encoded_pos ctx"
  let ?out = "framed (ep_size s) (bitblt_cmd ctx) hdr p"
  define ctx1 where "ctx1 = ctx\<lparr>encoded_pos := Suc (encoded_pos ctx)\<rparr>"
  from inv obtain ts urb us where node: "current_node ctx = enc_ticket ctx # ts"
      "tickets s (enc_ticket ctx) = Some urb"
    and log: "usb_log s = usb_log s0 @ map accepted us" "\<forall>u \<in> set us. length u = factor s * ep_size s"
      "length us + length (current_node ctx) = N"
    and out: "concat us @ take ?off (transfer_buffer urb) = ?out"
    and pinv: "pool_inv (enc_ticket ctx # ts @ L) s" and full: "full_length (enc_ticket ctx # ts) s"
    and st: "stable s = stable s0" and rle: "rlemode ctx = rle"
    and pos: "packet_pos ctx < factor s" "urbbuffer ctx = packet_pos ctx * ep_size s"
      "0 < encoded_pos ctx" "encoded_pos ctx < ep_size s"
    by (auto simp: enc_inv_def)
  note bounds = enc_inv_pos [OF inv]
  obtain s1 where s1: "urb_write (enc_ticket ctx) ?off [b] s = Inr s1" "pool_inv (enc_ticket ctx # ts @ L) s1"
    "stable s1 = stable s" "usb_log s1 = usb_log s"
    "tickets s1 = (tickets s)(enc_ticket ctx \<mapsto> urb\<lparr>transfer_buffer := buf_put ?off [b] (transfer_buffer urb)\<rparr>)"
    by (rule urb_write_ok [OF pinv _ node(2), of ?off "[b]"]) (use bounds in auto)
  define urb1 where "urb1 = urb\<lparr>transfer_buffer := buf_put ?off [b] (transfer_buffer urb)\<rparr>"
  have eqs: "ep_size s1 = ep_size s" "factor s1 = factor s"
    using stable_facts [OF s1(3)] by simp_all
  have full1: "full_length (enc_ticket ctx # ts) s1"
    using full full_length_urb_write [OF s1(5) node(2) s1(3)] by simp
  have node1: "tickets s1 (enc_ticket ctx) = Some urb1" "current_node ctx1 = enc_ticket ctx # ts"
    "enc_ticket ctx1 = enc_ticket ctx"
    by (simp_all add: s1(5) urb1_def ctx1_def node(1))
  have out1: "concat us @ take (Suc ?off) (transfer_buffer urb1) = ?out @ [b]"
    using take_put_byte [of ?off "transfer_buffer urb" b] bounds pool_invD(5) [OF pinv node(2)] out
    by (simp add: urb1_def)
  have put: "?put = (if Suc (encoded_pos ctx) = ep_size s then next_packet hcd (ctx1, s1) else Inr (True, ctx1, s1))"
    using put_byte [OF pos(4), of hcd b] s1(1) by (simp add: pos(2) ctx1_def)
  have cmd1: "bitblt_cmd ctx1 = bitblt_cmd ctx" "rlemode ctx1 = rle"
    by (simp_all add: bitblt_cmd_def ctx1_def rle)
  have "(length ?out + 1) mod ep_size s = Suc (encoded_pos ctx) mod ep_size s"
    using enc_inv_mod [OF inv] by (metis Suc_eq_plus1 mod_Suc_eq)
  then have closes: "(length ?out + 1) mod ep_size s = 0 \<longleftrightarrow> Suc (encoded_pos ctx) = ep_size s"
    using pos(4) by (auto simp: mod_Suc)
  show ?thesis
  proof (cases "Suc (encoded_pos ctx) = ep_size s")
    case False
    have "enc_inv L hdr rle N s0 (ctx1, s1) (p @ [b])"
      unfolding enc_inv_def prod.case eqs cmd1
      using False s1(2-4) full1 node1 node(1) log out1 st rle pos closes
      by (auto simp: ctx1_def frame_byte_def)
    then show ?thesis
      using False put by simp
  next
    case True
    have frame1: "framed (ep_size s1) (bitblt_cmd ctx1) hdr (p @ [b]) = (?out @ [b]) @ [bitblt_cmd ctx1]"
      using True closes by (simp add: frame_byte_def eqs cmd1)
    have end_off: "Suc ?off = Suc (packet_pos ctx) * ep_size s"
      using True by simp
    have log1: "usb_log s1 = usb_log s0 @ map accepted us" "\<forall>u \<in> set us. length u = factor s1 * ep_size s1"
      "length us + length (current_node ctx1) = N"
      using log by (simp_all add: s1(4) eqs ctx1_def)
    have st1: "stable s1 = stable s0"
      by (simp add: s1(3) st)
    have ep: "1 < ep_size s1"
      using True pos(3) eqs by simp
    show ?thesis
    proof (cases "Suc (packet_pos ctx) < factor s")
      case more: True
      have "\<exists>e'. next_packet hcd (ctx1, s1) = Inr (True, e') \<and> enc_inv L hdr (rlemode ctx1) N s0 e' (p @ [b])"
        by (rule next_packet_same_ticket [OF s1(2) full1 node1(3,1) _ _ _ ep log1 _ frame1 st1])
           (use node1 more pos(2) out1 in \<open>simp_all only: eqs end_off, simp_all add: ctx1_def node(1)\<close>)
      then show ?thesis
        using True put cmd1 by simp
    next
      case last: False
      then have f: "Suc (packet_pos ctx) = factor s"
        using pos(1) by simp
      have "if reply_rc (hcd (usb_log s1) (take (factor s1 * ep_size s1) (transfer_buffer urb1))) \<noteq> 0
          then \<exists>e'. next_packet hcd (ctx1, s1) = Inr (False, e') \<and> enc_aborted L hcd s0 e'
          else if ts = [] then next_packet hcd (ctx1, s1) = Inl BugOn
          else \<exists>e'. next_packet hcd (ctx1, s1) = Inr (True, e') \<and> enc_inv L hdr (rlemode ctx1) N s0 e' (p @ [b])"
        by (rule next_packet_next_ticket [OF s1(2) full1 node1(3,1) _ _ ep _ log1 _ frame1 st1])
           (use f out1 pos(1) in \<open>simp_all only: eqs end_off, simp_all add: ctx1_def node(1)\<close>)
      moreover have "length ?out + 1 = N * (factor s * ep_size s)" if "ts = []"
        using enc_inv_length [OF inv] that end_off f by (simp add: node(1))
      moreover have "packet_pos ctx * ep_size s + encoded_pos ctx + 1 = factor s * ep_size s"
        using end_off by (simp add: f)
      ultimately show ?thesis
        using True put cmd1 s1(4) by (auto split: if_splits)
    qed
  qed
qed

subsection \<open>Whole payloads\<close>

lemma cmd_rle: "enc_inv L hdr rle N s0 (ctx, s) p \<Longrightarrow>
    bitblt_cmd ctx = (if rle then RPUSBDISP_DISPCMD_BITBLT_RLE else RPUSBDISP_DISPCMD_BITBLT)"
  by (simp add: enc_inv_def bitblt_cmd_def)

lemma enc_inv_stable:
  "enc_inv L hdr rle N s0 (ctx, s) p \<Longrightarrow> ep_size s = ep_size s0 \<and> factor s = factor s0"
  using stable_facts(1,2) [of s s0] by (simp add: enc_inv_def)

text \<open>A stream smaller than the bundle's room for payload never fills the bundle.\<close>

lemma framed_room:
  assumes "0 < length hdr" "length hdr < ep" "length hdr + length p < K * (ep - 1)"
  shows "length (framed ep cmd hdr p) + 1 < K * ep"
proof -
  define m q where "m = ep - 1" and "q = length hdr - 1 + length p"
  have m: "0 < m" "ep = Suc m" and q: "Suc q < K * m"
    using assms unfolding m_def q_def by arith+
  have "q div m < K"
    using q m(1) by (simp add: less_mult_imp_div_less)
  then have "q + q div m + 2 < K * m + K"
    using q by linarith
  moreover have "length (framed ep cmd hdr p) = 1 + q + q div m"
    using length_framed [OF assms(1,2), of cmd p] unfolding Let_def m_def q_def .
  ultimately show ?thesis
    by (simp add: m(2))
qed

text \<open>
  A stream of \<open>q\<close> payload bytes in packets that carry \<open>m\<close> of them, \<open>f\<close> packets to a
  ticket: the number of full tickets is \<open>q div (f * m)\<close>.
\<close>

lemma full_tickets:
  fixes q m f j pos :: nat
  assumes m: "0 < m" and F: "1 + q + q div m = j * (f * m + f) + pos" and pos: "0 < pos" "pos < f * m + f"
  shows "q div (f * m) = j" and "pos + 1 = f * m + f \<Longrightarrow> Suc j * (f * m) \<le> Suc q"
proof -
  have lower: "k * f * m \<le> q" if "k * (f * m + f) < 1 + q + q div m" for k
  proof (rule ccontr)
    assume "\<not> ?thesis"
    then have q: "q < k * f * m" by simp
    then have "q div m < k * f"
      by (rule less_mult_imp_div_less)
    moreover have "k * (f * m + f) = k * f * m + k * f"
      by (simp add: algebra_simps)
    ultimately show False
      using q that by linarith
  qed
  have upper: "q < k * f * m" if "1 + q + q div m < k * (f * m + f)" for k
  proof (rule ccontr)
    assume "\<not> ?thesis"
    then have q: "k * f * m \<le> q" by simp
    then have "k * f \<le> q div m"
      using m by (simp add: less_eq_div_iff_mult_less_eq)
    moreover have "k * (f * m + f) = k * f * m + k * f"
      by (simp add: algebra_simps)
    ultimately show False
      using q that by linarith
  qed
  show "q div (f * m) = j"
    using lower [of j] upper [of "Suc j"] F pos by (intro div_nat_eqI) (simp_all add: algebra_simps)
  assume "pos + 1 = f * m + f"
  then have "1 + q + q div m + 1 = Suc j * (f * m + f)"
    using F by simp
  moreover have "Suc j * (f * m + f) = Suc j * f * m + Suc j * f"
    by (simp add: algebra_simps)
  moreover have "q div m < Suc j * f" if "Suc q < Suc j * f * m"
    using that by (intro less_mult_imp_div_less) simp
  ultimately have "Suc j * f * m \<le> Suc q"
    by linarith
  then show "Suc j * (f * m) \<le> Suc q"
    by (simp only: mult.assoc)
qed

text \<open>The tickets that the stream has filled are submitted, the others are still the sender's.\<close>

lemma enc_inv_sent:
  assumes inv: "enc_inv L hdr rle N s0 (ctx, s) p" and hdr: "length hdr = 10" "10 < ep_size s0"
  defines "K \<equiv> factor s0 * (ep_size s0 - 1)"
  shows "(9 + length p) div K + length (current_node ctx) = N"
    and "length (usb_log s) = length (usb_log s0) + (9 + length p) div K"
    and "packet_pos ctx * ep_size s + encoded_pos ctx + 1 = factor s * ep_size s \<Longrightarrow>
      Suc ((9 + length p) div K) * K \<le> 10 + length p"
proof -
  let ?pos = "packet_pos ctx * ep_size s + encoded_pos ctx" and ?f = "factor s0" and ?m = "ep_size s0 - 1"
  note same = enc_inv_stable [OF inv]
  have C: "factor s * ep_size s = ?f * ?m + ?f"
    using same hdr(2) by (cases "ep_size s0") simp_all
  obtain us where us: "usb_log s = usb_log s0 @ map accepted us" "length us + length (current_node ctx) = N"
    and pos: "0 < ?pos"
    using inv by (auto simp: enc_inv_def)
  have "length (framed (ep_size s) (bitblt_cmd ctx) hdr p) = 1 + (9 + length p) + (9 + length p) div ?m"
    using length_framed [of hdr "ep_size s" "bitblt_cmd ctx" p] hdr same by (simp add: Let_def)
  then have F: "1 + (9 + length p) + (9 + length p) div ?m = length us * (?f * ?m + ?f) + ?pos"
    using enc_inv_length [OF inv] unfolding us(2) [symmetric] C by (simp add: add_mult_distrib)
  have "0 < ?m" "?pos < ?f * ?m + ?f"
    using hdr(2) enc_inv_pos(1) [OF inv] C by simp_all
  note full = full_tickets [OF this(1) F pos this(2)]
  then show "(9 + length p) div K + length (current_node ctx) = N"
    "length (usb_log s) = length (usb_log s0) + (9 + length p) div K"
    using us by (simp_all add: K_def)
  assume "?pos + 1 = factor s * ep_size s"
  then show "Suc ((9 + length p) div K) * K \<le> 10 + length p"
    using full C by (simp add: K_def)
qed

lemma enc_inv_not_full:
  assumes inv: "enc_inv L hdr rle N s0 (ctx, s) p" and hdr: "length hdr = 10" "10 < ep_size s0"
  shows "9 + length p < N * (factor s0 * (ep_size s0 - 1))"
proof -
  have "0 < length (current_node ctx)" "0 < factor s0"
    using inv enc_inv_stable [OF inv] by (auto simp: enc_inv_def)
  then have "(9 + length p) div (factor s0 * (ep_size s0 - 1)) < N" "0 < factor s0 * (ep_size s0 - 1)"
    using enc_inv_sent(1) [OF inv hdr] hdr(2) by (linarith, simp)
  then show ?thesis
    by (simp add: div_less_iff_less_mult)
qed

lemma put_payload:
  assumes inv: "enc_inv L hdr rle N s0 e p"
    and hdr: "0 < length hdr" "length hdr < ep_size s0"
    and room: "length hdr - 1 + length p + length bs < N * factor s0 * (ep_size s0 - 1)"
  shows "\<exists>ok e'. bitblt_encode_n_transfer_data hcd e bs = Inr (ok, e') \<and>
    (if ok then enc_inv L hdr rle N s0 e' (p @ bs) else enc_aborted L hcd s0 e')"
proof (rule packets.put_invariant [where I = "enc_inv L hdr rle N s0" and B = "length p + length bs", OF _ inv order.refl])
  fix e b q
  assume inv: "enc_inv L hdr rle N s0 e q" and q: "length q < length p + length bs"
  obtain ctx s where e: "e = (ctx, s)" by (cases e)
  note same = enc_inv_stable [OF inv [unfolded e]]
  have "length hdr + length q < N * factor s0 * (ep_size s0 - 1)"
    using q room hdr(1) by arith
  then have "length (framed (ep_size s) (bitblt_cmd ctx) hdr q) + 1 < N * (factor s * ep_size s)"
    using framed_room [OF hdr, of q "N * factor s0" "bitblt_cmd ctx"] same by (simp add: mult.assoc)
  then show "\<exists>ok e'. bitblt_encode_n_transfer_data hcd e [b] = Inr (ok, e') \<and>
      (if ok then enc_inv L hdr rle N s0 e' (q @ [b]) else enc_aborted L hcd s0 e')"
    using enc_inv_byte [OF inv [unfolded e], of hcd b] unfolding e by auto
qed

text \<open>
  A stream that fits the bundle goes in, unless a submission is refused; one that fills it to the last
  byte hits the \<^verbatim>\<open>BUG_ON\<close> instead of going in.
\<close>

lemma put_stream:
  assumes inv: "enc_inv L hdr rle N s0 e []" and hdr: "length hdr = 10" "10 < ep_size s0"
    and fits: "9 + length bs \<le> N * (factor s0 * (ep_size s0 - 1))"
  obtains (put) ok e' where "bitblt_encode_n_transfer_data hcd e bs = Inr (ok, e')"
      "if ok then enc_inv L hdr rle N s0 e' bs else enc_aborted L hcd s0 e'"
  | (stuck) "bitblt_encode_n_transfer_data hcd e bs = Inl BugOn"
      "9 + length bs = N * (factor s0 * (ep_size s0 - 1))"
proof (cases "9 + length bs = N * (factor s0 * (ep_size s0 - 1))")
  case False
  then have "length hdr - 1 + length [] + length bs < N * factor s0 * (ep_size s0 - 1)"
    using fits hdr(1) by (simp add: mult.assoc)
  then obtain ok e' where "bitblt_encode_n_transfer_data hcd e bs = Inr (ok, e')"
    "if ok then enc_inv L hdr rle N s0 e' bs else enc_aborted L hcd s0 e'"
    using put_payload [OF inv, unfolded append_Nil, of bs hcd] hdr by auto
  then show thesis
    by (rule that(1))
next
  case True
  have "9 + length [] < N * (factor s0 * (ep_size s0 - 1))"
    using enc_inv_not_full [of L hdr rle N s0 "fst e" "snd e" "[]"] inv hdr by simp
  then have "bs \<noteq> []"
    using True by auto
  then obtain p b where bs: "bs = p @ [b]"
    by (cases bs rule: rev_cases) auto
  have "length hdr - 1 + length [] + length p < N * factor s0 * (ep_size s0 - 1)"
    using True hdr(1) by (simp add: bs mult.assoc)
  then obtain ok e1 where e1: "bitblt_encode_n_transfer_data hcd e p = Inr (ok, e1)"
    "if ok then enc_inv L hdr rle N s0 e1 p else enc_aborted L hcd s0 e1"
    using put_payload [OF inv, unfolded append_Nil, of p hcd] hdr by auto
  have last: "bitblt_encode_n_transfer_data hcd e bs =
      (if ok then bitblt_encode_n_transfer_data hcd e1 [b] else Inr (False, e1))"
    by (simp add: bs transfer_data_append e1(1))
  show thesis
  proof (cases ok)
    case False
    then show thesis
      using that(1) [of False e1] last e1(2) by simp
  next
    case ok: True
    obtain ctx1 s1 where e1': "e1 = (ctx1, s1)" by (cases e1)
    have "\<not> enc_inv L hdr rle N s0 e' bs" for e'
      using enc_inv_not_full [of L hdr rle N s0 "fst e'" "snd e'" bs] hdr True by auto
    then consider e' where "bitblt_encode_n_transfer_data hcd e1 [b] = Inr (False, e')" "enc_aborted L hcd s0 e'"
      | "bitblt_encode_n_transfer_data hcd e1 [b] = Inl BugOn"
      using enc_inv_byte [of L hdr rle N s0 ctx1 s1 p hcd b] e1(2) ok unfolding e1' bs by auto
    then show thesis
    proof cases
      case (1 e')
      then show thesis
        using that(1) [of False e'] last ok by simp
    next
      case 2
      then show thesis
        using that(2) last True ok by simp
    qed
  qed
qed

text \<open>While the controller accepts the tickets the stream fills, nothing stops it.\<close>

lemma put_accepted:
  assumes inv: "enc_inv L hdr rle N s0 e []" and hdr: "length hdr = 10" "10 < ep_size s0"
    and fits: "9 + length bs < N * (factor s0 * (ep_size s0 - 1))"
    and accept: "\<And>log bytes. length log < length (usb_log s0) + (9 + length bs) div (factor s0 * (ep_size s0 - 1))
      \<Longrightarrow> reply_rc (hcd log bytes) = 0"
  shows "\<exists>e'. bitblt_encode_n_transfer_data hcd e bs = Inr (True, e') \<and> enc_inv L hdr rle N s0 e' bs"
proof -
  let ?K = "factor s0 * (ep_size s0 - 1)"
  have "\<exists>ok e'. bitblt_encode_n_transfer_data hcd e bs = Inr (ok, e') \<and>
      (if ok then enc_inv L hdr rle N s0 e' ([] @ bs) else False)"
  proof (rule packets.put_invariant [where I = "enc_inv L hdr rle N s0" and J = "\<lambda>_. False" and B = "length bs",
      OF _ inv])
    fix e b q
    assume inv: "enc_inv L hdr rle N s0 e q" and q: "length q < length bs"
    obtain ctx s where e: "e = (ctx, s)" by (cases e)
    note inv' = inv [unfolded e]
    note same = enc_inv_stable [OF inv'] and sent = enc_inv_sent [OF inv' hdr]
    have "length hdr + length q < N * factor s0 * (ep_size s0 - 1)"
      using q fits hdr(1) by (simp add: mult.assoc)
    then have room: "length (framed (ep_size s) (bitblt_cmd ctx) hdr q) + 1 \<noteq> N * (factor s * ep_size s)"
      using framed_room [of hdr "ep_size s" q "N * factor s0" "bitblt_cmd ctx"] same hdr by (simp add: mult.assoc)
    have "reply_rc (hcd (usb_log s) u) = 0"
      if "packet_pos ctx * ep_size s + encoded_pos ctx + 1 = factor s * ep_size s" for u
    proof (rule accept)
      have "Suc ((9 + length q) div ?K) * ?K \<le> 9 + length bs" "0 < ?K"
        using sent(3) [OF that] q inv' hdr(2) same by (auto simp: enc_inv_def)
      then have "Suc ((9 + length q) div ?K) \<le> (9 + length bs) div ?K"
        by (simp only: less_eq_div_iff_mult_less_eq)
      then show "length (usb_log s) < length (usb_log s0) + (9 + length bs) div ?K"
        using sent(2) by linarith
    qed
    then obtain e' where "bitblt_encode_n_transfer_data hcd e [b] = Inr (True, e')"
      "enc_inv L hdr rle N s0 e' (q @ [b])"
      using enc_inv_byte [OF inv', of hcd b] room unfolding e by blast
    then show "\<exists>ok e'. bitblt_encode_n_transfer_data hcd e [b] = Inr (ok, e') \<and>
        (if ok then enc_inv L hdr rle N s0 e' (q @ [b]) else False)"
      by (intro exI [of _ True] exI [of _ e']) simp
  qed simp
  then show ?thesis
    by (auto split: if_splits)
qed

subsection \<open>Buying the bundle and writing the header\<close>

lemma bitblt_encoder_init_ok:
  assumes inv: "pool_inv L s" and req: "required_tickets (ep_size s) (factor s) image_size rle = Inr N"
  shows "\<exists>s'. bitblt_encoder_init image_size rle s =
    Inr (if is_alive (dv s) \<and> 0 < N \<and> N \<le> length (free_tickets s)
         then (Some \<lparr>enc_ticket = hd (free_tickets s), current_node = take N (free_tickets s), encoded_pos = 0,
                    packet_pos = 0, urbbuffer = 0, rlemode = rle\<rparr>, s')
         else (None, s))
    \<and> (N \<le> length (free_tickets s) \<longrightarrow> pool_inv (take N (free_tickets s) @ L) s'
        \<and> full_length (take N (free_tickets s)) s') \<and> stable s' = stable s \<and> usb_log s' = usb_log s"
proof -
  let ?s' = "pool_update (pool_list_update (\<lambda>l. drop N l))
    (pool_update (availiable_count_update (\<lambda>c. c - int N)) s)"
  have st: "stable ?s' = stable s"
    by (simp only: stable_updates)
  have full: "full_length (take N (free_tickets s)) ?s'"
    using pool_invD(8) [OF inv] by (auto simp: full_length_def dest: in_set_takeD)
  have ten: "length (free_tickets s) \<le> 10"
    by (rule pool_invD(2) [OF inv])
  have run: "bitblt_encoder_init image_size rle s =
    Inr (if is_alive (dv s) \<and> 0 < N \<and> N \<le> length (free_tickets s)
         then (Some \<lparr>enc_ticket = hd (free_tickets s), current_node = take N (free_tickets s), encoded_pos = 0,
                    packet_pos = 0, urbbuffer = 0, rlemode = rle\<rparr>, ?s')
         else (None, s))"
  proof (cases "is_alive (dv s) \<and> 0 < N \<and> N \<le> length (free_tickets s)")
    case True
    then obtain n t ts where N: "N = Suc n" and ts: "free_tickets s = t # ts"
      by (cases N; cases "free_tickets s") auto
    show ?thesis
      using True ten ts unfolding bitblt_encoder_init_def req sell_disp_tickets_char [OF inv] N
      by (simp add: RPUSBDISP_MAX_TRANSFER_TICKETS_COUNT_def)
  next
    case False
    then show ?thesis
      by (auto simp: bitblt_encoder_init_def req sell_disp_tickets_char [OF inv])
  qed
  show ?thesis
    using run st full pool_inv_sold [OF inv, of N] by (intro exI [of _ ?s']) simp
qed

lemma bitblt_encode_command_header_ok:
  fixes rle :: bool
  assumes inv: "pool_inv (t # ts @ L) s" and full: "full_length (t # ts) s"
    and size: "10 < ep_size s" "0 < factor s"
    and st: "stable s = stable s0" "usb_log s = usb_log s0"
  defines "ctx \<equiv> \<lparr>enc_ticket = t, current_node = t # ts, encoded_pos = 0, packet_pos = 0, urbbuffer = 0,
    rlemode = rle\<rparr>"
  shows "\<exists>e. bitblt_encode_command_header x y right' bottom' cd (ctx, s) = Inr e
    \<and> enc_inv L (bitblt_bytes (bitblt_command ctx x y right' bottom' cd)) rle (Suc (length ts)) s0 e []"
proof -
  let ?hdr = "bitblt_bytes (bitblt_command ctx x y right' bottom' cd)"
  obtain urb where urb: "tickets s t = Some urb"
    using pool_invD(4) [OF inv, of t] by auto
  have "1 * ep_size s \<le> factor s * ep_size s"
    using size(2) by (intro mult_right_mono) simp_all
  then have max: "10 \<le> RPUSBDISP_MAX_TRANSFER_SIZE"
    using size(1) pool_invD(6) [OF inv] by linarith
  obtain s' where s': "urb_write t 0 ?hdr s = Inr s'" "pool_inv (t # ts @ L) s'" "stable s' = stable s"
    "usb_log s' = usb_log s" "tickets s' = (tickets s)(t \<mapsto> urb\<lparr>transfer_buffer := buf_put 0 ?hdr (transfer_buffer urb)\<rparr>)"
    by (rule urb_write_ok [OF inv _ urb, of 0 ?hdr]) (use max in auto)
  have eqs: "ep_size s' = ep_size s" "factor s' = factor s"
    using stable_facts [OF s'(3)] by simp_all
  have "take 10 (buf_put 0 ?hdr (transfer_buffer urb)) = ?hdr"
    by (simp add: buf_put_def)
  then have "enc_inv L ?hdr rle (Suc (length ts)) s0 (ctx\<lparr>encoded_pos := 10\<rparr>, s') []"
    unfolding enc_inv_def prod.case eqs
    using s'(2-5) st size full full_length_urb_write [OF s'(5) urb s'(3)] by (simp add: ctx_def)
  moreover have "bitblt_encode_command_header x y right' bottom' cd (ctx, s) = Inr (ctx\<lparr>encoded_pos := 10\<rparr>, s')"
    using s'(1) by (simp add: bitblt_encode_command_header_def ctx_def)
  ultimately show ?thesis by blast
qed

subsection \<open>Giving tickets back\<close>

lemma return_nodes_ok:
  assumes "pool_inv (ts @ H) s" "full_length ts s"
  shows "pool_inv H (return_nodes ts s) \<and> stable (return_nodes ts s) = stable s
    \<and> usb_log (return_nodes ts s) = usb_log s \<and> inflight (return_nodes ts s) = inflight s
    \<and> free_tickets (return_nodes ts s) = free_tickets s @ ts"
  using assms
proof (induction ts arbitrary: s)
  case (Cons t ts)
  let ?s1 = "snd (return_disp_tickets t s)"
  have full: "full_length [t] s" "full_length ts s"
    using Cons.prems(2) full_length_Cons by blast+
  have "pool_inv (ts @ H) ?s1"
    using pool_inv_return [of t "ts @ H"] Cons.prems(1) full(1) by simp
  moreover have "full_length ts ?s1"
    using full(2) full_length_cong [of ?s1 s ts] by simp
  ultimately show ?case
    using Cons.IH [of ?s1] by simp
qed simp

lemma bitblt_encoder_cleanup_ok:
  fixes hcd :: hcd
  assumes "enc_aborted L hcd s0 e"
  shows "pool_inv L (bitblt_encoder_cleanup e)" "stable (bitblt_encoder_cleanup e) = stable s0"
    "usb_log (bitblt_encoder_cleanup e) = usb_log (snd e)"
  using assms return_nodes_ok [of "current_node (fst e)" L "snd e"]
  by (cases e; simp add: enc_aborted_def bitblt_encoder_cleanup_def)+

subsection \<open>The last ticket\<close>

text \<open>
  An accepted flush completes the transfers of the image and gives the unused tickets back. A
  refused one answers 0 without the cleanup: the unused tickets \<open>ts\<close> stay held by a
  sender that is gone.
\<close>

lemma bitblt_encoder_flush_ok:
  fixes hcd :: hcd
  assumes inv: "enc_inv L hdr rle N s0 (ctx, s) p"
  obtains (sent) s' us where "bitblt_encoder_flush hcd (ctx, s) = Inr (True, s')" "pool_inv L s'"
      "stable s' = stable s0" "usb_log s' = usb_log s0 @ map accepted us" "us \<noteq> []"
      "concat us = framed (ep_size s) (bitblt_cmd ctx) hdr p"
      "\<forall>u \<in> set (butlast us). length u = factor s * ep_size s"
      "reply_rc (hcd (usb_log s0 @ map accepted (butlast us)) (last us)) = 0"
      "usb_log s = usb_log s0 @ map accepted (butlast us)"
  | (refused) s' us u where "bitblt_encoder_flush hcd (ctx, s) = Inr (False, s')" "pool_inv (tl (current_node ctx) @ L) s'"
      "stable s' = stable s0" "refused_log hcd s0 us u s'" "usb_log s = usb_log s0 @ map accepted us"
proof -
  let ?len = "packet_pos ctx * ep_size s + encoded_pos ctx"
  from inv obtain ts urb us where node: "current_node ctx = enc_ticket ctx # ts"
      "tickets s (enc_ticket ctx) = Some urb"
    and log: "usb_log s = usb_log s0 @ map accepted us" "\<forall>u \<in> set us. length u = factor s * ep_size s"
    and out: "concat us @ take ?len (transfer_buffer urb) = framed (ep_size s) (bitblt_cmd ctx) hdr p"
    and pinv: "pool_inv (enc_ticket ctx # ts @ L) s" and full: "full_length (enc_ticket ctx # ts) s"
    and st: "stable s = stable s0" and pos: "0 < encoded_pos ctx"
    by (auto simp: enc_inv_def)
  note bounds = enc_inv_pos [OF inv]
  define urb1 where "urb1 = urb\<lparr>transfer_buffer_length := ?len\<rparr>"
  define s1 where "s1 = s\<lparr>tickets := (tickets s)(enc_ticket ctx \<mapsto> urb1)\<rparr>"
  have st1: "stable s1 = stable s"
    by (simp add: s1_def)
  have notin: "enc_ticket ctx \<notin> set (free_tickets s)" "enc_ticket ctx \<notin> set ts"
    using pinv by (auto simp: pool_inv_def)
  have inv1: "pool_inv (enc_ticket ctx # ts @ L) s1"
  proof (rule pool_inv_rearrange [OF pinv _ _ _ _ _ st1])
    show "full_length (free_tickets s1) s1"
      using pool_invD(8) [OF pinv] notin(1) by (auto simp: full_length_def s1_def)
    show "dom (tickets s1) = dom (tickets s)"
      using node(2) by (auto simp: s1_def)
    fix u urb' assume "tickets s1 u = Some urb'"
    then show "length (transfer_buffer urb') = RPUSBDISP_MAX_TRANSFER_SIZE"
      using pool_invD(5) [OF pinv, of u] pool_invD(5) [OF pinv node(2)]
      by (auto simp: s1_def urb1_def split: if_splits)
  qed (use pool_invD(1) [OF pinv] in \<open>simp_all add: s1_def\<close>)
  have full1: "full_length ts s1"
    using full notin(2) by (auto simp: full_length_def s1_def)
  have t1: "tickets s1 (enc_ticket ctx) = Some urb1" "transfer_buffer_length urb1 \<le> RPUSBDISP_MAX_TRANSFER_SIZE"
    using bounds by (simp_all add: s1_def urb1_def)
  define bytes where "bytes = take ?len (transfer_buffer urb)"
  have bytes: "take (transfer_buffer_length urb1) (transfer_buffer urb1) = bytes"
    by (simp add: urb1_def bytes_def)
  define rc where "rc = reply_rc (hcd (usb_log s1) bytes)"
  obtain s2 where s2: "submit_current hcd (ctx, s1) = Inr (rc = 0, ctx\<lparr>current_node := ts\<rparr>, s2)"
    "pool_inv (ts @ L) s2" "full_length ts s2" "stable s2 = stable s1"
    "usb_log s2 = usb_log s1 @ [\<lparr>xfer_bytes = bytes, xfer_rc = rc\<rparr>]"
    by (rule submit_current_ok [OF inv1 full1 node(1) refl t1, of hcd, unfolded bytes, folded rc_def]) blast
  have "?len < 18446744073709551616"
    using bounds by (simp add: conf_defs)
  then have run: "bitblt_encoder_flush hcd (ctx, s) =
      Inr (if rc = 0 then (True, return_nodes ts s2) else (False, s2))"
    using pos s2(1) node
    by (simp add: bitblt_encoder_flush_def set_transfer_length_def sz_def bitblt_encoder_cleanup_def
        s1_def urb1_def Let_def)
  show thesis
  proof (cases "rc = 0")
    case True
    note given_back = return_nodes_ok [of ts L s2]
    show thesis
      by (rule sent [of "return_nodes ts s2" "us @ [bytes]"])
         (use True run given_back s2 log out st st1 in \<open>simp_all add: s1_def accepted_def bytes_def rc_def\<close>)
  next
    case False
    show thesis
      by (rule refused [of s2 us bytes])
         (use False run s2 log st st1 node in \<open>simp_all add: s1_def refused_log_def rc_def\<close>)
  qed
qed

end
