(* ===== verification/Receiver.thy ===== *)
theory Receiver
  imports Packet_Stream Rle_Encoder
begin

text \<open>
  What a device makes of the transfers of one command, whichever driver sent them: the abstract
  receiver that the correctness theorems of the kernel module and of the user-mode SDK speak of.
\<close>

text \<open>
  The device strips the header byte of every packet, reads the command from the first packet and
  expands the payload if the command says that it is run-length encoded.
\<close>

definition device_headers :: "nat \<Rightarrow> u8 list list \<Rightarrow> u8 list" where
  "device_headers ep us = concat (map (packet_headers ep) us)"

definition device_payload :: "nat \<Rightarrow> u8 list list \<Rightarrow> u8 list" where
  "device_payload ep us = concat (map (packet_payload ep) us)"

definition decode_bitblt :: "nat \<Rightarrow> u8 list list \<Rightarrow> (rpusbdisp_disp_bitblt_packet_t \<times> u16 list) option" where
  "decode_bitblt ep us =
     (case parse_bitblt (hd (device_headers ep us) # device_payload ep us) of
        None \<Rightarrow> None
      | Some (p, data) \<Rightarrow>
          Some (p, parse_pixels
            (if cmd_flag (bitblt_header p) AND RPUSBDISP_CMD_MASK = RPUSBDISP_DISPCMD_BITBLT_RLE
             then concat (rle_decode (length data) data) else data)))"

text \<open>A command in one transfer: all its bytes but the first come back, and the first header with it.\<close>

lemma receive_framed:
  assumes "1 < ep"
  shows "device_payload ep [framed ep cmd [h] p] = p"
    and "\<exists>n. device_headers ep [framed ep cmd [h] p] = h # replicate n cmd"
  using framed_payload [of "[h]" ep cmd p] framed_headers [of "[h]" ep cmd p] assms
  by (simp_all add: device_payload_def device_headers_def)

end
