(* ===== verification/Send_Image.thy ===== *)
theory Send_Image
  imports Bitblt_Correct Receiver
begin

text \<open>
  \<^verbatim>\<open>rpusbdisp_usb_try_send_image\<close>: the walk over the framebuffer that feeds the
  packet encoder, directly or through the run-length encoder, and its correctness: what the device
  decodes from the transfers is the region of the framebuffer that was asked for.
\<close>

subsection \<open>The operation\<close>

text \<open>Reading \<^verbatim>\<open>*framebuffer\<close>, with the pointer as an offset into the screen.\<close>

definition fb_read :: "u16 list \<Rightarrow> int \<Rightarrow> fault + pixel_le" where
  "fb_read framebuffer p =
     (if 0 \<le> p \<and> p < int (length framebuffer) then Inr (cpu_to_le16 (framebuffer ! nat p))
      else Inl OutOfBounds)"

text \<open>The inner and the outer loop, on the number of rounds left.\<close>

fun send_row :: "(pixel_le \<Rightarrow> 'e \<Rightarrow> fault + (bool \<times> 'e)) \<Rightarrow> u16 list \<Rightarrow> nat \<Rightarrow> int \<Rightarrow> 'e
    \<Rightarrow> fault + (bool \<times> 'e)" where
  "send_row encode framebuffer 0 p e = Inr (True, e)"
| "send_row encode framebuffer (Suc n) p e =
     kbind (fb_read framebuffer p) (\<lambda>current_pixel_le.
       continue_if (encode current_pixel_le e) (send_row encode framebuffer n (p + 1)))"

fun send_rows :: "(pixel_le \<Rightarrow> 'e \<Rightarrow> fault + (bool \<times> 'e)) \<Rightarrow> u16 list \<Rightarrow> nat \<Rightarrow> int \<Rightarrow> nat \<Rightarrow> int
    \<Rightarrow> 'e \<Rightarrow> fault + (bool \<times> 'e)" where
  "send_rows encode framebuffer width skip 0 p e = Inr (True, e)"
| "send_rows encode framebuffer width skip (Suc n) p e =
     continue_if (send_row encode framebuffer width p e)
       (send_rows encode framebuffer width skip n (p + int width + skip))"

definition rpusbdisp_usb_try_send_image :: "hcd \<Rightarrow> u16 list \<Rightarrow> int \<Rightarrow> int \<Rightarrow> int \<Rightarrow> int \<Rightarrow> int \<Rightarrow> bool
    \<Rightarrow> st \<Rightarrow> fault + (int \<times> st)" where
  "rpusbdisp_usb_try_send_image hcd framebuffer x y right' bottom' line_width clear_dirty s =
     (let image_size = size_t (c_int (c_int (c_int (right' - x + 1) * c_int (bottom' - y + 1))
                          * (RP_DISP_DEFAULT_PIXEL_BITS div 8)))
      in if image_size = 0 then Inr (1, s)
         else
           (let rle = (device_fwver (dv s) \<ge> RP_DISP_FEATURE_RLE_FWVERSION);
                put = bitblt_encode_n_transfer_data hcd;
                start = c_int (c_int (y * line_width) + x);
                rows = nat (bottom' - y + 1);
                cols = nat (right' - x + 1);
                skip = c_int (line_width - right' - 1 + x)
            in kbind (bitblt_encoder_init image_size rle s) (\<lambda>(r, s1).
                 case r of
                   None \<Rightarrow> Inr (0, s1)
                 | Some ctx \<Rightarrow>
                     kbind (bitblt_encode_command_header x y right' bottom' clear_dirty (ctx, s1)) (\<lambda>e.
                     kbind (if rle
                            then kbind (continue_if
                                    (send_rows (rle_compress_n_encode put) framebuffer cols skip rows start
                                       (rle_compress_init e))
                                    (rle_flush_section put)) (\<lambda>(ok, c). Inr (ok, encoder_ctx c))
                            else send_rows (\<lambda>px e. put e px) framebuffer cols skip rows start e) (\<lambda>(ok, e).
                       if ok then kbind (bitblt_encoder_flush hcd e) (\<lambda>(sent, s2). Inr (if sent then 1 else 0, s2))
                       else Inr (0, bitblt_encoder_cleanup e))))))"

subsection \<open>The region of the framebuffer\<close>

definition region_pixels :: "u16 list \<Rightarrow> int \<Rightarrow> int \<Rightarrow> int \<Rightarrow> int \<Rightarrow> int \<Rightarrow> u16 list" where
  "region_pixels framebuffer x y right' bottom' line_width =
     concat (map (\<lambda>row. map (\<lambda>col. framebuffer ! nat (row * line_width + col)) [x..right']) [y..bottom'])"

text \<open>The pixels of a list one after the other.\<close>

fun send_list :: "(pixel_le \<Rightarrow> 'e \<Rightarrow> fault + (bool \<times> 'e)) \<Rightarrow> pixel_le list \<Rightarrow> 'e
    \<Rightarrow> fault + (bool \<times> 'e)" where
  "send_list encode [] e = Inr (True, e)"
| "send_list encode (px # pxs) e = continue_if (encode px e) (send_list encode pxs)"

lemma send_list_append:
  "send_list encode (xs @ ys) e = continue_if (send_list encode xs e) (send_list encode ys)"
  by (induction xs arbitrary: e) (simp_all add: continue_if_assoc cong: continue_if_cong)

lemma send_list_rle: "send_list (rle_compress_n_encode put) = rle_encode_pixels put"
proof (intro ext)
  fix pxs c
  show "send_list (rle_compress_n_encode put) pxs c = rle_encode_pixels put pxs c"
    by (induction pxs arbitrary: c) (simp_all cong: continue_if_cong)
qed

context byte_sink
begin

lemma send_list_put: "send_list (\<lambda>px e. put e px) pxs e = put e (concat pxs)"
  by (induction pxs arbitrary: e) (simp_all add: put_Nil put_append cong: continue_if_cong)

end

lemma send_row_list:
  assumes "0 \<le> p" "p + int n \<le> int (length framebuffer)"
  shows "send_row encode framebuffer n p e =
    send_list encode (map (\<lambda>i. cpu_to_le16 (framebuffer ! nat i)) [p..p + int n - 1]) e"
  using assms
proof (induction n arbitrary: p e)
  case (Suc n)
  have "[p..p + int (Suc n) - 1] = p # [p + 1..(p + 1) + int n - 1]"
    by (subst upto_rec1) (simp_all add: algebra_simps)
  moreover have "send_row encode framebuffer n (p + 1) =
      send_list encode (map (\<lambda>i. cpu_to_le16 (framebuffer ! nat i)) [p + 1..(p + 1) + int n - 1])"
    using Suc by (intro ext) simp
  ultimately show ?case
    using Suc.prems by (simp add: fb_read_def)
qed simp

lemma upto_shift: "map (\<lambda>i. f (i + k)) [a..b] = map f [a + k..b + k]" for a b k :: int
proof (induction "nat (b - a + 1)" arbitrary: a)
  case (Suc n)
  then have "a \<le> b" by simp
  moreover have "map (\<lambda>i. f (i + k)) [a + 1..b] = map f [a + 1 + k..b + k]"
    using Suc by (intro Suc.hyps(1)) simp
  ultimately show ?case
    by (simp add: upto_rec1 [of a b] upto_rec1 [of "a + k" "b + k"] algebra_simps)
qed simp

lemma send_rows_list:
  assumes rect: "0 \<le> x" "x \<le> right'" "right' < line_width" "0 \<le> y"
    and inside: "(y + int n) * line_width \<le> int (length framebuffer)"
  shows "send_rows encode framebuffer (nat (right' - x + 1)) (line_width - right' - 1 + x) n
      (y * line_width + x) e =
    send_list encode (map cpu_to_le16 (region_pixels framebuffer x y right' (y + int n - 1) line_width)) e"
  using rect inside
proof (induction n arbitrary: y e)
  case 0
  then show ?case by (simp add: region_pixels_def)
next
  case (Suc n)
  let ?w = "nat (right' - x + 1)"
  have w: "int ?w = right' - x + 1"
    using Suc.prems(2) by simp
  have next_row: "y * line_width + x + int ?w + (line_width - right' - 1 + x) = (y + 1) * line_width + x"
    unfolding w by (simp add: algebra_simps)
  have "(y + 1) * line_width \<le> (y + int (Suc n)) * line_width"
    using Suc.prems by (intro mult_right_mono) simp_all
  then have "(y + 1) * line_width \<le> int (length framebuffer)"
    using Suc.prems(5) by (rule order.trans)
  then have row_inside: "y * line_width + x + int ?w \<le> int (length framebuffer)"
    unfolding w using Suc.prems by (simp add: algebra_simps)
  have row: "send_row encode framebuffer ?w (y * line_width + x) e =
      send_list encode (map cpu_to_le16 (map (\<lambda>col. framebuffer ! nat (y * line_width + col)) [x..right'])) e" for e
  proof -
    have "[y * line_width + x..y * line_width + x + int ?w - 1] = map (\<lambda>col. col + y * line_width) [x..right']"
      using upto_shift [of "\<lambda>i. i" "y * line_width" x right'] Suc.prems by (simp add: w algebra_simps)
    then show ?thesis
      using send_row_list [OF _ row_inside, of encode e] Suc.prems
      by (simp add: comp_def algebra_simps)
  qed
  have rest: "send_rows encode framebuffer ?w (line_width - right' - 1 + x) n ((y + 1) * line_width + x) =
      send_list encode (map cpu_to_le16 (region_pixels framebuffer x (y + 1) right' (y + 1 + int n - 1) line_width))"
    using Suc by (intro ext Suc.IH) (simp_all add: algebra_simps)
  have "[y..y + int (Suc n) - 1] = y # [y + 1..y + 1 + int n - 1]"
    by (subst upto_rec1) (simp_all add: algebra_simps)
  then have "region_pixels framebuffer x y right' (y + int (Suc n) - 1) line_width =
      map (\<lambda>col. framebuffer ! nat (y * line_width + col)) [x..right']
      @ region_pixels framebuffer x (y + 1) right' (y + 1 + int n - 1) line_width"
    by (simp add: region_pixels_def)
  then show ?case
    by (simp only: send_rows.simps next_row row rest map_append send_list_append)
qed

lemma length_region_pixels:
  "length (region_pixels framebuffer x y right' bottom' line_width) = nat (bottom' - y + 1) * nat (right' - x + 1)"
  by (simp add: region_pixels_def length_concat comp_def sum_list_triv)

lemma region_full_width:
  assumes "0 < (lw::int)" "y \<le> b + 1"
  shows "concat (map (\<lambda>row. map (\<lambda>col. f (row * lw + col)) [0..lw - 1]) [y..b]) = map f [y * lw..(b + 1) * lw - 1]"
  using assms(2)
proof (induction "nat (b - y + 1)" arbitrary: y)
  case 0
  then have "y = b + 1" by simp
  then show ?case by simp
next
  case (Suc n)
  then have y: "y \<le> b" by simp
  have "map f [(y + 1) * lw..(b + 1) * lw - 1] = concat (map (\<lambda>row. map (\<lambda>col. f (row * lw + col)) [0..lw - 1]) [y + 1..b])"
    using Suc(2) y by (intro Suc.hyps(1) [symmetric]) simp_all
  moreover have "map (\<lambda>col. f (y * lw + col)) [0..lw - 1] = map f [y * lw..(y + 1) * lw - 1]"
    using upto_shift [of f "y * lw" 0 "lw - 1"] by (simp add: algebra_simps)
  moreover have "[y * lw..(b + 1) * lw - 1] = [y * lw..(y + 1) * lw - 1] @ [(y + 1) * lw..(b + 1) * lw - 1]"
  proof (cases "y = b")
    case False
    then have "(y + 2) * lw \<le> (b + 1) * lw"
      using y assms(1) by (intro mult_right_mono) simp_all
    then show ?thesis
      using assms(1) by (intro upto_split1) (simp_all add: algebra_simps)
  qed simp
  ultimately show ?case
    using y by (simp add: upto_rec1)
qed

subsection \<open>The size of the bundle\<close>

text \<open>
  The driver's estimate of the payload, header parameters included, and the payload a bundle of
  \<open>N\<close> tickets has room for.
\<close>

definition worst_payload :: "bool \<Rightarrow> nat \<Rightarrow> nat" where
  "worst_payload rle pixels = 9 + 2 * pixels + (if rle then (pixels + 127) div 128 else 0)"

lemma ceil_div:
  assumes "0 < (a::nat)"
  shows "w \<le> (w + a - 1) div a * a"
proof -
  have "(w + a - 1) div a * a + (w + a - 1) mod a = w + a - 1"
    by simp
  moreover have "(w + a - 1) mod a < a"
    using assms by simp
  ultimately show ?thesis by linarith
qed

lemma required_tickets_ok:
  assumes "10 < ep" "0 < fac" "fac * ep \<le> RPUSBDISP_MAX_TRANSFER_SIZE" "pixels < 1073741824"
  shows "\<exists>N. required_tickets ep fac (2 * pixels) rle = Inr N
    \<and> worst_payload rle pixels \<le> N * fac * (ep - 1) \<and> 0 < N
    \<and> N * fac * (ep - 1) < worst_payload rle pixels + fac * (ep - 1)"
proof -
  define w where "w = worst_payload rle pixels"
  define c where "c = (w + (ep - 1) - 1) div (ep - 1)"
  define N where "N = (c + fac - 1) div fac"
  have "1 * ep \<le> fac * ep" "fac * 1 \<le> fac * ep"
    using assms(1,2) by (intro mult_right_mono mult_left_mono; simp)+
  then have small: "ep \<le> 65024" "fac \<le> 65024"
    using assms(3) unfolding conf_defs by linarith+
  have w_small: "w < 4294967296" "9 \<le> w"
    using assms(4) by (auto simp: w_def worst_payload_def)
  have "c \<le> w + (ep - 1) - 1"
    unfolding c_def by (rule div_le_dividend)
  then have c_small: "c < 8589934592"
    using small w_small by linarith
  have w_c: "w \<le> c * (ep - 1)"
    unfolding c_def using assms(1) by (intro ceil_div) simp
  have c_N: "c \<le> N * fac"
    unfolding N_def using assms(2) by (rule ceil_div)
  have "w \<le> N * fac * (ep - 1)"
    using w_c mult_right_mono [OF c_N, of "ep - 1"] by linarith
  moreover have "0 < N"
    using calculation w_small(2) by (cases N) auto
  moreover have "N * fac * (ep - 1) < w + fac * (ep - 1)"
  proof -
    have "N * fac \<le> c + fac - 1" "c * (ep - 1) \<le> w + (ep - 1) - 1"
      unfolding N_def c_def by (rule div_times_less_eq_dividend)+
    moreover have "(c + fac - 1) * m + m = c * m + fac * m" for m
      using assms(2) by (cases fac) (simp_all add: algebra_simps)
    note this [of "ep - 1"]
    moreover have "N * fac * (ep - 1) \<le> (c + fac - 1) * (ep - 1)"
      using calculation(1) by (rule mult_right_mono) simp
    ultimately show ?thesis
      using w_small(2) assms(1) by linarith
  qed
  moreover have "required_tickets ep fac (2 * pixels) rle = Inr N"
  proof -
    have "sz (9 + 2 * pixels) = 9 + 2 * pixels" "sz (2 * pixels div 2 + 127) = pixels + 127"
      "sz_sub ep 1 = ep - 1" "ep - 1 \<noteq> 0"
      using assms(1,4) by (simp_all add: sz_def sz_sub_def)
    moreover have "sz (9 + 2 * pixels + (pixels + 127) div 128) = 9 + 2 * pixels + (pixels + 127) div 128"
      using assms(4) by (intro sz_id) linarith
    ultimately have payload: "required_tickets ep fac (2 * pixels) rle =
        Inr (sz_sub (sz (sz_sub (sz (w + (ep - 1))) 1 div (ep - 1) + fac)) 1 div fac)"
      using assms(2) by (simp add: required_tickets_def Let_def w_def worst_payload_def)
    have "sz (w + (ep - 1)) = w + (ep - 1)"
      using small w_small by (intro sz_id) linarith
    moreover have "sz_sub (w + (ep - 1)) 1 = w + (ep - 1) - 1"
      using w_small by (intro sz_sub_id) linarith
    moreover have "sz (c + fac) = c + fac"
      using small c_small by (intro sz_id) linarith
    moreover have "sz_sub (c + fac) 1 = c + fac - 1"
      using assms(2) by (intro sz_sub_id) linarith
    ultimately show ?thesis
      unfolding payload N_def c_def [symmetric] by simp (simp add: c_def)
  qed
  ultimately show ?thesis
    by (intro exI [of _ N]) (simp add: w_def)
qed

subsection \<open>What the device decodes\<close>

definition image_stream :: "bool \<Rightarrow> u16 list \<Rightarrow> u8 list" where
  "image_stream rle pixels =
     (if rle then rle_bytes (map cpu_to_le16 pixels) else concat (map cpu_to_le16 pixels))"

lemma length_image_stream: "9 + length (image_stream rle pixels) \<le> worst_payload rle (length pixels)"
  using length_rle_bytes [of "map cpu_to_le16 pixels"] by (simp add: image_stream_def worst_payload_def)

lemma cmd_of_bitblt_command:
  "cmd_flag (bitblt_header (bitblt_command ctx x y right' bottom' cd)) AND RPUSBDISP_CMD_MASK
     = RPUSBDISP_DISPCMD_BITBLT_RLE \<longleftrightarrow> rlemode ctx"
  by (simp add: bitblt_command_def bitblt_cmd_def Let_def cmd_of_flags)
     (simp add: cmd_defs)

lemma decode_framed:
  assumes us: "us \<noteq> []" "concat us = framed ep cmd (bitblt_bytes pkt) (image_stream rle pixels)"
    "\<forall>u \<in> set (butlast us). length u mod ep = 0"
    and ep: "10 < ep"
    and cmd: "cmd_flag (bitblt_header pkt) AND RPUSBDISP_CMD_MASK = RPUSBDISP_DISPCMD_BITBLT_RLE \<longleftrightarrow> rle"
  shows "decode_bitblt ep us = Some (pkt, pixels)"
    and "\<exists>n. device_headers ep us = cmd_flag (bitblt_header pkt) # replicate n cmd"
proof -
  have split: "us = butlast us @ [last us]"
    using us(1) by simp
  have hdr: "0 < length (bitblt_bytes pkt)" "length (bitblt_bytes pkt) < ep"
    using ep by simp_all
  have "device_payload ep us = packet_payload ep (concat us)" "device_headers ep us = packet_headers ep (concat us)"
    using packet_concat [OF us(3), of "last us"] unfolding device_payload_def device_headers_def
    by (subst (1 2) split; simp)+
  then have payload: "device_payload ep us = tl (bitblt_bytes pkt) @ image_stream rle pixels"
    and headers: "\<exists>n. device_headers ep us = hd (bitblt_bytes pkt) # replicate n cmd"
    using framed_payload [OF hdr] framed_headers [OF hdr] us(2) by simp_all
  obtain t where first: "bitblt_bytes pkt = cmd_flag (bitblt_header pkt) # t"
    by (simp add: packet_bytes_defs)
  show "\<exists>n. device_headers ep us = cmd_flag (bitblt_header pkt) # replicate n cmd"
    using headers by (simp add: first)
  have "hd (device_headers ep us) # device_payload ep us = bitblt_bytes pkt @ image_stream rle pixels"
    using headers payload by (auto simp: first)
  moreover have "rle_decode (length (image_stream rle pixels)) (image_stream rle pixels) = map cpu_to_le16 pixels" if rle
    using that by (simp add: image_stream_def rle_round_trip)
  ultimately show "decode_bitblt ep us = Some (pkt, pixels)"
    using cmd by (auto simp: decode_bitblt_def image_stream_def)
qed

subsection \<open>The operation as a whole\<close>

text \<open>\<open>L\<close> are tickets that are neither free nor in flight nor the sender's own.\<close>

definition device_ready :: "tid list \<Rightarrow> st \<Rightarrow> bool" where
  "device_ready L s \<longleftrightarrow> pool_inv L s \<and> 10 < ep_size s \<and> 0 < factor s"

text \<open>A rectangle inside a framebuffer whose indices are in the range of \<^verbatim>\<open>int\<close>.\<close>

definition rect_inside :: "u16 list \<Rightarrow> int \<Rightarrow> int \<Rightarrow> int \<Rightarrow> int \<Rightarrow> int \<Rightarrow> bool" where
  "rect_inside framebuffer x y right' bottom' line_width \<longleftrightarrow>
     0 \<le> x \<and> x \<le> right' \<and> right' < line_width \<and> 0 \<le> y \<and> y \<le> bottom'
   \<and> (bottom' + 1) * line_width \<le> int (length framebuffer) \<and> length framebuffer < 1073741824"

definition rect_pixels :: "int \<Rightarrow> int \<Rightarrow> int \<Rightarrow> int \<Rightarrow> nat" where
  "rect_pixels x y right' bottom' = nat (bottom' - y + 1) * nat (right' - x + 1)"

definition rle_supported :: "st \<Rightarrow> bool" where
  "rle_supported s \<longleftrightarrow> device_fwver (dv s) \<ge> RP_DISP_FEATURE_RLE_FWVERSION"

lemma rect_inside_arith:
  assumes "rect_inside framebuffer x y right' bottom' line_width"
  shows "size_t (c_int (c_int (c_int (right' - x + 1) * c_int (bottom' - y + 1)) * (RP_DISP_DEFAULT_PIXEL_BITS div 8)))
      = 2 * rect_pixels x y right' bottom'"
    and "c_int (c_int (y * line_width) + x) = y * line_width + x"
    and "c_int (line_width - right' - 1 + x) = line_width - right' - 1 + x"
    and "0 < rect_pixels x y right' bottom'" "rect_pixels x y right' bottom' < 1073741824"
proof -
  define w h where "w = right' - x + 1" and "h = bottom' - y + 1"
  have wh: "0 < w" "w \<le> line_width" "0 < h" "h \<le> bottom' + 1" "0 \<le> x" "x < line_width" "0 \<le> y" "y \<le> bottom'"
    and len: "(bottom' + 1) * line_width < 1073741824"
    using assms by (auto simp: rect_inside_def w_def h_def)
  have "w * h \<le> line_width * (bottom' + 1)"
    using wh by (intro mult_mono) simp_all
  then have area: "w * h < 1073741824"
    using len by (simp add: mult.commute)
  have "1 * line_width \<le> (bottom' + 1) * line_width"
    using wh by (intro mult_right_mono) simp_all
  then have small: "line_width < 1073741824"
    using len by linarith
  have "(bottom' + 1) * 1 \<le> (bottom' + 1) * line_width"
    using wh by (intro mult_left_mono) simp_all
  from le_less_trans [OF this len] have small': "bottom' + 1 < 1073741824"
    by simp
  have pos: "0 < w * h"
    using wh by simp
  have pixels: "int (rect_pixels x y right' bottom') = w * h"
    using wh by (simp add: rect_pixels_def w_def h_def mult.commute)
  show "0 < rect_pixels x y right' bottom'" "rect_pixels x y right' bottom' < 1073741824"
    using pos area pixels by linarith+
  have "c_int w = w" "c_int h = h" "c_int (w * h) = w * h" "c_int (w * h * 2) = w * h * 2"
    using wh small small' area pos by (intro c_int_id; linarith)+
  moreover have "size_t (w * h * 2) = 2 * rect_pixels x y right' bottom'"
    using pos area pixels by (subst size_t_id) linarith+
  ultimately show "size_t (c_int (c_int (c_int (right' - x + 1) * c_int (bottom' - y + 1)) * (RP_DISP_DEFAULT_PIXEL_BITS div 8)))
      = 2 * rect_pixels x y right' bottom'"
    unfolding w_def [symmetric] h_def [symmetric] by (simp add: RP_DISP_DEFAULT_PIXEL_BITS_def)
  have "0 \<le> y * line_width" "y * line_width + line_width \<le> (bottom' + 1) * line_width"
    using wh mult_right_mono [of "y + 1" "bottom' + 1" line_width] by (simp_all add: distrib_right)
  moreover from le_less_trans [OF this(2) len] have "y * line_width + line_width < 1073741824" .
  ultimately have "c_int (y * line_width) = y * line_width" "c_int (y * line_width + x) = y * line_width + x"
    using wh by (intro c_int_id; linarith)+
  then show "c_int (c_int (y * line_width) + x) = y * line_width + x"
    by simp
  show "c_int (line_width - right' - 1 + x) = line_width - right' - 1 + x"
    using wh small by (intro c_int_id; simp add: w_def)
qed

text \<open>The payload of the image, put through the encoder that the firmware calls for.\<close>

lemma payload_phase:
  fixes hcd :: hcd
  assumes rect: "rect_inside framebuffer x y right' bottom' line_width"
  defines "rows \<equiv> nat (bottom' - y + 1)" and "cols \<equiv> nat (right' - x + 1)"
    and "skip \<equiv> line_width - right' - 1 + x" and "start \<equiv> y * line_width + x"
    and "put \<equiv> bitblt_encode_n_transfer_data hcd"
  shows "(if rle
          then kbind (continue_if
                 (send_rows (rle_compress_n_encode put) framebuffer cols skip rows start (rle_compress_init e))
                 (rle_flush_section put)) (\<lambda>(ok, c). Inr (ok, encoder_ctx c))
          else send_rows (\<lambda>px e. put e px) framebuffer cols skip rows start e)
       = put e (image_stream rle (region_pixels framebuffer x y right' bottom' line_width))"
proof -
  let ?px = "map cpu_to_le16 (region_pixels framebuffer x y right' bottom' line_width)"
  have r: "0 \<le> x" "x \<le> right'" "right' < line_width" "0 \<le> y" and n: "y + int rows - 1 = bottom'"
    and inside: "(y + int rows) * line_width \<le> int (length framebuffer)"
    using rect by (auto simp: rect_inside_def rows_def)
  have walk: "send_rows encode framebuffer cols skip rows start d = send_list encode ?px d" for encode and d :: 'd
    using send_rows_list [OF r inside, of encode d] by (simp only: n cols_def skip_def start_def)
  show ?thesis
  proof (cases rle)
    case True
    have "rle_run put (rle_compress_init e) (rle_bytes ?px) (Literal [])
        (continue_if (rle_encode_pixels put ?px (rle_compress_init e)) (rle_flush_section put))"
      unfolding put_def by (rule packets.rle_image_run)
    moreover have "encoder_ctx (rle_compress_init e) = e"
      by (simp add: rle_compress_init_def)
    ultimately show ?thesis
      using True by (auto simp: walk send_list_rle image_stream_def rle_run_def split: sum.splits prod.splits)
  next
    case False
    then show ?thesis
      unfolding walk by (simp add: put_def packets.send_list_put image_stream_def)
  qed
qed

text \<open>
  On a living device with enough tickets the operation is: put the image's stream into the bundle,
  then flush it or give the tickets back.
\<close>

definition image_packet :: "st \<Rightarrow> int \<Rightarrow> int \<Rightarrow> int \<Rightarrow> int \<Rightarrow> bool \<Rightarrow> rpusbdisp_disp_bitblt_packet_t" where
  "image_packet s x y right' bottom' clear_dirty =
     \<lparr>bitblt_header = \<lparr>cmd_flag =
        (if rle_supported s then RPUSBDISP_DISPCMD_BITBLT_RLE else RPUSBDISP_DISPCMD_BITBLT)
        OR RPUSBDISP_CMD_FLAG_START OR (if clear_dirty then RPUSBDISP_CMD_FLAG_CLEARDITY else 0)\<rparr>,
      bitblt_x = word_of_int x, bitblt_y = word_of_int y, bitblt_width = word_of_int (right' + 1 - x),
      bitblt_height = word_of_int (bottom' + 1 - y), bitblt_operation = RPUSBDISP_OPERATION_COPY\<rparr>"

lemma bitblt_command_image:
  "rlemode ctx = rle_supported s \<Longrightarrow>
   bitblt_command ctx x y right' bottom' cd = image_packet s x y right' bottom' cd"
  by (simp add: bitblt_command_def image_packet_def bitblt_cmd_def Let_def or.assoc)

definition tickets_suffice :: "st \<Rightarrow> nat \<Rightarrow> bool" where
  "tickets_suffice s pixels \<longleftrightarrow> is_alive (dv s) \<and>
     worst_payload (rle_supported s) pixels \<le> length (free_tickets s) * (factor s * (ep_size s - 1))"

text \<open>
  The number of tickets the driver buys, the number that the stream fills, and the images whose
  stream takes the tickets bought for it to the last byte: it is as long as the estimate, and the
  estimate is a multiple of what a ticket carries.
\<close>

definition ticket_payload :: "st \<Rightarrow> nat" where
  "ticket_payload s = factor s * (ep_size s - 1)"

definition image_payload :: "st \<Rightarrow> u16 list \<Rightarrow> int \<Rightarrow> int \<Rightarrow> int \<Rightarrow> int \<Rightarrow> int \<Rightarrow> nat" where
  "image_payload s framebuffer x y right' bottom' line_width =
     9 + length (image_stream (rle_supported s) (region_pixels framebuffer x y right' bottom' line_width))"

definition image_estimate :: "st \<Rightarrow> int \<Rightarrow> int \<Rightarrow> int \<Rightarrow> int \<Rightarrow> nat" where
  "image_estimate s x y right' bottom' = worst_payload (rle_supported s) (rect_pixels x y right' bottom')"

definition tickets_bought :: "st \<Rightarrow> int \<Rightarrow> int \<Rightarrow> int \<Rightarrow> int \<Rightarrow> nat" where
  "tickets_bought s x y right' bottom' =
     (image_estimate s x y right' bottom' + ticket_payload s - 1) div ticket_payload s"

definition exact_fill :: "st \<Rightarrow> u16 list \<Rightarrow> int \<Rightarrow> int \<Rightarrow> int \<Rightarrow> int \<Rightarrow> int \<Rightarrow> bool" where
  "exact_fill s framebuffer x y right' bottom' line_width \<longleftrightarrow>
     image_payload s framebuffer x y right' bottom' line_width = image_estimate s x y right' bottom'
   \<and> ticket_payload s dvd image_estimate s x y right' bottom'"

lemma image_payload_le: "image_payload s framebuffer x y right' bottom' line_width \<le> image_estimate s x y right' bottom'"
  using length_image_stream [of "rle_supported s" "region_pixels framebuffer x y right' bottom' line_width"]
  by (simp add: image_payload_def image_estimate_def length_region_pixels rect_pixels_def)

lemma tickets_bought_eq:
  assumes "image_estimate s x y right' bottom' \<le> N * ticket_payload s"
    and "N * ticket_payload s < image_estimate s x y right' bottom' + ticket_payload s"
  shows "tickets_bought s x y right' bottom' = N"
  unfolding tickets_bought_def
  using assms by (intro div_nat_eqI) (simp_all add: mult.commute)

lemma exact_fill_iff:
  assumes "image_estimate s x y right' bottom' \<le> N * ticket_payload s"
    and "N * ticket_payload s < image_estimate s x y right' bottom' + ticket_payload s"
  shows "exact_fill s framebuffer x y right' bottom' line_width
    \<longleftrightarrow> image_payload s framebuffer x y right' bottom' line_width = N * ticket_payload s"
proof
  assume "exact_fill s framebuffer x y right' bottom' line_width"
  then have eq: "image_payload s framebuffer x y right' bottom' line_width = image_estimate s x y right' bottom'"
    and dvd: "ticket_payload s dvd image_estimate s x y right' bottom'"
    by (simp_all add: exact_fill_def)
  obtain k where k: "image_estimate s x y right' bottom' = k * ticket_payload s"
    using dvd by (metis dvd_def mult.commute)
  then have "k * ticket_payload s \<le> N * ticket_payload s" "N * ticket_payload s < Suc k * ticket_payload s"
    using assms by (simp_all add: add.commute)
  then have "k = N"
    using mult_less_cancel2 [of N "ticket_payload s" "Suc k"] by auto
  then show "image_payload s framebuffer x y right' bottom' line_width = N * ticket_payload s"
    using eq k by simp
next
  assume "image_payload s framebuffer x y right' bottom' line_width = N * ticket_payload s"
  moreover from this have "image_estimate s x y right' bottom' = N * ticket_payload s"
    using assms(1) image_payload_le [of s framebuffer x y right' bottom' line_width] by simp
  ultimately show "exact_fill s framebuffer x y right' bottom' line_width"
    by (simp add: exact_fill_def)
qed

lemma try_send_image_start:
  fixes hcd :: hcd and clear_dirty :: bool
  assumes ready: "device_ready L s"
    and rect: "rect_inside framebuffer x y right' bottom' line_width"
  defines "P \<equiv> rect_pixels x y right' bottom'" and "rle \<equiv> rle_supported s"
    and "stream \<equiv> image_stream (rle_supported s) (region_pixels framebuffer x y right' bottom' line_width)"
    and "hdr \<equiv> bitblt_bytes (image_packet s x y right' bottom' clear_dirty)"
  obtains N e where
    "rpusbdisp_usb_try_send_image hcd framebuffer x y right' bottom' line_width clear_dirty s =
     (if tickets_suffice s P
      then kbind (bitblt_encode_n_transfer_data hcd e stream) (\<lambda>(ok, e2).
             if ok then kbind (bitblt_encoder_flush hcd e2) (\<lambda>(sent, s2). Inr (if sent then 1 else 0, s2))
             else Inr (0, bitblt_encoder_cleanup e2))
      else Inr (0, s))"
    "tickets_suffice s P \<Longrightarrow> enc_inv L hdr rle N s e []"
    "worst_payload rle P \<le> N * (factor s * (ep_size s - 1))"
    "N * (factor s * (ep_size s - 1)) < worst_payload rle P + factor s * (ep_size s - 1)"
proof -
  let ?run = "rpusbdisp_usb_try_send_image hcd framebuffer x y right' bottom' line_width clear_dirty s"
  let ?K = "factor s * (ep_size s - 1)"
  note arith = rect_inside_arith [OF rect, folded P_def]
  have inv: "pool_inv L s" and ep: "10 < ep_size s" "0 < factor s"
    using ready by (auto simp: device_ready_def)
  have cap: "factor s * ep_size s \<le> RPUSBDISP_MAX_TRANSFER_SIZE"
    by (rule pool_invD(6) [OF inv])
  obtain N where N: "required_tickets (ep_size s) (factor s) (2 * P) rle = Inr N" "0 < N"
    "worst_payload rle P \<le> N * ?K" "N * ?K < worst_payload rle P + ?K"
    using required_tickets_ok [OF ep cap arith(5), of rle] unfolding mult.assoc by blast
  obtain s1 where init: "bitblt_encoder_init (2 * P) rle s =
      Inr (if is_alive (dv s) \<and> 0 < N \<and> N \<le> length (free_tickets s)
           then (Some \<lparr>enc_ticket = hd (free_tickets s), current_node = take N (free_tickets s), encoded_pos = 0,
                      packet_pos = 0, urbbuffer = 0, rlemode = rle\<rparr>, s1)
           else (None, s))"
    and s1: "N \<le> length (free_tickets s) \<Longrightarrow> pool_inv (take N (free_tickets s) @ L) s1"
      "N \<le> length (free_tickets s) \<Longrightarrow> full_length (take N (free_tickets s)) s1"
      "stable s1 = stable s" "usb_log s1 = usb_log s"
    using bitblt_encoder_init_ok [OF inv N(1)] by blast
  have rle_if: "(device_fwver (dv s) \<ge> RP_DISP_FEATURE_RLE_FWVERSION) = rle"
    by (simp add: rle_def rle_supported_def)
  have suffice: "is_alive (dv s) \<and> N \<le> length (free_tickets s) \<longleftrightarrow> tickets_suffice s P"
  proof -
    have "worst_payload rle P \<le> n * ?K \<longleftrightarrow> N \<le> n" for n
    proof
      assume "N \<le> n"
      then have "N * ?K \<le> n * ?K" by (rule mult_right_mono) simp
      then show "worst_payload rle P \<le> n * ?K" using N(3) by linarith
    next
      assume "worst_payload rle P \<le> n * ?K"
      then have "N * ?K < Suc n * ?K" using N(4) by simp
      then show "N \<le> n" using mult_less_cancel2 less_Suc_eq_le by blast
    qed
    then show ?thesis
      by (simp add: tickets_suffice_def rle_def)
  qed
  show thesis
  proof (cases "tickets_suffice s P")
    case False
    then have "?run = Inr (0, s)"
      using arith(4) init N(2) suffice by (auto simp: rpusbdisp_usb_try_send_image_def arith(1) rle_if Let_def)
    then show thesis
      using False N(3,4) by (intro that [of undefined N]) simp_all
  next
    case True
    then have free: "is_alive (dv s)" "N \<le> length (free_tickets s)"
      using suffice by blast+
    then obtain t ts where ts: "take N (free_tickets s) = t # ts" "hd (free_tickets s) = t" "Suc (length ts) = N"
      using N(2) by (cases "free_tickets s"; cases N) auto
    define ctx where "ctx = \<lparr>enc_ticket = t, current_node = t # ts, encoded_pos = 0, packet_pos = 0,
      urbbuffer = 0, rlemode = rle\<rparr>"
    have pkt: "bitblt_command ctx x y right' bottom' clear_dirty = image_packet s x y right' bottom' clear_dirty"
      by (rule bitblt_command_image) (simp add: ctx_def rle_def)
    have size1: "10 < ep_size s1" "0 < factor s1"
      using ep stable_facts [OF s1(3)] by simp_all
    obtain e where e: "bitblt_encode_command_header x y right' bottom' clear_dirty (ctx, s1) = Inr e"
      "enc_inv L hdr rle N s e []"
      using bitblt_encode_command_header_ok [OF _ _ size1 s1(3,4), of t ts L x y right' bottom' clear_dirty rle]
        s1(1,2) free ts(1,3) unfolding ctx_def [symmetric] pkt hdr_def by auto
    have "?run = kbind (bitblt_encode_n_transfer_data hcd e stream) (\<lambda>(ok, e2).
        if ok then kbind (bitblt_encoder_flush hcd e2) (\<lambda>(sent, s2). Inr (if sent then 1 else 0, s2))
        else Inr (0, bitblt_encoder_cleanup e2))"
      using arith(4) init N(2) free e(1) ts(1,2)
        payload_phase [OF rect, of rle hcd e, folded stream_def [folded rle_def]]
      by (simp add: rpusbdisp_usb_try_send_image_def arith(1-3) rle_if Let_def ctx_def)
    then show thesis
      using True N(3,4) e(2) by (intro that [of e N]) simp_all
  qed
qed

text \<open>
  Every outcome: the operation declines without touching anything, or it is stopped by a refused
  submission, or it sends the image, or it hits the \<^verbatim>\<open>BUG_ON\<close> of a bundle that
  is full.
\<close>

lemma try_send_image_cases:
  fixes hcd :: hcd
  assumes ready: "device_ready L s"
    and rect: "rect_inside framebuffer x y right' bottom' line_width"
  obtains (declined) 
      "rpusbdisp_usb_try_send_image hcd framebuffer x y right' bottom' line_width clear_dirty s = Inr (0, s)"
      "\<not> tickets_suffice s (rect_pixels x y right' bottom')"
  | (aborted) s' us u where
      "rpusbdisp_usb_try_send_image hcd framebuffer x y right' bottom' line_width clear_dirty s = Inr (0, s')"
      "pool_inv L s'" "stable s' = stable s" "refused_log hcd s us u s'"
  | (lost) s' us u H where
      "rpusbdisp_usb_try_send_image hcd framebuffer x y right' bottom' line_width clear_dirty s = Inr (0, s')"
      "pool_inv (H @ L) s'" "stable s' = stable s" "refused_log hcd s us u s'"
      "length us = image_payload s framebuffer x y right' bottom' line_width div ticket_payload s"
      "Suc (length us + length H) = tickets_bought s x y right' bottom'"
  | (sent) s' us where
      "rpusbdisp_usb_try_send_image hcd framebuffer x y right' bottom' line_width clear_dirty s = Inr (1, s')"
      "pool_inv L s'" "stable s' = stable s" "usb_log s' = usb_log s @ map accepted us"
      "decode_bitblt (ep_size s) us = Some (image_packet s x y right' bottom' clear_dirty,
         region_pixels framebuffer x y right' bottom' line_width)"
      "\<exists>n. device_headers (ep_size s) us = cmd_flag (bitblt_header (image_packet s x y right' bottom' clear_dirty))
         # replicate n (if rle_supported s then RPUSBDISP_DISPCMD_BITBLT_RLE else RPUSBDISP_DISPCMD_BITBLT)"
      "tickets_suffice s (rect_pixels x y right' bottom')"
      "\<not> exact_fill s framebuffer x y right' bottom' line_width"
  | (stuck)
      "rpusbdisp_usb_try_send_image hcd framebuffer x y right' bottom' line_width clear_dirty s = Inl BugOn"
      "tickets_suffice s (rect_pixels x y right' bottom')"
      "exact_fill s framebuffer x y right' bottom' line_width"
proof -
  define rle where "rle = rle_supported s"
  define P where "P = rect_pixels x y right' bottom'"
  define px where "px = region_pixels framebuffer x y right' bottom' line_width"
  define pkt where "pkt = image_packet s x y right' bottom' clear_dirty"
  let ?run = "rpusbdisp_usb_try_send_image hcd framebuffer x y right' bottom' line_width clear_dirty s"
  let ?stream = "image_stream rle px" and ?hdr = "bitblt_bytes pkt" and ?K = "factor s * (ep_size s - 1)"
  have ep: "10 < ep_size s"
    using ready by (simp add: device_ready_def)
  obtain N e where start: "?run = (if tickets_suffice s P
      then kbind (bitblt_encode_n_transfer_data hcd e ?stream) (\<lambda>(ok, e2).
             if ok then kbind (bitblt_encoder_flush hcd e2) (\<lambda>(sent, s2). Inr (if sent then 1 else 0, s2))
             else Inr (0, bitblt_encoder_cleanup e2))
      else Inr (0, s))"
    and inv0: "tickets_suffice s P \<Longrightarrow> enc_inv L ?hdr rle N s e []"
    and N: "worst_payload rle P \<le> N * ?K" "N * ?K < worst_payload rle P + ?K"
    using try_send_image_start [OF ready rect, where hcd = hcd and clear_dirty = clear_dirty]
    unfolding rle_def P_def px_def pkt_def by blast
  have bought: "tickets_bought s x y right' bottom' = N"
    using N by (intro tickets_bought_eq) (simp_all add: image_estimate_def ticket_payload_def rle_def P_def)
  have exact: "exact_fill s framebuffer x y right' bottom' line_width \<longleftrightarrow> 9 + length ?stream = N * ?K"
    using exact_fill_iff [of s x y right' bottom' N framebuffer line_width] N
    by (simp add: image_payload_def image_estimate_def ticket_payload_def rle_def P_def px_def)
  show thesis
  proof (cases "tickets_suffice s P")
    case False
    then show thesis
      using declined start by (simp add: P_def)
  next
    case True
    have fits: "9 + length ?stream \<le> N * ?K"
      using N(1) length_image_stream [of rle px]
      by (simp add: px_def length_region_pixels P_def rect_pixels_def)
    show thesis
    proof (cases rule: put_stream [OF inv0 [OF True] _ ep fits, where hcd = hcd])
      case 1
      then show ?case by simp
    next
      case 3
      then show thesis
        using stuck exact True start by (simp add: P_def)
    next
      case (2 ok e2)
      note e2 = this
      have enough: "tickets_suffice s (rect_pixels x y right' bottom')"
        using True by (simp add: P_def)
      have run: "?run = (if ok then kbind (bitblt_encoder_flush hcd e2) (\<lambda>(sent, s2). Inr (if sent then 1 else 0, s2))
          else Inr (0, bitblt_encoder_cleanup e2))"
        using True by (simp add: start e2(1))
      show thesis
      proof (cases ok)
        case False
        then have ab: "enc_aborted L hcd s e2"
          using e2(2) by simp
        then obtain us u where "refused_log hcd s us u (snd e2)"
          by (cases e2) (auto simp: enc_aborted_def)
        then show thesis
          using aborted [of "bitblt_encoder_cleanup e2" us u] run False bitblt_encoder_cleanup_ok [OF ab]
          by (simp add: refused_log_def Let_def)
      next
        case True
        obtain ctx2 s2 where e2': "e2 = (ctx2, s2)" by (cases e2)
        have inv2: "enc_inv L ?hdr rle N s (ctx2, s2) ?stream"
          using e2(2) True by (simp add: e2')
        note same = enc_inv_stable [OF inv2]
        have not_full: "\<not> exact_fill s framebuffer x y right' bottom' line_width"
          using enc_inv_not_full [OF inv2 _ ep] by (simp add: exact)
        show thesis
        proof (cases rule: bitblt_encoder_flush_ok [OF inv2, where hcd = hcd])
          case (1 s' us)
          have "\<forall>u \<in> set (butlast us). length u mod ep_size s = 0"
            using 1(7) same by simp
          moreover have "concat us = framed (ep_size s)
              (if rle then RPUSBDISP_DISPCMD_BITBLT_RLE else RPUSBDISP_DISPCMD_BITBLT) ?hdr ?stream"
            using 1(6) same cmd_rle [OF inv2] by simp
          moreover have "cmd_flag (bitblt_header pkt) AND RPUSBDISP_CMD_MASK = RPUSBDISP_DISPCMD_BITBLT_RLE \<longleftrightarrow> rle"
            by (simp add: pkt_def rle_def image_packet_def cmd_defs)
          ultimately have "decode_bitblt (ep_size s) us = Some (pkt, px)"
            "\<exists>n. device_headers (ep_size s) us = cmd_flag (bitblt_header pkt)
               # replicate n (if rle then RPUSBDISP_DISPCMD_BITBLT_RLE else RPUSBDISP_DISPCMD_BITBLT)"
            using decode_framed [OF 1(5) _ _ ep] by blast+
          then show thesis
            using 1 run True e2' enough not_full by (intro sent [of s' us]) (simp_all add: pkt_def px_def rle_def)
        next
          case (2 s' us u)
          show thesis
          proof (rule lost [of s' "tl (current_node ctx2)" us u])
          note sent = enc_inv_sent(1,2) [OF inv2 _ ep]
          show payload: "length us = image_payload s framebuffer x y right' bottom' line_width div ticket_payload s"
            using sent(2) 2(5) by (simp add: image_payload_def ticket_payload_def px_def rle_def)
          have "current_node ctx2 \<noteq> []"
            using inv2 by (auto simp: enc_inv_def)
          then show "Suc (length us + length (tl (current_node ctx2))) = tickets_bought s x y right' bottom'"
            using sent(1) bought by (cases "current_node ctx2")
              (simp_all add: payload image_payload_def ticket_payload_def px_def rle_def)
        qed (use 2 run True e2' in simp_all)
        qed
      qed
    qed
  qed
qed

subsection \<open>A refused flush\<close>

text \<open>
  The controller accepts the tickets that the stream fills and refuses the next one, which is the one
  that the flush submits: of the tickets bought, those never used are nobody's afterwards.
\<close>

lemma try_send_image_lost:
  fixes hcd :: hcd
  assumes ready: "device_ready L s"
    and rect: "rect_inside framebuffer x y right' bottom' line_width"
    and enough: "tickets_suffice s (rect_pixels x y right' bottom')"
    and short: "image_payload s framebuffer x y right' bottom' line_width div ticket_payload s = sent"
      "sent < tickets_bought s x y right' bottom'"
    and accept: "\<And>log bytes. length log < length (usb_log s) + sent \<Longrightarrow> reply_rc (hcd log bytes) = 0"
    and refuse: "\<And>log bytes. length log = length (usb_log s) + sent \<Longrightarrow> reply_rc (hcd log bytes) \<noteq> 0"
  obtains s' H where
      "rpusbdisp_usb_try_send_image hcd framebuffer x y right' bottom' line_width clear_dirty s = Inr (0, s')"
      "pool_inv (H @ L) s'" "stable s' = stable s"
      "Suc (sent + length H) = tickets_bought s x y right' bottom'"
proof -
  let ?run = "rpusbdisp_usb_try_send_image hcd framebuffer x y right' bottom' line_width clear_dirty s"
  let ?hdr = "bitblt_bytes (image_packet s x y right' bottom' clear_dirty)"
  let ?stream = "image_stream (rle_supported s) (region_pixels framebuffer x y right' bottom' line_width)"
  let ?K = "factor s * (ep_size s - 1)"
  have ep: "10 < ep_size s" and K: "0 < ?K"
    using ready by (simp_all add: device_ready_def)
  obtain N e where "?run = (if tickets_suffice s (rect_pixels x y right' bottom')
      then kbind (bitblt_encode_n_transfer_data hcd e ?stream) (\<lambda>(ok, e2).
             if ok then kbind (bitblt_encoder_flush hcd e2) (\<lambda>(sent, s2). Inr (if sent then 1 else 0, s2))
             else Inr (0, bitblt_encoder_cleanup e2))
      else Inr (0, s))"
    and inv0: "tickets_suffice s (rect_pixels x y right' bottom') \<Longrightarrow> enc_inv L ?hdr (rle_supported s) N s e []"
    and N: "worst_payload (rle_supported s) (rect_pixels x y right' bottom') \<le> N * ?K"
      "N * ?K < worst_payload (rle_supported s) (rect_pixels x y right' bottom') + ?K"
    using try_send_image_start [OF ready rect, where hcd = hcd and clear_dirty = clear_dirty] by blast
  note inv0 = inv0 [OF enough]
  have start: "?run = kbind (bitblt_encode_n_transfer_data hcd e ?stream) (\<lambda>(ok, e2).
             if ok then kbind (bitblt_encoder_flush hcd e2) (\<lambda>(sent, s2). Inr (if sent then 1 else 0, s2))
             else Inr (0, bitblt_encoder_cleanup e2))"
    using enough \<open>?run = _\<close> by (simp only: if_True)
  have bought: "tickets_bought s x y right' bottom' = N"
    using N by (intro tickets_bought_eq) (simp_all add: image_estimate_def ticket_payload_def)
  have payload: "(9 + length ?stream) div ?K = sent" "sent < N"
    using short bought by (simp_all add: image_payload_def ticket_payload_def)
  then have fits: "9 + length ?stream < N * ?K"
    using K div_less_iff_less_mult [of ?K "9 + length ?stream" N] by blast
  obtain e2 where e2: "bitblt_encode_n_transfer_data hcd e ?stream = Inr (True, e2)"
    "enc_inv L ?hdr (rle_supported s) N s e2 ?stream"
    using put_accepted [OF inv0 _ ep fits, of hcd] accept payload(1) by auto
  obtain ctx2 s2 where e2': "e2 = (ctx2, s2)" by (cases e2)
  note inv2 = e2(2) [unfolded e2']
  have sent: "sent + length (current_node ctx2) = N" "length (usb_log s2) = length (usb_log s) + sent"
    using enc_inv_sent(1,2) [OF inv2 _ ep] payload(1) by simp_all
  show thesis
  proof (cases rule: bitblt_encoder_flush_ok [OF inv2, where hcd = hcd])
    case (1 s' us)
    have "reply_rc (hcd (usb_log s2) (last us)) = 0"
      using 1(8,9) by simp
    then show thesis
      using refuse [OF sent(2)] by simp
  next
    case (2 s' us u)
    have "current_node ctx2 \<noteq> []"
      using inv2 by (auto simp: enc_inv_def)
    then have "Suc (sent + length (tl (current_node ctx2))) = tickets_bought s x y right' bottom'"
      using sent(1) bought by (cases "current_node ctx2") simp_all
    then show thesis
      by (intro that [of s' "tl (current_node ctx2)"]) (use 2 start e2 e2' in simp_all)
  qed
qed

subsection \<open>Images that fill their tickets exactly\<close>

lemma try_send_image_full:
  fixes hcd :: hcd
  assumes ready: "device_ready L s"
    and rect: "rect_inside framebuffer x y right' bottom' line_width"
    and enough: "tickets_suffice s (rect_pixels x y right' bottom')"
    and exact: "exact_fill s framebuffer x y right' bottom' line_width"
    and accept: "\<And>log bytes. reply_rc (hcd log bytes) = 0"
  shows "rpusbdisp_usb_try_send_image hcd framebuffer x y right' bottom' line_width clear_dirty s = Inl BugOn"
  by (rule try_send_image_cases [OF ready rect, where hcd = hcd and clear_dirty = clear_dirty])
    (use enough exact accept in \<open>auto simp: refused_log_def Let_def\<close>)

end
