(* ===== verification/Rect_Commands.thy ===== *)
theory Rect_Commands
  imports Bitblt_Correct
begin

text \<open>
  The two commands that fit in one packet: \<^verbatim>\<open>rpusbdisp_usb_try_draw_rect\<close> and
  \<^verbatim>\<open>rpusbdisp_usb_try_copy_area\<close>. Each buys one ticket, writes the command at the start
  of its buffer, sets the transfer length and submits.
\<close>

subsection \<open>The operations\<close>

definition send_single_packet :: "hcd \<Rightarrow> u8 list \<Rightarrow> nat \<Rightarrow> st \<Rightarrow> fault + (int \<times> st)" where
  "send_single_packet hcd command transfer_length s =
     kbind (sell_disp_tickets 1 s) (\<lambda>(ans, ticket_list, s1).
       if ans = 0 then Inr (0, s1)
       else if length command > ep_size s1 then Inl BugOn
       else (case ticket_list of
               [] \<Rightarrow> Inl ListCorrupt
             | ticket # _ \<Rightarrow>
                 kbind (urb_write ticket 0 command s1) (\<lambda>s2.
                 kbind (set_transfer_length ticket transfer_length s2) (\<lambda>s3.
                 kbind (usb_submit_urb hcd ticket s3) (\<lambda>(rc, s4).
                   if rc \<noteq> 0
                   then kbind (on_display_transfer_finished ticket s4) (\<lambda>s5. Inr (0, s5))
                   else Inr (1, s4))))))"

definition copyarea_command :: "int \<Rightarrow> int \<Rightarrow> int \<Rightarrow> int \<Rightarrow> int \<Rightarrow> int \<Rightarrow> rpusbdisp_disp_copyarea_packet_t" where
  "copyarea_command sx sy dx dy width height =
     \<lparr>copyarea_header = \<lparr>cmd_flag = RPUSBDISP_DISPCMD_COPY_AREA OR RPUSBDISP_CMD_FLAG_START\<rparr>,
      copyarea_sx = word_of_int sx, copyarea_sy = word_of_int sy, copyarea_dx = word_of_int dx,
      copyarea_dy = word_of_int dy, copyarea_width = word_of_int width,
      copyarea_height = word_of_int height\<rparr>"

text \<open>One more byte is sent than the packet has, whatever the buffer holds there.\<close>

definition rpusbdisp_usb_try_copy_area :: "hcd \<Rightarrow> int \<Rightarrow> int \<Rightarrow> int \<Rightarrow> int \<Rightarrow> int \<Rightarrow> int \<Rightarrow> st
    \<Rightarrow> fault + (int \<times> st)" where
  "rpusbdisp_usb_try_copy_area hcd sx sy dx dy width height s =
     send_single_packet hcd (copyarea_bytes (copyarea_command sx sy dx dy width height)) (13 + 1) s"

definition fillrect_command :: "int \<Rightarrow> int \<Rightarrow> int \<Rightarrow> int \<Rightarrow> u16 \<Rightarrow> u8 \<Rightarrow> rpusbdisp_disp_fillrect_packet_t" where
  "fillrect_command x y right' bottom' color operation =
     \<lparr>fillrect_header = \<lparr>cmd_flag = RPUSBDISP_DISPCMD_RECT OR RPUSBDISP_CMD_FLAG_START\<rparr>,
      fillrect_left = word_of_int x, fillrect_top = word_of_int y, fillrect_right = word_of_int right',
      fillrect_bottom = word_of_int bottom', fillrect_color_565 = color,
      fillrect_operation = operation\<rparr>"

definition rpusbdisp_usb_try_draw_rect :: "hcd \<Rightarrow> int \<Rightarrow> int \<Rightarrow> int \<Rightarrow> int \<Rightarrow> u16 \<Rightarrow> u8 \<Rightarrow> st
    \<Rightarrow> fault + (int \<times> st)" where
  "rpusbdisp_usb_try_draw_rect hcd x y right' bottom' color operation s =
     send_single_packet hcd (fillrect_bytes (fillrect_command x y right' bottom' color operation)) 12 s"

subsection \<open>Correctness\<close>

lemma set_transfer_length_ok:
  assumes inv: "pool_inv H s" and t: "t \<in> set H" "tickets s t = Some urb"
  obtains s' where "set_transfer_length t n s = Inr s'" "pool_inv H s'" "stable s' = stable s"
    "usb_log s' = usb_log s" "tickets s' t = Some (urb\<lparr>transfer_buffer_length := n\<rparr>)"
    "free_tickets s' = free_tickets s"
proof -
  define s' where "s' = s\<lparr>tickets := (tickets s)(t \<mapsto> urb\<lparr>transfer_buffer_length := n\<rparr>)\<rparr>"
  have st: "stable s' = stable s"
    by (simp add: s'_def)
  have "t \<notin> set (free_tickets s)"
    using inv t(1) by (auto simp: pool_inv_def)
  then have full: "full_length (free_tickets s') s'"
    using pool_invD(8) [OF inv] by (auto simp: full_length_def s'_def)
  have "pool_inv H s'"
  proof (rule pool_inv_rearrange [OF inv _ _ _ _ full st])
    show "dom (tickets s') = dom (tickets s)"
      using t(2) by (auto simp: s'_def)
    fix u urb' assume "tickets s' u = Some urb'"
    then show "length (transfer_buffer urb') = RPUSBDISP_MAX_TRANSFER_SIZE"
      using pool_invD(5) [OF inv, of u] pool_invD(5) [OF inv t(2)]
      by (auto simp: s'_def split: if_splits)
  qed (use pool_invD(1) [OF inv] in \<open>simp_all add: s'_def\<close>)
  then show thesis
    using st t(2) by (intro that [of s']) (simp_all add: set_transfer_length_def s'_def)
qed

text \<open>
  Every outcome of a single-packet command: no ticket is to be had; or the submission is refused
  and the ticket is free again; or one transfer is accepted that starts with the command.
\<close>

lemma send_single_packet_cases:
  fixes hcd :: hcd
  assumes inv: "pool_inv L s"
    and size: "length command \<le> ep_size s" "length command \<le> n" "n \<le> RPUSBDISP_MAX_TRANSFER_SIZE"
  obtains (declined) "send_single_packet hcd command n s = Inr (0, s)"
      "\<not> is_alive (dv s) \<or> free_tickets s = []"
  | (refused) s' u where "send_single_packet hcd command n s = Inr (0, s')" "pool_inv L s'"
      "stable s' = stable s" "refused_log hcd s [] u s'"
  | (sent) s' u where "send_single_packet hcd command n s = Inr (1, s')" "pool_inv L s'"
      "stable s' = stable s" "usb_log s' = usb_log s @ [accepted u]" "length u = n"
      "take (length command) u = command"
proof (cases "is_alive (dv s) \<and> free_tickets s \<noteq> []")
  case False
  then show thesis
    by (intro declined) (auto simp: send_single_packet_def sell_disp_tickets_char [OF inv] Suc_le_eq)
next
  case True
  then obtain t ts where ts: "free_tickets s = t # ts"
    by (cases "free_tickets s") auto
  define s1 where "s1 = pool_update (pool_list_update (\<lambda>l. drop 1 l))
    (pool_update (availiable_count_update (\<lambda>c. c - int 1)) s)"
  have sell: "sell_disp_tickets 1 s = Inr (1, [t], s1)"
    using True ts by (simp add: sell_disp_tickets_char [OF inv] s1_def)
  have inv1: "pool_inv (t # L) s1"
    using pool_inv_sold [OF inv, of 1] ts by (simp add: s1_def)
  have st1: "stable s1 = stable s" "usb_log s1 = usb_log s"
    unfolding s1_def by (simp_all only: stable_updates) simp
  obtain urb where urb: "tickets s1 t = Some urb"
    using pool_invD(4) [OF inv1, of t] by auto
  obtain s2 where s2: "urb_write t 0 command s1 = Inr s2" "pool_inv (t # L) s2" "stable s2 = stable s1"
    "usb_log s2 = usb_log s1"
    "tickets s2 = (tickets s1)(t \<mapsto> urb\<lparr>transfer_buffer := buf_put 0 command (transfer_buffer urb)\<rparr>)"
    by (rule urb_write_ok [OF inv1 _ urb, of 0 command]) (use size in auto)
  define urb2 where "urb2 = urb\<lparr>transfer_buffer := buf_put 0 command (transfer_buffer urb)\<rparr>"
  have urb2: "tickets s2 t = Some urb2"
    by (simp add: s2(5) urb2_def)
  obtain s3 where s3: "set_transfer_length t n s2 = Inr s3" "pool_inv (t # L) s3" "stable s3 = stable s2"
    "usb_log s3 = usb_log s2" "tickets s3 t = Some (urb2\<lparr>transfer_buffer_length := n\<rparr>)"
    by (rule set_transfer_length_ok [OF s2(2) _ urb2]) auto
  define u where "u = take n (transfer_buffer urb2)"
  have u: "length u = n" "take (length command) u = command"
    using size pool_invD(5) [OF s2(2) urb2] by (auto simp: u_def urb2_def buf_put_def min_def)
  define rc where "rc = reply_rc (hcd (usb_log s3) u)"
  have u': "take (transfer_buffer_length (urb2\<lparr>transfer_buffer_length := n\<rparr>))
      (transfer_buffer (urb2\<lparr>transfer_buffer_length := n\<rparr>)) = u"
    by (simp add: u_def)
  obtain s4 where s4: "usb_submit_urb hcd t s3 = Inr (rc, s4)" "stable s4 = stable s3"
    "usb_log s4 = usb_log s3 @ [\<lparr>xfer_bytes = u, xfer_rc = rc\<rparr>]"
    "pool_inv (if rc = 0 then L else t # L) s4"
    "rc \<noteq> 0 \<Longrightarrow> tickets s4 t = Some (urb2\<lparr>transfer_buffer_length := n, urb_status := reply_status (hcd (usb_log s3) u)\<rparr>)"
    by (rule usb_submit_urb_ok [OF s3(2,5), of hcd, unfolded u', folded rc_def]) (use size in auto)
  have len: "\<not> length command > ep_size s1"
    using size stable_facts(1) [OF st1(1)] by simp
  show thesis
  proof (cases "rc = 0")
    case True
    show thesis
      by (rule sent [of s4 u])
         (use True sell len s2 s3 s4 st1 u in \<open>simp_all add: send_single_packet_def accepted_def\<close>)
  next
    case False
    have inv4: "pool_inv (t # L) s4"
      using s4(4) False by simp
    obtain s5 where s5: "on_display_transfer_finished t s4 = Inr s5" "pool_inv L s5" "stable s5 = stable s4"
      "usb_log s5 = usb_log s4"
      by (rule on_display_transfer_finished_ok [OF inv4 s4(5) [OF False]]) blast
    show thesis
      by (rule refused [of s5 u])
         (use False sell len s2 s3 s4 s5 st1 in \<open>simp_all add: send_single_packet_def refused_log_def rc_def\<close>)
  qed
qed

end
