(* ===== verification/Framebuffer.thy ===== *)
theory Framebuffer
  imports Send_Image Rect_Commands
begin

text \<open>
  The drawing half of \<^verbatim>\<open>fbhandlers.c\<close>: the dirty rectangle,
  \<^verbatim>\<open>_display_update\<close> and the framebuffer operations that end in it, the flush when
  all transfers are done, and the binding of a device to the framebuffer. The state is that of the
  default framebuffer and of one device; a binding that is present is to that device.
\<close>

subsection \<open>The dirty rectangle\<close>

definition clear_dirty_rect :: "dirty_rect \<Rightarrow> dirty_rect" where
  "clear_dirty_rect rect =
     rect\<lparr>left := RP_DISP_DEFAULT_WIDTH, right := -1, top := RP_DISP_DEFAULT_HEIGHT, bottom := -1,
          dirty_flag := 0\<rparr>"

definition reset_fb_private :: "rpusbdisp_fb_private \<Rightarrow> rpusbdisp_fb_private" where
  "reset_fb_private pa =
     pa\<lparr>dirty_rect := clear_dirty_rect (dirty_rect pa), binded_usbdev := None, unsync_flag := 1\<rparr>"

abbreviation rect_of :: "st \<Rightarrow> dirty_rect" where
  "rect_of s \<equiv> dirty_rect (par (fb s))"

abbreviation rect_update :: "(dirty_rect \<Rightarrow> dirty_rect) \<Rightarrow> st \<Rightarrow> st" where
  "rect_update f \<equiv> private_update (dirty_rect_update f)"

text \<open>The union with a rectangle, and the whole screen.\<close>

definition merge_rect :: "int \<Rightarrow> int \<Rightarrow> int \<Rightarrow> int \<Rightarrow> dirty_rect \<Rightarrow> dirty_rect" where
  "merge_rect x y width height r =
     (let r = (if top r > y then r\<lparr>top := y\<rparr> else r);
          r = (if bottom r < c_int (height + y - 1) then r\<lparr>bottom := c_int (height + y - 1)\<rparr> else r);
          r = (if left r > x then r\<lparr>left := x\<rparr> else r)
      in if right r < c_int (width + x - 1) then r\<lparr>right := c_int (width + x - 1)\<rparr> else r)"

definition full_rect :: "fb_info \<Rightarrow> dirty_rect \<Rightarrow> dirty_rect" where
  "full_rect p r = r\<lparr>left := 0, right := sint (var_width p - 1), top := 0, bottom := sint (var_height p - 1)\<rparr>"

subsection \<open>Updating the display\<close>

record fb_fillrect =
  fr_dx :: u32
  fr_dy :: u32
  fr_width :: u32
  fr_height :: u32
  fr_color :: u32
  fr_rop :: u32

record fb_copyarea =
  ca_dx :: u32
  ca_dy :: u32
  ca_width :: u32
  ca_height :: u32
  ca_sx :: u32
  ca_sy :: u32

record fb_image =
  im_dx :: u32
  im_dy :: u32
  im_width :: u32
  im_height :: u32
  im_data :: "u8 list"

definition ROP_XOR :: u32 where "ROP_XOR = 1"

datatype display_update_hint =
    DISPLAY_UPDATE_HINT_NONE
  | DISPLAY_UPDATE_HINT_BITBLT
  | DISPLAY_UPDATE_HINT_FILLRECT fb_fillrect
  | DISPLAY_UPDATE_HINT_COPYAREA fb_copyarea

definition send_update :: "hcd \<Rightarrow> display_update_hint \<Rightarrow> bool \<Rightarrow> st \<Rightarrow> fault + (int \<times> st)" where
  "send_update hcd hint clear_dirty s =
     (case hint of
        DISPLAY_UPDATE_HINT_FILLRECT fillrt \<Rightarrow>
          rpusbdisp_usb_try_draw_rect hcd (sint (fr_dx fillrt)) (sint (fr_dy fillrt))
            (sint (fr_dx fillrt + fr_width fillrt - 1)) (sint (fr_dy fillrt + fr_height fillrt - 1))
            (ucast (fr_color fillrt))
            (if fr_rop fillrt = ROP_XOR then RPUSBDISP_OPERATION_XOR else RPUSBDISP_OPERATION_COPY) s
      | DISPLAY_UPDATE_HINT_COPYAREA copyarea \<Rightarrow>
          rpusbdisp_usb_try_copy_area hcd (sint (ca_sx copyarea)) (sint (ca_sy copyarea))
            (sint (ca_dx copyarea)) (sint (ca_dy copyarea)) (sint (ca_width copyarea))
            (sint (ca_height copyarea)) s
      | _ \<Rightarrow>
          rpusbdisp_usb_try_send_image hcd (smem (fb s)) (left (rect_of s)) (top (rect_of s))
            (right (rect_of s)) (bottom (rect_of s)) (sint (line_length (fb s) div 2)) clear_dirty s)"

definition display_update :: "hcd \<Rightarrow> int \<Rightarrow> int \<Rightarrow> int \<Rightarrow> int \<Rightarrow> display_update_hint \<Rightarrow> st \<Rightarrow> fault + st" where
  "display_update hcd x y width height hint s =
     (if binded_usbdev (par (fb s)) = None then Inr s
      else
        (let s1 = private_update (unsync_flag_update (\<lambda>c. c - 1)) s;
             clear_dirty = (unsync_flag (par (fb s1)) = 0);
             s2 = rect_update (if clear_dirty then full_rect (fb s) else merge_rect x y width height) s1
         in if top (rect_of s2) > bottom (rect_of s2) \<or> left (rect_of s2) > right (rect_of s2) then Inr s2
            else
              (let s3 = rect_update (dirty_flag_update (\<lambda>_. 1)) s2
               in kbind (send_update hcd hint clear_dirty s3) (\<lambda>(r, s4).
                    Inr (if r \<noteq> 0 then rect_update clear_dirty_rect s4 else s4)))))"

subsection \<open>The framebuffer operations\<close>

text \<open>
  The software drawing of the framebuffer core is code of the kernel: a parameter that computes the
  new contents of the screen memory.
\<close>

definition draw :: "(fb_info \<Rightarrow> 'a \<Rightarrow> u16 list) \<Rightarrow> 'a \<Rightarrow> st \<Rightarrow> st" where
  "draw sys_draw what s = fb_update (\<lambda>p. p\<lparr>smem := sys_draw p what\<rparr>) s"

definition display_fillrect :: "(fb_info \<Rightarrow> fb_fillrect \<Rightarrow> u16 list) \<Rightarrow> hcd \<Rightarrow> fb_fillrect \<Rightarrow> st \<Rightarrow> fault + st" where
  "display_fillrect sys_fillrect hcd rect s =
     display_update hcd (sint (fr_dx rect)) (sint (fr_dy rect)) (sint (fr_width rect)) (sint (fr_height rect))
       (DISPLAY_UPDATE_HINT_FILLRECT rect) (draw sys_fillrect rect s)"

definition display_imageblit :: "(fb_info \<Rightarrow> fb_image \<Rightarrow> u16 list) \<Rightarrow> hcd \<Rightarrow> fb_image \<Rightarrow> st \<Rightarrow> fault + st" where
  "display_imageblit sys_imageblit hcd img s =
     display_update hcd (sint (im_dx img)) (sint (im_dy img)) (sint (im_width img))
       (sint (im_height img)) DISPLAY_UPDATE_HINT_BITBLT (draw sys_imageblit img s)"

definition display_copyarea :: "(fb_info \<Rightarrow> fb_copyarea \<Rightarrow> u16 list) \<Rightarrow> hcd \<Rightarrow> fb_copyarea \<Rightarrow> st \<Rightarrow> fault + st" where
  "display_copyarea sys_copyarea hcd area s =
     display_update hcd (sint (ca_dx area)) (sint (ca_dy area)) (sint (ca_width area))
       (sint (ca_height area)) (DISPLAY_UPDATE_HINT_COPYAREA area) (draw sys_copyarea area s)"

text \<open>\<^verbatim>\<open>fb_sys_write\<close> answers a count or an error and writes the screen memory.\<close>

definition display_write :: "(fb_info \<Rightarrow> 'w \<Rightarrow> int \<times> u16 list) \<Rightarrow> hcd \<Rightarrow> 'w \<Rightarrow> st \<Rightarrow> fault + (int \<times> st)" where
  "display_write fb_sys_write hcd data s =
     (let retval = c_int (fst (fb_sys_write (fb s) data));
          s1 = draw (\<lambda>p d. snd (fb_sys_write p d)) data s
      in kbind (display_update hcd 0 0 (sint (var_width (fb s1))) (sint (var_height (fb s1)))
                  DISPLAY_UPDATE_HINT_NONE s1) (\<lambda>s2. Inr (retval, s2)))"

text \<open>The flush of pending modifications once all transfers are done.\<close>

definition fbhandler_on_all_transfer_done :: "hcd \<Rightarrow> st \<Rightarrow> fault + st" where
  "fbhandler_on_all_transfer_done hcd s =
     (if rpusbdisp_usb_get_fbhandle (dv s) = None then Inr s
      else if dirty_flag (rect_of s) \<noteq> 0 \<or> unsync_flag (par (fb s)) = 1
      then display_update hcd 0 0 RP_DISP_DEFAULT_WIDTH RP_DISP_DEFAULT_HEIGHT DISPLAY_UPDATE_HINT_NONE s
      else Inr s)"

text \<open>The delayed work that the completion handler schedules.\<close>

definition on_display_transfer_finished_delaywork :: "hcd \<Rightarrow> st \<Rightarrow> fault + st" where
  "on_display_transfer_finished_delaywork hcd s =
     (let s1 = pool_update (completion_work_update (\<lambda>_. False)) s
      in if \<not> is_alive (dv s1) then Inr s1 else fbhandler_on_all_transfer_done hcd s1)"

subsection \<open>Binding a device\<close>

definition fbhandler_on_new_device :: "dev_ptr \<Rightarrow> st \<Rightarrow> fault + (int \<times> st)" where
  "fbhandler_on_new_device dev s =
     (if default_fb s = None then Inl NullDeref
      else if binded_usbdev (par (fb s)) = None
      then Inr (0, dv_update (rpusbdisp_usb_set_fbhandle (default_fb s))
                    (private_update (binded_usbdev_update (\<lambda>_. Some dev)) s))
      else Inr (-1, s))"

text \<open>
  Unbinding. The driver creates no framebuffer but the default one, so the last branch of the
  source, which releases another one, is for a handle that is not the default's.
\<close>

definition fbhandler_on_remove_device :: "(fb_ptr \<Rightarrow> st \<Rightarrow> st) \<Rightarrow> st \<Rightarrow> fault + st" where
  "fbhandler_on_remove_device release_fb s =
     (case rpusbdisp_usb_get_fbhandle (dv s) of
        None \<Rightarrow> Inr s
      | Some f \<Rightarrow>
          if default_fb s = None then Inl NullDeref
          else
            (let s1 = private_update (binded_usbdev_update (\<lambda>_. None)) s;
                 s2 = dv_update (rpusbdisp_usb_set_fbhandle None) s1
             in Inr (if Some f \<noteq> default_fb s2 then release_fb f s2 else s2)))"

end
