(* ===== verification/Fb_Device.thy ===== *)
theory Fb_Device
  imports Framebuffer
begin

text \<open>
  The rest of \<^verbatim>\<open>fbhandlers.c\<close>: colour registers, the deferred io handler, mapping
  the screen memory into a process, and the creation and release of the framebuffer device with
  the resources it takes from the kernel.
\<close>

subsection \<open>Colour registers\<close>

definition CNVT_TOHW :: "u32 \<Rightarrow> nat \<Rightarrow> u32" where
  "CNVT_TOHW val width = drop_bit 16 (push_bit width val + 0x7FFF - val)"

definition grey_level :: "u32 \<Rightarrow> u32 \<Rightarrow> u32 \<Rightarrow> u32" where
  "grey_level r g b = drop_bit 16 (19595 * r + 38470 * g + 7471 * b)"

definition display_setcolreg :: "u32 \<Rightarrow> u32 \<Rightarrow> u32 \<Rightarrow> u32 \<Rightarrow> u32 \<Rightarrow> fb_info \<Rightarrow> fault + (int \<times> fb_info)" where
  "display_setcolreg regno r g b t info =
     (let (r, g, b) = (if grayscale info then (grey_level r g b, grey_level r g b, grey_level r g b) else (r, g, b))
      in case visual info of
           FB_VISUAL_TRUECOLOR \<Rightarrow>
             if regno < 16 then
               (let pal = pseudo_palette (par info);
                    value = push_bit (offset (red info)) (CNVT_TOHW r (flength (red info)))
                      OR push_bit (offset (green info)) (CNVT_TOHW g (flength (green info)))
                      OR push_bit (offset (blue info)) (CNVT_TOHW b (flength (blue info)))
                      OR push_bit (offset (transp info)) (CNVT_TOHW t (flength (transp info)))
                in if unat regno < length pal
                   then Inr (0, info\<lparr>par := (par info)\<lparr>pseudo_palette := pal[unat regno := value]\<rparr>\<rparr>)
                   else Inl OutOfBounds)
             else Inr (1, info)
         | FB_VISUAL_STATIC_PSEUDOCOLOR \<Rightarrow> Inr (1, info)
         | FB_VISUAL_PSEUDOCOLOR \<Rightarrow> Inr (1, info)
         | FB_VISUAL_OTHER \<Rightarrow> Inr (1, info))"

subsection \<open>Deferred io\<close>

text \<open>
  One page of the list: the rows it covers widen the range, unless its address is outside the
  window. A page is given by its page frame number.
\<close>

definition defio_page :: "fb_info \<Rightarrow> nat \<Rightarrow> int \<times> int \<Rightarrow> fault + (int \<times> int)" where
  "defio_page info pfn = (\<lambda>(top', bottom').
     (let page_start = sz (pfn * PAGE_SIZE)
      in if page_start < mmio_start info \<or> page_start \<ge> mmio_start info + smem_len info then Inr (top', bottom')
         else if line_length info = 0 then Inl DivByZero
         else
           (let off = page_start - mmio_start info;
                first = c_int (int (off div unat (line_length info)));
                top' = (if top' > first then first else top');
                last' = c_int (int ((off + PAGE_SIZE + unat (line_length info) - 1) div unat (line_length info)))
            in Inr (top', if bottom' < last' then last' else bottom'))))"

fun defio_pages :: "fb_info \<Rightarrow> nat list \<Rightarrow> int \<times> int \<Rightarrow> fault + (int \<times> int)" where
  "defio_pages info [] rows = Inr rows"
| "defio_pages info (pfn # pages) rows = kbind (defio_page info pfn rows) (defio_pages info pages)"

definition display_defio_handler :: "hcd \<Rightarrow> nat list \<Rightarrow> st \<Rightarrow> fault + st" where
  "display_defio_handler hcd pages s =
     (if binded_usbdev (par (fb s)) = None then Inr s
      else kbind (defio_pages (fb s) pages (RP_DISP_DEFAULT_HEIGHT, 0)) (\<lambda>(top', bottom').
        (let bottom' = (if bottom' \<ge> RP_DISP_DEFAULT_HEIGHT then RP_DISP_DEFAULT_HEIGHT - 1 else bottom')
         in display_update hcd 0 top' (sint (var_width (fb s))) (bottom' - top' + 1)
              DISPLAY_UPDATE_HINT_NONE s)))"

subsection \<open>Mapping the screen memory\<close>

text \<open>
  The loop subtracts a page from an unsigned size until it is 0. It may not end, so it is a partial
  function: the answer is the return code, the advanced \<^verbatim>\<open>vm_start\<close> and the mappings
  made. \<^verbatim>\<open>vmalloc_to_pfn\<close> and \<^verbatim>\<open>remap_pfn_range\<close> are the kernel's.
\<close>

partial_function (option) mmap_loop :: "(u64 \<Rightarrow> u64) \<Rightarrow> (u64 \<Rightarrow> u64 \<Rightarrow> int) \<Rightarrow> u64 \<Rightarrow> u64 \<Rightarrow> u64
    \<Rightarrow> (u64 \<times> u64) list \<Rightarrow> (int \<times> u64 \<times> (u64 \<times> u64) list) option" where
  "mmap_loop vmalloc_to_pfn remap_pfn_range virt size' vm_start maps =
     (if size' > 0 then
        (let phys = vmalloc_to_pfn virt;
             ret = remap_pfn_range vm_start phys
         in if ret \<noteq> 0 then Some (ret, vm_start, maps)
            else mmap_loop vmalloc_to_pfn remap_pfn_range (virt + 4096) (size' - 4096) (vm_start + 4096)
                   (maps @ [(vm_start, phys)]))
      else Some (0, vm_start, maps))"

definition EINVAL :: int where "EINVAL = 22"
definition ENOMEM :: int where "ENOMEM = 12"

definition rpusbdisp_fb_mmap :: "(u64 \<Rightarrow> u64) \<Rightarrow> (u64 \<Rightarrow> u64 \<Rightarrow> int) \<Rightarrow> u64 \<Rightarrow> u64 \<Rightarrow> u64 \<Rightarrow> fb_info
    \<Rightarrow> (int \<times> u64 \<times> (u64 \<times> u64) list) option" where
  "rpusbdisp_fb_mmap vmalloc_to_pfn remap_pfn_range screen_base vm_pgoff vm_start info =
     (let size' = word_of_nat (smem_len info);
          off = push_bit 12 vm_pgoff
      in if off \<ge> size' then Some (- EINVAL, vm_start, [])
         else mmap_loop vmalloc_to_pfn remap_pfn_range (screen_base + off) (size' - off) vm_start [])"

subsection \<open>The screen memory\<close>

text \<open>
  What the framebuffer device holds of the kernel: the pages marked reserved (by their address) and
  the other resources. Releasing what is not held is a fault.
\<close>

datatype fb_resource =
    Framebuffer
  | ScreenMemory u64
  | ColourMap
  | DefioMemory
  | DefioInitialised
  | Registered

record fb_kernel =
  reserved :: "u64 set"
  held :: "fb_resource multiset"

definition take_resource :: "fb_resource \<Rightarrow> fb_kernel \<Rightarrow> fb_kernel" where
  "take_resource r k = k\<lparr>held := add_mset r (held k)\<rparr>"

definition drop_resource :: "fb_resource \<Rightarrow> fb_kernel \<Rightarrow> fault + fb_kernel" where
  "drop_resource r k = (if r \<in># held k then Inr (k\<lparr>held := held k - {#r#}\<rparr>) else Inl UseAfterFree)"

definition page_align :: "u64 \<Rightarrow> u64" where
  "page_align n = (n + 4095) AND NOT 4095"

partial_function (option) reserve_pages :: "u64 \<Rightarrow> u64 \<Rightarrow> u64 set \<Rightarrow> u64 set option" where
  "reserve_pages adr size' R =
     (if size' > 0 then reserve_pages (adr + 4096) (size' - 4096) (insert adr R) else Some R)"

text \<open>The answer of \<^verbatim>\<open>vmalloc\<close> is a parameter; no answer of the loop is no return.\<close>

definition rvmalloc :: "u64 option \<Rightarrow> u64 \<Rightarrow> fb_kernel \<Rightarrow> (u64 option \<times> fb_kernel) option" where
  "rvmalloc vmalloc_answer size' k =
     (case vmalloc_answer of
        None \<Rightarrow> Some (None, k)
      | Some mem \<Rightarrow>
          (case reserve_pages mem (page_align size') (reserved k) of
             None \<Rightarrow> None
           | Some R \<Rightarrow> Some (Some mem, take_resource (ScreenMemory mem) (k\<lparr>reserved := R\<rparr>))))"

function release_pages :: "u64 \<Rightarrow> u64 \<Rightarrow> u64 set \<Rightarrow> u64 set" where
  "release_pages adr size' R =
     (if sint size' > 0 then release_pages (adr + 4096) (size' - 4096) (R - {adr}) else R)"
  by pat_completeness auto

lemma sint_page_down:
  fixes n :: u64
  assumes "sint n > 0"
  shows "sint (n - 4096) = sint n - 4096"
proof -
  have "sint n < 2 ^ 63"
    using sint_lt [of n] by simp
  then show ?thesis
    using assms by (simp add: sint_word_ariths(2) signed_take_bit_int_eq_self)
qed

termination release_pages
proof (relation "measure (\<lambda>(adr, size', R). nat (sint size'))")
  show "((adr + 4096, size' - 4096, R - {adr}), adr, size', R) \<in> measure (\<lambda>(adr, size', R). nat (sint size'))"
    if "0 < sint size'" for adr size' :: u64 and R
    using that by (simp add: sint_page_down)
qed simp

declare release_pages.simps [simp del]

definition rvfree :: "u64 option \<Rightarrow> u64 \<Rightarrow> fb_kernel \<Rightarrow> fault + fb_kernel" where
  "rvfree mem size' k =
     (case mem of
        None \<Rightarrow> Inr k
      | Some a \<Rightarrow> drop_resource (ScreenMemory a) (k\<lparr>reserved := release_pages a size' (reserved k)\<rparr>))"

subsection \<open>Creation and release\<close>

text \<open>How the kernel answers the calls of the creation.\<close>

record fb_answers =
  ans_framebuffer_alloc :: bool
  ans_vmalloc :: "u64 option"
  ans_alloc_cmap :: int
  ans_kzalloc :: bool
  ans_register :: int

text \<open>
  The framebuffer the creation fills in: the fixed and variable screen information of the driver,
  zeroed screen memory and reset private data. The private data is allocated zeroed.
\<close>

definition vfb_line_length :: u32 where
  "vfb_line_length = word_of_int (RP_DISP_DEFAULT_WIDTH * RP_DISP_DEFAULT_PIXEL_BITS div 8)"

definition fbmem_size :: u64 where
  "fbmem_size = ucast (word_of_int RP_DISP_DEFAULT_HEIGHT * vfb_line_length)"

definition new_fb :: fb_info where
  "new_fb =
     \<lparr>visual = FB_VISUAL_TRUECOLOR, var_width = word_of_int RP_DISP_DEFAULT_WIDTH,
      var_height = word_of_int RP_DISP_DEFAULT_HEIGHT, grayscale = False,
      red = \<lparr>offset = 0, flength = 5\<rparr>, green = \<lparr>offset = 5, flength = 6\<rparr>,
      blue = \<lparr>offset = 11, flength = 5\<rparr>, transp = \<lparr>offset = 0, flength = 0\<rparr>,
      line_length = vfb_line_length, smem_len = unat fbmem_size, mmio_start = 0,
      smem = replicate (unat fbmem_size div 2) 0,
      par = reset_fb_private \<lparr>pseudo_palette = replicate 16 0,
              dirty_rect = \<lparr>left = 0, top = 0, right = 0, bottom = 0, dirty_flag = 0\<rparr>,
              binded_usbdev = None, unsync_flag = 0\<rparr>\<rparr>"

text \<open>
  The answer is the return code and, where the function stores one, the framebuffer with the address
  of its screen memory. Failing steps jump to the cleanup of the steps before.
\<close>

definition failed_nofb :: "fb_kernel \<Rightarrow> fault + fb_kernel" where
  "failed_nofb k = drop_resource Framebuffer k"

definition failed_nocmap :: "u64 \<Rightarrow> fb_kernel \<Rightarrow> fault + fb_kernel" where
  "failed_nocmap mem k = kbind (rvfree (Some mem) fbmem_size k) failed_nofb"

definition failed_nodefio :: "u64 \<Rightarrow> fb_kernel \<Rightarrow> fault + fb_kernel" where
  "failed_nodefio mem k = kbind (drop_resource ColourMap k) (failed_nocmap mem)"

definition failed_on_reg :: "u64 \<Rightarrow> fb_kernel \<Rightarrow> fault + fb_kernel" where
  "failed_on_reg mem k = kbind (drop_resource DefioMemory k) (failed_nodefio mem)"

definition on_create_new_fb :: "fb_answers \<Rightarrow> fb_kernel
    \<Rightarrow> (fault + (int \<times> (fb_info \<times> u64) option \<times> fb_kernel)) option" where
  "on_create_new_fb a k =
     (if \<not> ans_framebuffer_alloc a then Some (Inr (- ENOMEM, None, k))
      else
        (let k1 = take_resource Framebuffer k
         in case rvmalloc (ans_vmalloc a) fbmem_size k1 of
              None \<Rightarrow> None
            | Some (None, k2) \<Rightarrow> Some (kbind (failed_nofb k2) (\<lambda>k'. Inr (- ENOMEM, None, k')))
            | Some (Some mem, k2) \<Rightarrow>
                if ans_alloc_cmap a \<noteq> 0
                then Some (kbind (failed_nocmap mem k2) (\<lambda>k'. Inr (- ENOMEM, None, k')))
                else
                  (let k3 = take_resource ColourMap k2
                   in if \<not> ans_kzalloc a
                      then Some (kbind (failed_nodefio mem k3) (\<lambda>k'. Inr (- ENOMEM, None, k')))
                      else
                        (let k4 = take_resource DefioInitialised (take_resource DefioMemory k3);
                             ret = ans_register a
                         in if ret < 0 then Some (kbind (failed_on_reg mem k4) (\<lambda>k'. Inr (ret, None, k')))
                            else Some (Inr (ret, Some (new_fb, mem), take_resource Registered k4))))))"

definition on_release_fb :: "(fb_info \<times> u64) option \<Rightarrow> fb_kernel \<Rightarrow> fault + fb_kernel" where
  "on_release_fb f k =
     (case f of
        None \<Rightarrow> Inr k
      | Some (info, mem) \<Rightarrow>
          kbind (drop_resource DefioInitialised k) (\<lambda>k1.
          kbind (drop_resource Registered k1) (\<lambda>k2.
          kbind (drop_resource DefioMemory k2) (\<lambda>k3.
          kbind (drop_resource ColourMap k3) (\<lambda>k4.
          kbind (rvfree (Some mem) (word_of_nat (smem_len info)) k4) (\<lambda>k5.
            drop_resource Framebuffer k5))))))"

text \<open>Registering and unregistering the handlers keep the default framebuffer.\<close>

definition register_fb_handlers :: "fb_answers \<Rightarrow> fb_kernel
    \<Rightarrow> (fault + (int \<times> (fb_info \<times> u64) option \<times> fb_kernel)) option" where
  "register_fb_handlers a k = on_create_new_fb a k"

definition unregister_fb_handlers :: "(fb_info \<times> u64) option \<Rightarrow> fb_kernel \<Rightarrow> fault + fb_kernel" where
  "unregister_fb_handlers f k = on_release_fb f k"

text \<open>The framebuffer that is created is the screen the drawing operations work on.\<close>

lemma new_fb_fields:
  "line_length new_fb = 640" "smem_len new_fb = 153600" "length (smem new_fb) = 76800"
  "var_width new_fb = 320" "var_height new_fb = 240" "unsync_flag (par new_fb) = 1"
  "binded_usbdev (par new_fb) = None" "mmio_start new_fb = 0" "fbmem_size = 153600"
  by (simp_all add: new_fb_def fbmem_size_def vfb_line_length_def conf_defs reset_fb_private_def)

end
