(* ===== verification/Display_Sync.thy ===== *)
theory Display_Sync
  imports Framebuffer
begin

text \<open>
  The promise of the framebuffer half: the display shows the framebuffer, except where an update is
  still pending. A position is pending when it lies in the dirty rectangle, or when the display is
  marked out of sync. \<open>in_sync\<close> relates the screen memory to what the device shows, and
  the theorems show that updating the display keeps it, when the image goes out and when it has to
  wait.
\<close>

subsection \<open>The screen and its shape\<close>

definition on_screen :: "int \<Rightarrow> int \<Rightarrow> bool" where
  "on_screen x y \<longleftrightarrow> 0 \<le> x \<and> x < 320 \<and> 0 \<le> y \<and> y < 240"

definition screen_ok :: "fb_info \<Rightarrow> bool" where
  "screen_ok p \<longleftrightarrow> var_width p = 320 \<and> var_height p = 240 \<and> line_length p = 640 \<and> length (smem p) = 76800"

text \<open>The dirty rectangle never leaves the screen; cleared, it is empty and ready to be merged.\<close>

definition rect_ok :: "dirty_rect \<Rightarrow> bool" where
  "rect_ok r \<longleftrightarrow> 0 \<le> left r \<and> right r < 320 \<and> 0 \<le> top r \<and> bottom r < 240
     \<and> left r \<le> 320 \<and> -1 \<le> right r \<and> top r \<le> 240 \<and> -1 \<le> bottom r"

definition in_rect :: "dirty_rect \<Rightarrow> int \<Rightarrow> int \<Rightarrow> bool" where
  "in_rect r x y \<longleftrightarrow> left r \<le> x \<and> x \<le> right r \<and> top r \<le> y \<and> y \<le> bottom r"

definition request_ok :: "int \<Rightarrow> int \<Rightarrow> int \<Rightarrow> int \<Rightarrow> bool" where
  "request_ok x y width height \<longleftrightarrow>
     0 \<le> x \<and> 0 < width \<and> x + width \<le> 320 \<and> 0 \<le> y \<and> 0 < height \<and> y + height \<le> 240"

definition in_request :: "int \<Rightarrow> int \<Rightarrow> int \<Rightarrow> int \<Rightarrow> int \<Rightarrow> int \<Rightarrow> bool" where
  "in_request x y width height px py \<longleftrightarrow> x \<le> px \<and> px < x + width \<and> y \<le> py \<and> py < y + height"

definition fb_ready :: "tid list \<Rightarrow> st \<Rightarrow> bool" where
  "fb_ready L s \<longleftrightarrow> device_ready L s \<and> screen_ok (fb s) \<and> rect_ok (rect_of s)"

lemma clear_rect_ok [simp]: "rect_ok (clear_dirty_rect r)"
  by (simp add: rect_ok_def clear_dirty_rect_def conf_defs)

lemma clear_rect_empty [simp]: "\<not> in_rect (clear_dirty_rect r) x y"
  by (simp add: in_rect_def clear_dirty_rect_def conf_defs)

subsection \<open>Merging\<close>

lemma merge_rect_char:
  assumes "request_ok x y width height"
  shows "merge_rect x y width height r =
    r\<lparr>left := min (left r) x, top := min (top r) y, right := max (right r) (x + width - 1),
      bottom := max (bottom r) (y + height - 1)\<rparr>"
proof -
  have "c_int (height + y - 1) = y + height - 1" "c_int (width + x - 1) = x + width - 1"
    using assms by (auto simp: request_ok_def c_int_id)
  then show ?thesis
    by (cases r) (simp add: merge_rect_def Let_def min_def max_def)
qed

lemma merge_rect_ok: "rect_ok r \<Longrightarrow> request_ok x y width height \<Longrightarrow> rect_ok (merge_rect x y width height r)"
  by (auto simp: merge_rect_char rect_ok_def request_ok_def)

lemma merge_rect_covers:
  assumes "request_ok x y width height" "in_rect r px py \<or> in_request x y width height px py"
  shows "in_rect (merge_rect x y width height r) px py"
  using assms by (auto simp: merge_rect_char in_rect_def in_request_def)

lemma full_rect_char:
  "screen_ok p \<Longrightarrow> full_rect p r = r\<lparr>left := 0, right := 319, top := 0, bottom := 239\<rparr>"
  by (simp add: full_rect_def screen_ok_def)

lemma full_rect_ok: "screen_ok p \<Longrightarrow> rect_ok (full_rect p r)"
  by (simp add: full_rect_char rect_ok_def)

lemma full_rect_covers: "screen_ok p \<Longrightarrow> on_screen px py \<Longrightarrow> in_rect (full_rect p r) px py"
  by (simp add: full_rect_char in_rect_def on_screen_def)

subsection \<open>What the device shows\<close>

type_synonym screen = "int \<Rightarrow> int \<Rightarrow> u16"

definition fb_pixel :: "fb_info \<Rightarrow> screen" where
  "fb_pixel p x y = smem p ! nat (y * 320 + x)"

text \<open>The device paints a bitblt: its pixels row by row from the packet's position.\<close>

definition paint :: "rpusbdisp_disp_bitblt_packet_t \<times> u16 list \<Rightarrow> screen \<Rightarrow> screen" where
  "paint = (\<lambda>(pkt, pixels) scr x y.
     let x0 = uint (bitblt_x pkt); y0 = uint (bitblt_y pkt);
         w = uint (bitblt_width pkt); h = uint (bitblt_height pkt)
     in if x0 \<le> x \<and> x < x0 + w \<and> y0 \<le> y \<and> y < y0 + h then pixels ! nat ((y - y0) * w + (x - x0))
        else scr x y)"

definition pending :: "st \<Rightarrow> int \<Rightarrow> int \<Rightarrow> bool" where
  "pending s x y \<longleftrightarrow> unsync_flag (par (fb s)) = 1 \<or> in_rect (rect_of s) x y"

definition in_sync :: "screen \<Rightarrow> st \<Rightarrow> bool" where
  "in_sync scr s \<longleftrightarrow> (\<forall>x y. on_screen x y \<longrightarrow> scr x y = fb_pixel (fb s) x y \<or> pending s x y)"

lemma concat_rows_nth:
  assumes "\<forall>xs \<in> set xss. length xs = n" "i < length xss" "j < n"
  shows "concat xss ! (i * n + j) = xss ! i ! j"
  using assms
proof (induction xss arbitrary: i)
  case (Cons xs xss)
  then show ?case
    by (cases i) (simp_all add: nth_append)
qed simp

lemma region_pixels_nth:
  assumes "x0 \<le> x" "x \<le> x1" "y0 \<le> y" "y \<le> y1"
  shows "region_pixels framebuffer x0 y0 x1 y1 lw ! nat ((y - y0) * (x1 + 1 - x0) + (x - x0))
    = framebuffer ! nat (y * lw + x)"
proof -
  have index: "nat ((y - y0) * (x1 + 1 - x0) + (x - x0)) = nat (y - y0) * nat (x1 - x0 + 1) + nat (x - x0)"
  proof -
    have w: "x1 + 1 - x0 = x1 - x0 + 1" by simp
    show ?thesis
      unfolding w using assms by (subst nat_add_distrib) (simp_all add: nat_mult_distrib)
  qed
  show ?thesis
    unfolding region_pixels_def index
    using assms by (subst concat_rows_nth) (auto simp: nth_upto)
qed

text \<open>Painting the sent image makes the device show the framebuffer inside the rectangle.\<close>

lemma paint_image:
  assumes "0 \<le> x0" "x0 \<le> x1" "x1 < 320" "0 \<le> y0" "y0 \<le> y1" "y1 < 240"
  shows "paint (image_packet s x0 y0 x1 y1 cd, region_pixels framebuffer x0 y0 x1 y1 320) scr x y =
    (if x0 \<le> x \<and> x \<le> x1 \<and> y0 \<le> y \<and> y \<le> y1 then framebuffer ! nat (y * 320 + x) else scr x y)"
proof -
  have "uint (word_of_int z :: u16) = z" if "0 \<le> z" "z < 65536" for z
    using that by (simp add: uint_word_of_int)
  note u = this
  have fields: "bitblt_x (image_packet s x0 y0 x1 y1 cd) = word_of_int x0"
    "bitblt_y (image_packet s x0 y0 x1 y1 cd) = word_of_int y0"
    "bitblt_width (image_packet s x0 y0 x1 y1 cd) = word_of_int (x1 + 1 - x0)"
    "bitblt_height (image_packet s x0 y0 x1 y1 cd) = word_of_int (y1 + 1 - y0)"
    by (simp_all add: image_packet_def)
  have "uint (bitblt_x (image_packet s x0 y0 x1 y1 cd)) = x0" "uint (bitblt_y (image_packet s x0 y0 x1 y1 cd)) = y0"
    "uint (bitblt_width (image_packet s x0 y0 x1 y1 cd)) = x1 + 1 - x0"
    "uint (bitblt_height (image_packet s x0 y0 x1 y1 cd)) = y1 + 1 - y0"
    unfolding fields using assms by (intro u; linarith)+
  then show ?thesis
    using region_pixels_nth [of x0 x x1 y0 y y1 framebuffer 320] by (auto simp: paint_def Let_def)
qed

subsection \<open>An update through the dirty rectangle\<close>

lemma pool_inv_private [simp]: "pool_inv L (private_update f s) = pool_inv L s"
  by (simp add: pool_inv_def)

lemma stable_screen:
  assumes st: "stable s' = stable s"
  shows "screen_ok (fb s') = screen_ok (fb s)" "fb_pixel (fb s') = fb_pixel (fb s)"
    "rect_of s' = rect_of s" "rle_supported s' = rle_supported s"
  using stable_facts [OF st] by (auto simp: screen_ok_def fb_pixel_def rle_supported_def fun_eq_iff)

text \<open>The rectangle that an update works on, and whether it is a full refresh.\<close>

definition refreshes :: "st \<Rightarrow> bool" where
  "refreshes s \<longleftrightarrow> unsync_flag (par (fb s)) = 1"

definition update_rect :: "int \<Rightarrow> int \<Rightarrow> int \<Rightarrow> int \<Rightarrow> st \<Rightarrow> dirty_rect" where
  "update_rect x y width height s =
     (if refreshes s then full_rect (fb s) (rect_of s) else merge_rect x y width height (rect_of s))
       \<lparr>dirty_flag := 1\<rparr>"

definition marked :: "int \<Rightarrow> int \<Rightarrow> int \<Rightarrow> int \<Rightarrow> st \<Rightarrow> st" where
  "marked x y width height s =
     private_update (\<lambda>pa. pa\<lparr>unsync_flag := unsync_flag pa - 1, dirty_rect := update_rect x y width height s\<rparr>) s"

lemma update_rect_props:
  assumes "request_ok x y width height" "rect_ok (rect_of s)" "screen_ok (fb s)"
  shows "rect_ok (update_rect x y width height s)"
    "left (update_rect x y width height s) \<le> right (update_rect x y width height s)"
    "top (update_rect x y width height s) \<le> bottom (update_rect x y width height s)"
    "on_screen px py \<Longrightarrow> pending s px py \<or> in_request x y width height px py \<Longrightarrow>
       in_rect (update_rect x y width height s) px py"
proof -
  have "in_rect r' px py" if "in_rect r px py" "r' = r\<lparr>dirty_flag := k\<rparr>" for r r' k
    using that by (simp add: in_rect_def)
  then show "on_screen px py \<Longrightarrow> pending s px py \<or> in_request x y width height px py \<Longrightarrow>
       in_rect (update_rect x y width height s) px py"
    unfolding update_rect_def pending_def refreshes_def
    using full_rect_covers [OF assms(3), of px py] merge_rect_covers [OF assms(1), of "rect_of s" px py]
    by (auto simp: in_rect_def)
qed (use assms in \<open>auto simp: update_rect_def full_rect_char merge_rect_char rect_ok_def request_ok_def\<close>)

lemma dec_is_zero: "(c - 1 = (0 :: u32)) \<longleftrightarrow> c = 1"
  by (metis diff_0_right diff_add_cancel add_0 eq_iff_diff_eq_0)

lemma display_update_unfold:
  assumes "binded_usbdev (par (fb s)) \<noteq> None" "request_ok x y width height" "rect_ok (rect_of s)" "screen_ok (fb s)"
  shows "display_update hcd x y width height hint s =
    kbind (send_update hcd hint (refreshes s) (marked x y width height s))
      (\<lambda>(r, s'). Inr (if r \<noteq> 0 then rect_update clear_dirty_rect s' else s'))"
proof -
  note props = update_rect_props [OF assms(2-4)]
  have "rect_update (dirty_flag_update (\<lambda>_. 1))
      (rect_update (if refreshes s then full_rect (fb s) else merge_rect x y width height)
        (private_update (unsync_flag_update (\<lambda>c. c - 1)) s)) = marked x y width height s"
    by (cases "refreshes s") (simp_all add: marked_def update_rect_def)
  moreover have "\<not> (top ((if refreshes s then full_rect (fb s) else merge_rect x y width height) (rect_of s))
      > bottom ((if refreshes s then full_rect (fb s) else merge_rect x y width height) (rect_of s)) \<or>
    left ((if refreshes s then full_rect (fb s) else merge_rect x y width height) (rect_of s))
      > right ((if refreshes s then full_rect (fb s) else merge_rect x y width height) (rect_of s)))"
    using props(2,3) by (auto simp: update_rect_def split: if_splits)
  moreover obtain d where "binded_usbdev (par (fb s)) = Some d"
    using assms(1) by blast
  ultimately show ?thesis
    by (simp add: display_update_def Let_def dec_is_zero refreshes_def)
qed

lemma marked_facts:
  assumes "fb_ready L s" "request_ok x y width height"
  shows "fb_ready L (marked x y width height s)" "rect_of (marked x y width height s) = update_rect x y width height s"
    "smem (fb (marked x y width height s)) = smem (fb s)" "usb_log (marked x y width height s) = usb_log s"
    "ep_size (marked x y width height s) = ep_size s" "line_length (fb (marked x y width height s)) = line_length (fb s)"
    "rle_supported (marked x y width height s) = rle_supported s"
    "tickets_suffice (marked x y width height s) P = tickets_suffice s P"
    "binded_usbdev (par (fb (marked x y width height s))) = binded_usbdev (par (fb s))"
  using assms update_rect_props(1) [OF assms(2), of s]
  by (simp_all add: marked_def fb_ready_def device_ready_def screen_ok_def rle_supported_def
      tickets_suffice_def)

lemma update_image_request:
  assumes ready: "fb_ready L s" and req: "request_ok x y width height"
  defines "r \<equiv> update_rect x y width height s"
  shows "rect_inside (smem (fb s)) (left r) (top r) (right r) (bottom r) 320"
proof -
  have "rect_ok r" "left r \<le> right r" "top r \<le> bottom r"
    using update_rect_props [OF req, of s] ready by (simp_all add: r_def fb_ready_def)
  then show ?thesis
    using ready by (auto simp: rect_inside_def rect_ok_def fb_ready_def screen_ok_def)
qed

text \<open>The image of the rectangle takes the tickets bought for it to the last byte.\<close>

definition update_exact_fill :: "int \<Rightarrow> int \<Rightarrow> int \<Rightarrow> int \<Rightarrow> st \<Rightarrow> bool" where
  "update_exact_fill x y width height s \<longleftrightarrow>
     (let r = update_rect x y width height s
      in exact_fill s (smem (fb s)) (left r) (top r) (right r) (bottom r) 320)"

lemma exact_fill_marked: "exact_fill (marked x y width height s) = exact_fill s"
  by (simp add: fun_eq_iff exact_fill_def image_payload_def image_estimate_def ticket_payload_def marked_def
      rle_supported_def)

text \<open>
  The outcomes of an update of a bound device: the image of the dirty rectangle goes out and the
  rectangle is cleared, or the rectangle is kept for later, or the image fills its tickets exactly
  and the driver stops.
\<close>

lemma display_update_image_cases:
  fixes hcd :: hcd
  assumes ready: "fb_ready L s" and req: "request_ok x y width height"
    and bound: "binded_usbdev (par (fb s)) \<noteq> None"
    and hint: "hint = DISPLAY_UPDATE_HINT_NONE \<or> hint = DISPLAY_UPDATE_HINT_BITBLT"
  defines "r \<equiv> update_rect x y width height s"
  obtains (sent) s' us where "display_update hcd x y width height hint s = Inr s'" "fb_ready L s'"
      "usb_log s' = usb_log s @ map accepted us" "rect_of s' = clear_dirty_rect r" "fb_pixel (fb s') = fb_pixel (fb s)"
      "binded_usbdev (par (fb s')) = binded_usbdev (par (fb s))"
      "decode_bitblt (ep_size s) us = Some (image_packet s (left r) (top r) (right r) (bottom r) (refreshes s),
         region_pixels (smem (fb s)) (left r) (top r) (right r) (bottom r) 320)"
      "ep_size s' = ep_size s \<and> disp_urb_count (pool s') = disp_urb_count (pool s)"
      "\<not> update_exact_fill x y width height s"
  | (kept) s' H where "display_update hcd x y width height hint s = Inr s'" "fb_ready (H @ L) s'"
      "rect_of s' = r" "fb_pixel (fb s') = fb_pixel (fb s)"
      "binded_usbdev (par (fb s')) = binded_usbdev (par (fb s))"
      "\<not> tickets_suffice s (rect_pixels (left r) (top r) (right r) (bottom r)) \<and> H = []
       \<or> (\<exists>us u. refused_log hcd s us u s')"
      "ep_size s' = ep_size s \<and> disp_urb_count (pool s') = disp_urb_count (pool s)"
  | (stuck) "display_update hcd x y width height hint s = Inl BugOn" "update_exact_fill x y width height s"
      "tickets_suffice s (rect_pixels (left r) (top r) (right r) (bottom r))"
proof -
  let ?m = "marked x y width height s"
  note m = marked_facts [OF ready req, folded r_def]
  note image = update_image_request [OF ready req, folded r_def]
  have dev: "device_ready L ?m"
    using m(1) by (simp add: fb_ready_def)
  have inside: "rect_inside (smem (fb ?m)) (left r) (top r) (right r) (bottom r) 320"
    using image by (simp only: m)
  have exact: "exact_fill ?m (smem (fb ?m)) (left r) (top r) (right r) (bottom r) 320 \<longleftrightarrow>
      update_exact_fill x y width height s"
    by (simp add: exact_fill_marked update_exact_fill_def Let_def r_def m(3))
  have lw: "sint (line_length (fb ?m) div 2) = 320"
    using ready by (simp add: m fb_ready_def screen_ok_def)
  have send: "send_update hcd hint (refreshes s) ?m =
      rpusbdisp_usb_try_send_image hcd (smem (fb ?m)) (left r) (top r) (right r) (bottom r) 320 (refreshes s) ?m"
    using hint by (auto simp: send_update_def m(2) lw)
  have unfold: "display_update hcd x y width height hint s =
    kbind (rpusbdisp_usb_try_send_image hcd (smem (fb ?m)) (left r) (top r) (right r) (bottom r) 320 (refreshes s) ?m)
      (\<lambda>(q, s'). Inr (if q \<noteq> 0 then rect_update clear_dirty_rect s' else s'))"
    using display_update_unfold [OF bound req, of hcd hint] ready by (simp add: fb_ready_def send)
  have keep: "fb_ready L' s'" "rect_of s' = r" "fb_pixel (fb s') = fb_pixel (fb s)"
    "binded_usbdev (par (fb s')) = binded_usbdev (par (fb s))" "ep_size s' = ep_size s \<and> disp_urb_count (pool s') = disp_urb_count (pool s)"
    if "pool_inv L' s'" "stable s' = stable ?m" for L' s'
  proof -
    note st = stable_screen [OF that(2)] stable_facts [OF that(2)]
    show "fb_ready L' s'" "rect_of s' = r" "fb_pixel (fb s') = fb_pixel (fb s)"
      "binded_usbdev (par (fb s')) = binded_usbdev (par (fb s))" "ep_size s' = ep_size s \<and> disp_urb_count (pool s') = disp_urb_count (pool s)"
      using m that(1) unfolding fb_ready_def device_ready_def st by (simp_all add: fb_pixel_def fun_eq_iff marked_def)
  qed
  have packet: "image_packet ?m = image_packet s"
    by (simp add: image_packet_def fun_eq_iff m(7))
  have refused: "refused_log hcd s us u s'" if "refused_log hcd ?m us u s'" for us u s'
    using that by (simp add: refused_log_def m(4))
  show thesis
  proof (cases rule: try_send_image_cases [OF dev inside, where hcd = hcd and clear_dirty = "refreshes s"])
    case 1
    then show thesis
      using unfold keep [of L ?m] 1 dev m(8) by (intro kept [of ?m "[]"]) (simp_all add: device_ready_def)
  next
    case (2 s' us u)
    then show thesis
      using unfold 2 keep [of L s'] refused [OF 2(4)] by (intro kept [of s' "[]"]) auto
  next
    case (3 s' us u H)
    then show thesis
      using unfold 3 keep [of "H @ L" s'] refused [OF 3(4)] by (intro kept [of s' H]) auto
  next
    case (4 s' us)
    let ?s' = "rect_update clear_dirty_rect s'"
    have "fb_ready L ?s'"
      using keep(1) [OF 4(2,3)] by (simp add: fb_ready_def device_ready_def screen_ok_def rle_supported_def)
    then show thesis
      using unfold 4 keep(2-5) [OF 4(2,3)] m(3-5) packet
      by (intro that(1) [of ?s' us]) (simp_all add: fb_pixel_def fun_eq_iff exact [symmetric])
  next
    case 5
    then show thesis
      using unfold exact m(8) by (intro stuck) simp_all
  qed
qed

subsection \<open>The promise\<close>

text \<open>What the device may show after a transfer that was cut off: only the dirty rectangle is touched.\<close>

definition same_outside :: "dirty_rect \<Rightarrow> screen \<Rightarrow> screen \<Rightarrow> bool" where
  "same_outside r scr scr' \<longleftrightarrow> (\<forall>x y. \<not> in_rect r x y \<longrightarrow> scr' x y = scr x y)"

definition in_sync_except :: "int \<Rightarrow> int \<Rightarrow> int \<Rightarrow> int \<Rightarrow> screen \<Rightarrow> st \<Rightarrow> bool" where
  "in_sync_except x y width height scr s \<longleftrightarrow> (\<forall>px py. on_screen px py \<longrightarrow>
     scr px py = fb_pixel (fb s) px py \<or> pending s px py \<or> in_request x y width height px py)"

definition kept_in_sync :: "screen \<Rightarrow> st \<Rightarrow> st \<Rightarrow> bool" where
  "kept_in_sync scr s s' \<longleftrightarrow>
     (\<exists>us p. usb_log s' = usb_log s @ map accepted us \<and> decode_bitblt (ep_size s) us = Some p
        \<and> in_sync (paint p scr) s' \<and> rect_of s' = clear_dirty_rect (rect_of s'))
   \<or> (\<forall>scr'. same_outside (rect_of s') scr scr' \<longrightarrow> in_sync scr' s')"

lemma clear_dirty_rect_idem [simp]: "clear_dirty_rect (clear_dirty_rect r) = clear_dirty_rect r"
  by (simp add: clear_dirty_rect_def)

lemma display_update_sync:
  fixes hcd :: hcd
  assumes ready: "fb_ready L s" and req: "request_ok x y width height"
    and bound: "binded_usbdev (par (fb s)) \<noteq> None"
    and hint: "hint = DISPLAY_UPDATE_HINT_NONE \<or> hint = DISPLAY_UPDATE_HINT_BITBLT"
    and sync: "in_sync_except x y width height scr s"
  obtains (returns) s' H where "display_update hcd x y width height hint s = Inr s'" "fb_ready (H @ L) s'"
      "binded_usbdev (par (fb s')) = binded_usbdev (par (fb s))" "ep_size s' = ep_size s"
      "disp_urb_count (pool s') = disp_urb_count (pool s)" "kept_in_sync scr s s'"
  | (stuck) "display_update hcd x y width height hint s = Inl BugOn" "update_exact_fill x y width height s"
proof (cases rule: display_update_image_cases [OF ready req bound hint, where hcd = hcd])
  case (1 s' us)
  let ?r = "update_rect x y width height s"
  have screen: "rect_ok (rect_of s)" "screen_ok (fb s)"
    using ready by (simp_all add: fb_ready_def)
  note r = update_rect_props [OF req screen]
  have painted: "paint (image_packet s (left ?r) (top ?r) (right ?r) (bottom ?r) (refreshes s),
        region_pixels (smem (fb s)) (left ?r) (top ?r) (right ?r) (bottom ?r) 320) scr px py
      = (if in_rect ?r px py then fb_pixel (fb s) px py else scr px py)" for px py
    using r(1-3) by (subst paint_image) (auto simp: rect_ok_def in_rect_def fb_pixel_def)
  have "in_sync (paint (image_packet s (left ?r) (top ?r) (right ?r) (bottom ?r) (refreshes s),
        region_pixels (smem (fb s)) (left ?r) (top ?r) (right ?r) (bottom ?r) 320) scr) s'"
    using r(4) sync unfolding in_sync_def painted 1(5) in_sync_except_def by auto
  then have "kept_in_sync scr s s'"
    using 1 unfolding kept_in_sync_def by (intro disjI1 exI [of _ us] exI conjI) auto
  then show ?thesis
    using 1 by (intro returns [of s' "[]"]) auto
next
  case (2 s' H)
  have screen: "rect_ok (rect_of s)" "screen_ok (fb s)"
    using ready by (simp_all add: fb_ready_def)
  note r = update_rect_props(4) [OF req screen]
  have "in_sync scr' s'" if "same_outside (rect_of s') scr scr'" for scr'
    unfolding in_sync_def
  proof (intro allI impI)
    fix px py assume on: "on_screen px py"
    show "scr' px py = fb_pixel (fb s') px py \<or> pending s' px py"
      using that sync r [OF on] on
      unfolding same_outside_def in_sync_except_def pending_def [of s'] 2(3,4) by metis
  qed
  then have "kept_in_sync scr s s'"
    unfolding kept_in_sync_def by blast
  then show ?thesis
    using 2 by (intro returns [of s' H]) auto
next
  case 3
  then show ?thesis
    by (intro stuck)
qed

text \<open>
  Updates of the whole screen: its estimate is not a multiple of what a ticket carries for any
  endpoint of up to 1024 bytes, the largest that USB has, with the packets per ticket that the driver
  chooses for it.
\<close>

lemma full_request: "request_ok 0 0 320 240"
  by (simp add: request_ok_def)

lemma full_update_rect:
  assumes "fb_ready L s"
  shows "update_rect 0 0 320 240 s = (rect_of s)\<lparr>left := 0, right := 319, top := 0, bottom := 239, dirty_flag := 1\<rparr>"
  using assms
  by (auto simp: update_rect_def fb_ready_def full_rect_char merge_rect_char full_request rect_ok_def min_def max_def)

lemma full_update_fill:
  assumes "fb_ready L s" "update_exact_fill 0 0 320 240 s"
  shows "ticket_payload s dvd image_estimate s 0 0 319 239"
  using assms full_update_rect [OF assms(1)] by (simp add: update_exact_fill_def exact_fill_def Let_def)

lemma full_update_sync:
  fixes hcd :: hcd
  assumes ready: "fb_ready L s" and bound: "binded_usbdev (par (fb s)) \<noteq> None"
    and room: "\<not> ticket_payload s dvd image_estimate s 0 0 319 239"
    and sync: "in_sync_except 0 0 320 240 scr s"
  obtains s' H where "display_update hcd 0 0 320 240 DISPLAY_UPDATE_HINT_NONE s = Inr s'" "fb_ready (H @ L) s'"
      "kept_in_sync scr s s'"
proof (cases rule: display_update_sync [OF ready full_request bound _ sync, of DISPLAY_UPDATE_HINT_NONE, where hcd = hcd])
  case 1
  then show ?case by simp
next
  case (2 s' H)
  then show ?thesis by (intro that [of s' H])
next
  case 3
  then show ?thesis using full_update_fill [OF ready] room by simp
qed

lemma screen_never_fills:
  assumes "10 < ep_size s" "ep_size s \<le> 1024" "factor s = RPUSBDISP_MAX_TRANSFER_SIZE div ep_size s"
  shows "\<not> ticket_payload s dvd image_estimate s 0 0 319 239"
proof
  assume "ticket_payload s dvd image_estimate s 0 0 319 239"
  then obtain j where j: "image_estimate s 0 0 319 239 = ticket_payload s * j"
    by (rule dvdE)
  have W: "153609 \<le> image_estimate s 0 0 319 239" "image_estimate s 0 0 319 239 \<le> 154209"
    by (simp_all add: image_estimate_def worst_payload_def rect_pixels_def)
  have F: "factor s = 65024 div ep_size s" and left: "65024 mod ep_size s < ep_size s"
    using assms(1,3) by (simp_all add: conf_defs)
  have fac: "factor s * ep_size s \<le> 65024" "65024 < factor s * ep_size s + ep_size s"
    using div_mult_mod_eq [of 65024 "ep_size s"] left unfolding F by linarith+
  have "factor s * 11 \<le> factor s * ep_size s"
    using assms(1) by (intro mult_left_mono) simp_all
  then have "factor s \<le> 5911"
    using fac(1) by linarith
  moreover have "ticket_payload s + factor s = factor s * ep_size s"
    using assms(1) by (cases "ep_size s") (simp_all add: ticket_payload_def)
  ultimately have K: "58000 \<le> ticket_payload s" "ticket_payload s \<le> 65024"
    using fac assms(2) by linarith+
  consider "j \<le> 2" | "3 \<le> j" by linarith
  then show False
  proof cases
    case 1
    then have "ticket_payload s * j \<le> 65024 * 2"
      using K by (intro mult_mono) simp_all
    then show False using W j by simp
  next
    case 2
    then have "58000 * 3 \<le> ticket_payload s * j"
      using K by (intro mult_mono) simp_all
    then show False using W j by simp
  qed
qed

end
