(* ===== verification/Image_Properties.thy ===== *)
theory Image_Properties
  imports Send_Image
begin

text \<open>
  What holds of \<^verbatim>\<open>rpusbdisp_usb_try_send_image\<close> as a whole, and of the parts of
  the encoder it is made of. The sample device at the end is where the theorems are applied.
\<close>

subsection \<open>A sample device\<close>

definition sample_dev :: "nat \<Rightarrow> nat \<Rightarrow> u16 \<Rightarrow> nat \<Rightarrow> rpusbdisp_dev" where
  "sample_dev ep fac fwver n =
     \<lparr>dev_id = 0, is_alive = True, status_in_buffer = replicate 32 0, status_in_buffer_recvsize = 0,
      status_in_ep_addr = 0x81, urb_status_query = Some True, urb_status_fail_count = 0,
      disp_out_ep_addr = 1, disp_out_ep_max_size = ep,
      disp_tickets_pool = \<lparr>pool_list = [0..<n], disp_urb_count = n, packet_size_factor = fac,
         availiable_count = int n, completion_work = False\<rparr>,
      fb_handle = Some 0, device_fwver = fwver\<rparr>"

definition sample_fb :: "u32 \<Rightarrow> u32 \<Rightarrow> fb_info" where
  "sample_fb w h =
     \<lparr>visual = FB_VISUAL_TRUECOLOR, var_width = w, var_height = h, grayscale = False,
      red = \<lparr>offset = 0, flength = 5\<rparr>, green = \<lparr>offset = 5, flength = 6\<rparr>, blue = \<lparr>offset = 11, flength = 5\<rparr>,
      transp = \<lparr>offset = 0, flength = 0\<rparr>, line_length = w * 2, smem_len = unat (w * h * 2),
      mmio_start = 0, smem = replicate (unat (w * h)) 0,
      par = \<lparr>pseudo_palette = replicate 16 0,
         dirty_rect = \<lparr>left = 0, top = 0, right = 0, bottom = 0, dirty_flag = 0\<rparr>,
         binded_usbdev = Some 0, unsync_flag = 0\<rparr>\<rparr>"

definition sample_urb :: "nat \<Rightarrow> rpusbdisp_disp_ticket" where
  "sample_urb len = \<lparr>transfer_buffer = replicate RPUSBDISP_MAX_TRANSFER_SIZE 0, transfer_buffer_length = len,
     urb_status = 0\<rparr>"

definition sample_state :: "nat \<Rightarrow> nat \<Rightarrow> u16 \<Rightarrow> nat \<Rightarrow> st" where
  "sample_state ep fac fwver n =
     \<lparr>dv = sample_dev ep fac fwver n,
      tickets = (\<lambda>t. if t < n then Some (sample_urb (fac * ep)) else None),
      inflight = [], usb_log = [], default_fb = Some 0, fb = sample_fb 320 240\<rparr>"

text \<open>A controller that accepts everything, and one that refuses everything.\<close>

definition accepting :: hcd where
  "accepting log bytes = \<lparr>reply_rc = 0, reply_status = 0, reply_completed = []\<rparr>"

definition refusing :: hcd where
  "refusing log bytes = \<lparr>reply_rc = -19, reply_status = 0, reply_completed = []\<rparr>"

lemma accepting_rc [simp]: "reply_rc (accepting log bytes) = 0"
  by (simp add: accepting_def)

lemma refusing_rc [simp]: "reply_rc (refusing log bytes) \<noteq> 0"
  by (simp add: refusing_def)

lemma sample_fields [simp]:
  "ep_size (sample_state ep fac fwver n) = ep" "factor (sample_state ep fac fwver n) = fac"
  "free_tickets (sample_state ep fac fwver n) = [0..<n]" "is_alive (dv (sample_state ep fac fwver n))"
  "inflight (sample_state ep fac fwver n) = []" "usb_log (sample_state ep fac fwver n) = []"
  "device_fwver (dv (sample_state ep fac fwver n)) = fwver"
  "disp_urb_count (pool (sample_state ep fac fwver n)) = n"
  "fb (sample_state ep fac fwver n) = sample_fb 320 240"
  by (simp_all add: sample_state_def sample_dev_def)

lemma sample_pool_inv:
  "n \<le> 10 \<Longrightarrow> fac * ep \<le> 65024 \<Longrightarrow> pool_inv [] (sample_state ep fac fwver n)"
  by (auto simp: pool_inv_def sample_state_def sample_dev_def sample_urb_def conf_defs
      RPUSBDISP_MAX_TRANSFER_TICKETS_COUNT_def ran_def split: if_splits)

lemma sample_ready:
  "n \<le> 10 \<Longrightarrow> fac * ep \<le> 65024 \<Longrightarrow> 10 < ep \<Longrightarrow> 0 < fac \<Longrightarrow> device_ready [] (sample_state ep fac fwver n)"
  by (simp add: device_ready_def sample_pool_inv)

lemma sample_rle [simp]: "rle_supported (sample_state ep fac fwver n) \<longleftrightarrow> 0x0104 \<le> fwver"
  by (simp add: rle_supported_def RP_DISP_FEATURE_RLE_FWVERSION_def)

text \<open>The request the theorems are applied to: a rectangle of a black screen.\<close>

definition sample_screen :: "u16 list" where
  "sample_screen = replicate 76800 0"

lemma sample_rect:
  "0 \<le> x \<Longrightarrow> x \<le> right' \<Longrightarrow> right' < 320 \<Longrightarrow> 0 \<le> y \<Longrightarrow> y \<le> bottom' \<Longrightarrow> bottom' < 240 \<Longrightarrow>
   rect_inside sample_screen x y right' bottom' 320"
  by (simp add: rect_inside_def sample_screen_def)

lemma try_send_image_succeeds:
  assumes "device_ready L s" "rect_inside framebuffer x y right' bottom' line_width"
    and "tickets_suffice s (rect_pixels x y right' bottom')"
    and "\<And>log bytes. reply_rc (hcd log bytes) = 0"
  shows "(\<exists>s'. rpusbdisp_usb_try_send_image hcd framebuffer x y right' bottom' line_width clear_dirty s = Inr (1, s')
      \<and> pool_inv L s')
    \<longleftrightarrow> \<not> exact_fill s framebuffer x y right' bottom' line_width"
  by (rule try_send_image_cases [OF assms(1,2), where hcd = hcd and clear_dirty = clear_dirty])
     (use assms(3,4) in \<open>auto simp: refused_log_def Let_def\<close>)

lemma sample_hyps:
  "device_ready [] (sample_state 64 1016 0x0104 3)"
  "tickets_suffice (sample_state 64 1016 0x0104 3) (rect_pixels 0 0 9 9)"
  "\<not> exact_fill (sample_state 64 1016 0x0104 3) sample_screen 0 0 9 9 320"
  by (simp_all add: sample_ready tickets_suffice_def worst_payload_def rect_pixels_def exact_fill_def
      image_estimate_def ticket_payload_def)

subsection \<open>Sending an image\<close>

text \<open>
  C1. An image that \<^verbatim>\<open>rpusbdisp_usb_try_send_image\<close> reports as sent arrives: the
  transfers it added to the log were all accepted, and a device that strips the packet headers,
  reads the command and expands the run-length encoding gets a bitblt of the requested position
  and size whose pixels are that region of the framebuffer, row by row.
\<close>

theorem send_image_delivers:
  assumes "device_ready L s" "rect_inside framebuffer x y right' bottom' line_width"
    and "rpusbdisp_usb_try_send_image hcd framebuffer x y right' bottom' line_width clear_dirty s = Inr (1, s')"
  shows "\<exists>us. usb_log s' = usb_log s @ map accepted us
    \<and> decode_bitblt (ep_size s) us = Some (image_packet s x y right' bottom' clear_dirty,
        region_pixels framebuffer x y right' bottom' line_width)"
  by (rule try_send_image_cases [OF assms(1,2), where hcd = hcd and clear_dirty = clear_dirty])
     (use assms(3) in auto)

theorem send_image_delivers_witness:
  "\<exists>s' us. rpusbdisp_usb_try_send_image accepting sample_screen 0 0 9 9 320 True
      (sample_state 64 1016 0x0104 3) = Inr (1, s')
    \<and> usb_log s' = map accepted us
    \<and> decode_bitblt 64 us = Some (image_packet (sample_state 64 1016 0x0104 3) 0 0 9 9 True,
        region_pixels sample_screen 0 0 9 9 320)"
proof -
  have rect: "rect_inside sample_screen 0 0 9 9 320"
    by (rule sample_rect) simp_all
  obtain s' where s': "rpusbdisp_usb_try_send_image accepting sample_screen 0 0 9 9 320 True
      (sample_state 64 1016 0x0104 3) = Inr (1, s')"
    using try_send_image_succeeds [OF sample_hyps(1) rect sample_hyps(2)] sample_hyps(3) accepting_rc by blast
  show ?thesis
    using send_image_delivers [OF sample_hyps(1) rect s'] s' by auto
qed

text \<open>
  C2. Whatever the controller answers, the operation returns (no write outside a transfer buffer, no
  use of a ticket it does not own), with one exception: for an image whose stream takes the tickets
  bought for it to the last byte it can hit the \<^verbatim>\<open>BUG_ON\<close> of
  \<^verbatim>\<open>_bitblt_encode_n_transfer_data\<close>. When it returns, every ticket is accounted
  for: all are free or in flight, but for those that a refused flush loses, which are the tickets
  bought and not yet used; and the rest of the device is unchanged.
\<close>

theorem send_image_safe:
  assumes "device_ready L s" "rect_inside framebuffer x y right' bottom' line_width"
  shows "case rpusbdisp_usb_try_send_image hcd framebuffer x y right' bottom' line_width clear_dirty s of
      Inl fault \<Rightarrow> fault = BugOn \<and> exact_fill s framebuffer x y right' bottom' line_width
        \<and> tickets_suffice s (rect_pixels x y right' bottom')
    | Inr (r, s') \<Rightarrow> r \<in> {0, 1} \<and> stable s' = stable s \<and> (\<exists>H. pool_inv (H @ L) s' \<and>
        (H = [] \<or> r = 0 \<and> (let sent = image_payload s framebuffer x y right' bottom' line_width div ticket_payload s
           in Suc (sent + length H) = tickets_bought s x y right' bottom'
            \<and> length (usb_log s') = length (usb_log s) + sent + 1)))"
proof (rule try_send_image_cases [OF assms, where hcd = hcd and clear_dirty = clear_dirty], goal_cases)
  case 1
  then show ?case using assms(1) by (auto simp: device_ready_def intro: exI [of _ "[]"])
next
  case 2
  then show ?case by (auto intro: exI [of _ "[]"])
next
  case 3
  then show ?case by (auto simp: refused_log_def Let_def)
next
  case 4
  then show ?case by (auto intro: exI [of _ "[]"])
next
  case 5
  then show ?case by simp
qed

theorem send_image_safe_witness:
  "\<exists>r s' H. rpusbdisp_usb_try_send_image refusing sample_screen 0 0 9 9 320 False
      (sample_state 64 1016 0x0104 3) = Inr (r, s') \<and> r \<in> {0, 1} \<and> pool_inv H s'"
  using send_image_safe [OF sample_hyps(1) sample_rect [of 0 9 0 9], of refusing False] sample_hyps(3)
  by (auto split: sum.splits prod.splits)

text \<open>
  C3. On a living device with enough free tickets for the estimate and a controller that accepts the
  transfers, the image is sent, and all tickets are free or in flight, if and only if its stream does
  not take the tickets bought for it to the last byte.
\<close>

theorem send_image_succeeds:
  assumes "device_ready L s" "rect_inside framebuffer x y right' bottom' line_width"
    and "tickets_suffice s (rect_pixels x y right' bottom')"
    and "\<And>log bytes. reply_rc (hcd log bytes) = 0"
  shows "(\<exists>s'. rpusbdisp_usb_try_send_image hcd framebuffer x y right' bottom' line_width clear_dirty s = Inr (1, s')
      \<and> pool_inv L s')
    \<longleftrightarrow> \<not> exact_fill s framebuffer x y right' bottom' line_width"
  using assms by (rule try_send_image_succeeds)

theorem send_image_succeeds_witness:
  "\<exists>s'. rpusbdisp_usb_try_send_image accepting sample_screen 0 0 9 9 320 False
      (sample_state 64 1016 0x0104 3) = Inr (1, s') \<and> pool_inv [] s'"
  using send_image_succeeds [OF sample_hyps(1) sample_rect [of 0 9 0 9] sample_hyps(2) accepting_rc] sample_hyps(3)
  by simp

text \<open>
  C4. An image whose encoding has the estimated size and fills the tickets bought for it to the
  last byte hits the \<^verbatim>\<open>BUG_ON\<close> of \<^verbatim>\<open>_bitblt_encode_n_transfer_data\<close>: the
  last payload byte closes the last packet, and the encoder asks for a further ticket to start a
  packet that has no payload left.
\<close>

theorem send_image_exact_fill_bug:
  assumes "device_ready L s" "rect_inside framebuffer x y right' bottom' line_width"
    and "tickets_suffice s (rect_pixels x y right' bottom')"
    and "9 + length (image_stream (rle_supported s) (region_pixels framebuffer x y right' bottom' line_width))
      = worst_payload (rle_supported s) (rect_pixels x y right' bottom')"
    and "factor s * (ep_size s - 1) dvd worst_payload (rle_supported s) (rect_pixels x y right' bottom')"
    and "\<And>log bytes. reply_rc (hcd log bytes) = 0"
  shows "rpusbdisp_usb_try_send_image hcd framebuffer x y right' bottom' line_width clear_dirty s = Inl BugOn"
  by (rule try_send_image_full [OF assms(1-3) _ assms(6)])
    (use assms(4,5) in \<open>simp add: exact_fill_def image_payload_def image_estimate_def ticket_payload_def\<close>)

text \<open>
  A high-speed device (512-byte endpoint, 127 packets per ticket) with run-length encoding and a
  screen on which no pixel repeats: full-width updates of 202 lines take two tickets exactly.
\<close>

definition striped_screen :: "u16 list" where
  "striped_screen = map (\<lambda>i. if even i then 0 else 0xffff) [0..<76800]"

lemma striped_region:
  "region_pixels striped_screen 0 0 319 201 320 = map (\<lambda>i. if even i then 0 else 0xffff) [0..<64640]"
proof -
  have "region_pixels striped_screen 0 0 319 201 320 = map (\<lambda>i. striped_screen ! nat i) [0..64639]"
    using region_full_width [of 320 0 201 "\<lambda>i. striped_screen ! nat i"] by (simp add: region_pixels_def)
  also have "\<dots> = map (\<lambda>i. striped_screen ! i) [0..<64640]"
    by (intro nth_equalityI) simp_all
  also have "\<dots> = map (\<lambda>i. if even i then 0 else 0xffff) [0..<64640]"
    by (intro map_cong refl) (simp add: striped_screen_def)
  finally show ?thesis .
qed

lemma striped_size:
  "length (rle_bytes (map cpu_to_le16 (region_pixels striped_screen 0 0 319 201 320))) = 129785"
proof -
  let ?px = "map cpu_to_le16 (region_pixels striped_screen 0 0 319 201 320)"
  have "distinct_adj ?px"
    unfolding striped_region distinct_adj_conv_nth by (auto simp: cpu_to_le16_def)
  moreover have "length ?px = 64640"
    by (simp add: length_region_pixels)
  ultimately show ?thesis
    using length_rle_bytes_distinct [of ?px] by auto
qed

theorem send_image_exact_fill_bug_witness:
  "rpusbdisp_usb_try_send_image accepting striped_screen 0 0 319 201 320 False
     (sample_state 512 127 0x0104 3) = Inl BugOn"
proof (rule send_image_exact_fill_bug [where L = "[]"])
  show "rect_inside striped_screen 0 0 319 201 320"
    by (simp add: rect_inside_def striped_screen_def)
qed (simp_all add: sample_ready tickets_suffice_def worst_payload_def rect_pixels_def image_stream_def striped_size)

text \<open>
  C5. A refused flush loses tickets. The stream of an image fills \<open>sent\<close> of the tickets
  bought for its estimate, and the controller accepts those and refuses the next one, the one that
  \<^verbatim>\<open>_bitblt_encoder_flush\<close> submits. The operation then answers 0 without the cleanup,
  and the tickets bought but not yet used, \<open>tickets_bought - sent - 1\<close> of them, are neither
  free nor in flight: the tickets that are have become fewer by exactly that number.
\<close>

theorem refused_flush_loses_tickets:
  assumes "device_ready L s" "rect_inside framebuffer x y right' bottom' line_width"
    and "tickets_suffice s (rect_pixels x y right' bottom')"
    and "image_payload s framebuffer x y right' bottom' line_width div ticket_payload s = sent"
    and "sent < tickets_bought s x y right' bottom'"
    and "\<And>log bytes. length log < length (usb_log s) + sent \<Longrightarrow> reply_rc (hcd log bytes) = 0"
    and "\<And>log bytes. length log = length (usb_log s) + sent \<Longrightarrow> reply_rc (hcd log bytes) \<noteq> 0"
  shows "\<exists>s'. rpusbdisp_usb_try_send_image hcd framebuffer x y right' bottom' line_width clear_dirty s = Inr (0, s')
    \<and> disp_urb_count (pool s') = disp_urb_count (pool s)
    \<and> length (free_tickets s') + length (inflight s') + (tickets_bought s x y right' bottom' - sent - 1)
      = length (free_tickets s) + length (inflight s)"
proof -
  obtain s' H where s': "rpusbdisp_usb_try_send_image hcd framebuffer x y right' bottom' line_width clear_dirty s = Inr (0, s')"
    "pool_inv (H @ L) s'" "stable s' = stable s" "Suc (sent + length H) = tickets_bought s x y right' bottom'"
    by (rule try_send_image_lost [where hcd = hcd and clear_dirty = clear_dirty, OF assms]) blast
  have "pool_inv L s"
    using assms(1) by (simp add: device_ready_def)
  then show ?thesis
    using s'(1,4) pool_invD(3) [OF s'(2)] pool_invD(3) [of L s] stable_facts [OF s'(3)]
    by (intro exI [of _ s']) simp
qed

text \<open>
  A one-colour square of 64 pixels: estimated at three tickets of one 64-byte packet, its stream is
  three bytes, so that refusing its only transfer loses two tickets of three.
\<close>

theorem refused_flush_loses_tickets_witness:
  "\<exists>s'. rpusbdisp_usb_try_send_image refusing sample_screen 0 0 7 7 320 False (sample_state 64 1 0x0104 3) = Inr (0, s')
    \<and> disp_urb_count (pool s') = 3 \<and> length (free_tickets s') + length (inflight s') = 1"
proof -
  let ?s = "sample_state 64 1 0x0104 3"
  have "length (region_pixels sample_screen 0 0 7 7 320) = 64"
    by (simp add: length_region_pixels)
  then have "region_pixels sample_screen 0 0 7 7 320 = replicate 64 0"
    by (rule replicate_eqI) (auto simp: region_pixels_def sample_screen_def)
  moreover have "rle_bytes (replicate 64 [0, 0]) = [0xbf, 0, 0]"
    by (simp add: rle_bytes_def numeral_eq_Suc section_bytes_def section_header_def
        RPUSBDISP_RLE_BLOCKFLAG_SIZE_BIT_def RPUSBDISP_RLE_BLOCKFLAG_COMMON_BIT_def)
  ultimately have sent: "image_payload ?s sample_screen 0 0 7 7 320 div ticket_payload ?s = 0"
    by (simp add: image_payload_def image_stream_def cpu_to_le16_def ticket_payload_def)
  have bought: "tickets_bought ?s 0 0 7 7 = 3"
    by (simp add: tickets_bought_def image_estimate_def ticket_payload_def worst_payload_def rect_pixels_def)
  have "tickets_suffice ?s (rect_pixels 0 0 7 7)"
    by (simp add: tickets_suffice_def worst_payload_def rect_pixels_def)
  then show ?thesis
    using refused_flush_loses_tickets [of "[]" ?s sample_screen 0 0 7 7 320 0 refusing False, OF _ _ _ sent] bought
    by (auto simp: sample_ready sample_rect)
qed

end
