(* ===== verification/Display_Properties.thy ===== *)
theory Display_Properties
  imports Display_Sync Image_Properties
begin

text \<open>
  What holds of the framebuffer operations: drawing keeps the display in sync, the flush after the
  last transfer brings it back in sync, and the accelerated fill and copy forget what was pending.
\<close>

subsection \<open>A bound framebuffer to apply the theorems to\<close>

definition bound_state :: st where
  "bound_state = sample_state 64 1016 0x0103 4"

lemma bound_ready: "fb_ready [] bound_state"
  by (simp add: fb_ready_def bound_state_def sample_ready screen_ok_def sample_fb_def rect_ok_def)

text \<open>Its firmware has no run-length encoding, so every estimate is odd and no image fills a ticket.\<close>

lemma odd_estimate_no_fill:
  assumes "\<not> rle_supported s" "even (ticket_payload s)"
  shows "\<not> ticket_payload s dvd image_estimate s x y right' bottom'" "\<not> update_exact_fill x y width height s"
proof -
  have "odd (image_estimate s x y right' bottom')" for x y right' bottom'
    using assms(1) by (simp add: image_estimate_def worst_payload_def)
  then have "\<not> ticket_payload s dvd image_estimate s x y right' bottom'" for x y right' bottom'
    using assms(2) dvd_trans by blast
  then show "\<not> ticket_payload s dvd image_estimate s x y right' bottom'" "\<not> update_exact_fill x y width height s"
    by (simp_all add: update_exact_fill_def exact_fill_def Let_def)
qed

lemma bound_no_rle [simp]: "\<not> rle_supported bound_state" "even (ticket_payload bound_state)"
  by (simp_all add: bound_state_def ticket_payload_def)

lemma bound_fields [simp]:
  "binded_usbdev (par (fb bound_state)) = Some 0" "unsync_flag (par (fb bound_state)) = 0"
  "smem (fb bound_state) = replicate 76800 0" "usb_log bound_state = []" "ep_size bound_state = 64"
  "rpusbdisp_usb_get_fbhandle (dv bound_state) = Some 0" "is_alive (dv bound_state)"
  "rect_of bound_state = \<lparr>left = 0, top = 0, right = 0, bottom = 0, dirty_flag = 0\<rparr>"
  by (simp_all add: bound_state_def sample_state_def sample_dev_def sample_fb_def rpusbdisp_usb_get_fbhandle_def)

text \<open>A black display, in sync with the black framebuffer.\<close>

lemma bound_sync: "in_sync (\<lambda>x y. 0) bound_state"
  by (auto simp: in_sync_def fb_pixel_def on_screen_def)

subsection \<open>Drawing\<close>

text \<open>A software drawing operation that stays in its rectangle.\<close>

definition draws_inside :: "(fb_info \<Rightarrow> 'a \<Rightarrow> u16 list) \<Rightarrow> 'a \<Rightarrow> int \<Rightarrow> int \<Rightarrow> int \<Rightarrow> int \<Rightarrow> st \<Rightarrow> bool" where
  "draws_inside sys_draw what x y width height s \<longleftrightarrow>
     length (sys_draw (fb s) what) = length (smem (fb s)) \<and>
     (\<forall>px py. on_screen px py \<and> \<not> in_request x y width height px py \<longrightarrow>
        sys_draw (fb s) what ! nat (py * 320 + px) = smem (fb s) ! nat (py * 320 + px))"

lemma draw_facts [simp]:
  "rect_of (draw sys_draw what s) = rect_of s" "unsync_flag (par (fb (draw sys_draw what s))) = unsync_flag (par (fb s))"
  "binded_usbdev (par (fb (draw sys_draw what s))) = binded_usbdev (par (fb s))"
  "usb_log (draw sys_draw what s) = usb_log s" "ep_size (draw sys_draw what s) = ep_size s"
  "smem (fb (draw sys_draw what s)) = sys_draw (fb s) what"
  by (simp_all add: draw_def)

lemma pool_inv_draw [simp]: "pool_inv L (draw sys_draw what s) = pool_inv L s"
  by (simp add: pool_inv_def draw_def)

lemma draw_ready:
  assumes "fb_ready L s" "draws_inside sys_draw what x y width height s"
  shows "fb_ready L (draw sys_draw what s)"
  using assms by (simp add: fb_ready_def device_ready_def screen_ok_def draws_inside_def) (simp add: draw_def)

lemma draw_sync:
  assumes "in_sync scr s" "draws_inside sys_draw what x y width height s"
  shows "in_sync_except x y width height scr (draw sys_draw what s)"
  unfolding in_sync_except_def
proof (intro allI impI)
  fix px py
  assume px: "on_screen px py"
  show "scr px py = fb_pixel (fb (draw sys_draw what s)) px py \<or> pending (draw sys_draw what s) px py \<or> in_request x y width height px py"
  proof (cases "in_request x y width height px py")
    case False
    then have "fb_pixel (fb (draw sys_draw what s)) px py = fb_pixel (fb s) px py"
      using assms(2) px by (simp add: draws_inside_def fb_pixel_def)
    then show ?thesis
      using assms(1) px by (auto simp: in_sync_def pending_def)
  qed simp
qed

lemma rle_supported_draw [simp]: "rle_supported (draw sys_draw what s) = rle_supported s"
  by (simp add: rle_supported_def draw_def)

lemma ticket_payload_draw [simp]: "ticket_payload (draw sys_draw what s) = ticket_payload s"
  by (simp add: ticket_payload_def draw_def)

lemma image_estimate_draw [simp]: "image_estimate (draw sys_draw what s) = image_estimate s"
  by (simp add: fun_eq_iff image_estimate_def)

lemma kept_in_sync_draw: "kept_in_sync scr (draw sys_draw what s) s' = kept_in_sync scr s s'"
  by (simp add: kept_in_sync_def)

text \<open>
  C10. Drawing an image keeps the display in sync: from a display that shows the framebuffer except
  where an update is pending, when \<^verbatim>\<open>_display_imageblit\<close> returns, either the transfers
  of one bitblt were accepted, which make the device show the framebuffer again with nothing left in
  the dirty rectangle, or everything that may differ is still pending, even if a transfer was cut off
  half way. It returns unless the image of the dirty rectangle takes the tickets bought for it to the
  last byte: the only fault there is, the \<^verbatim>\<open>BUG_ON\<close>, means that it does.
\<close>

theorem imageblit_keeps_sync:
  fixes hcd :: hcd
  assumes "fb_ready L s" "binded_usbdev (par (fb s)) \<noteq> None" "in_sync scr s"
    and "request_ok (sint (im_dx img)) (sint (im_dy img)) (sint (im_width img)) (sint (im_height img))"
    and "draws_inside sys_imageblit img (sint (im_dx img)) (sint (im_dy img)) (sint (im_width img))
      (sint (im_height img)) s"
  shows "case display_imageblit sys_imageblit hcd img s of
      Inl fault \<Rightarrow> fault = BugOn \<and> update_exact_fill (sint (im_dx img)) (sint (im_dy img)) (sint (im_width img))
        (sint (im_height img)) (draw sys_imageblit img s)
    | Inr s' \<Rightarrow> (\<exists>H. fb_ready (H @ L) s') \<and> kept_in_sync scr s s'"
  by (rule display_update_sync [OF draw_ready [OF assms(1,5)] assms(4) _ _ draw_sync [OF assms(3,5)],
      of DISPLAY_UPDATE_HINT_BITBLT, where hcd = hcd])
    (use assms(2) in \<open>auto simp: display_imageblit_def kept_in_sync_draw\<close>)

theorem imageblit_keeps_sync_witness:
  "\<exists>s' H. display_imageblit (\<lambda>p img. (smem p)[0 := 0xffff]) accepting
      \<lparr>im_dx = 0, im_dy = 0, im_width = 8, im_height = 8, im_data = []\<rparr> bound_state = Inr s'
    \<and> fb_ready (H @ []) s' \<and> kept_in_sync (\<lambda>x y. 0) bound_state s'"
proof -
  let ?img = "\<lparr>im_dx = 0, im_dy = 0, im_width = 8, im_height = 8, im_data = []\<rparr>"
  let ?sys = "\<lambda>p img. (smem p)[0 := 0xffff]"
  have "draws_inside ?sys ?img (sint (im_dx ?img)) (sint (im_dy ?img)) (sint (im_width ?img)) (sint (im_height ?img)) bound_state"
    by (auto simp: draws_inside_def on_screen_def in_request_def nth_list_update)
  from imageblit_keeps_sync [OF bound_ready _ bound_sync _ this, of accepting]
  show ?thesis
    by (auto simp: request_ok_def odd_estimate_no_fill split: sum.splits)
qed

text \<open>
  C11. Writing to the framebuffer file keeps the display in sync, whatever part of the screen memory
  the write changed: the whole screen is sent, or is pending afterwards. The estimate for the whole
  screen must not be a multiple of what a ticket carries; it is none for any endpoint of up to 1024
  bytes (\<open>screen_never_fills\<close>).
\<close>

theorem write_keeps_sync:
  fixes hcd :: hcd
  assumes "fb_ready L s" "binded_usbdev (par (fb s)) \<noteq> None" "in_sync scr s"
    and "\<not> ticket_payload s dvd image_estimate s 0 0 319 239"
    and "length (snd (fb_sys_write (fb s) data)) = length (smem (fb s))"
  shows "\<exists>s' H. display_write fb_sys_write hcd data s = Inr (c_int (fst (fb_sys_write (fb s) data)), s')
    \<and> fb_ready (H @ L) s' \<and> kept_in_sync scr s s'"
proof -
  let ?d = "draw (\<lambda>p w. snd (fb_sys_write p w)) data s"
  have inside: "draws_inside (\<lambda>p w. snd (fb_sys_write p w)) data 0 0 320 240 s"
    using assms(5) by (auto simp: draws_inside_def on_screen_def in_request_def)
  have "sint (var_width (fb ?d)) = 320" "sint (var_height (fb ?d)) = 240"
    using assms(1) by (simp_all add: draw_def fb_ready_def screen_ok_def)
  moreover obtain s' H where "display_update hcd 0 0 320 240 DISPLAY_UPDATE_HINT_NONE ?d = Inr s'" "fb_ready (H @ L) s'"
      "kept_in_sync scr s s'"
    by (rule full_update_sync [OF draw_ready [OF assms(1) inside] _ _ draw_sync [OF assms(3) inside], where hcd = hcd])
      (use assms(2,4) in \<open>auto simp: kept_in_sync_draw\<close>)
  ultimately show ?thesis
    by (auto simp: display_write_def Let_def)
qed

theorem write_keeps_sync_witness:
  "\<exists>s' H. display_write (\<lambda>p w. (5, replicate 76800 w)) accepting 0x1234 bound_state = Inr (5, s')
    \<and> fb_ready (H @ []) s' \<and> kept_in_sync (\<lambda>x y. 0) bound_state s'"
  using write_keeps_sync [where fb_sys_write = "\<lambda>p w. (5, replicate 76800 w)" and data = "0x1234" and hcd = accepting,
      OF bound_ready _ bound_sync]
  by (simp add: c_int_id odd_estimate_no_fill)

end
