(* ===== verification/Display_Flush.thy ===== *)
theory Display_Flush
  imports Fb_Device Display_Properties
begin

text \<open>
  The two updates that no drawing operation asks for: the flush after the last transfer came back,
  and the deferred io handler after a process wrote into the mapped screen memory.
\<close>

subsection \<open>The flush\<close>

lemma kept_in_sync_refl: "in_sync scr s \<Longrightarrow> kept_in_sync scr s s"
  unfolding kept_in_sync_def
proof (intro disjI2 allI impI)
  fix scr' assume "in_sync scr s" "same_outside (rect_of s) scr scr'"
  then show "in_sync scr' s"
    unfolding in_sync_def same_outside_def pending_def by metis
qed

lemma kept_in_sync_scheduled:
  "kept_in_sync scr (pool_update (completion_work_update f) s) s' = kept_in_sync scr s s'"
  by (simp add: kept_in_sync_def)

lemma scheduled_ready:
  assumes "fb_ready L s"
  shows "fb_ready L (pool_update (completion_work_update f) s)"
  using assms
  by (simp add: fb_ready_def device_ready_def pool_inv_def screen_ok_def rle_supported_def)

lemma scheduled_estimate [simp]:
  "ticket_payload (pool_update (completion_work_update f) s) = ticket_payload s"
  "image_estimate (pool_update (completion_work_update f) s) = image_estimate s"
  by (simp_all add: fun_eq_iff ticket_payload_def image_estimate_def rle_supported_def)

text \<open>
  C12. The delayed work that runs when all transfers are done never faults and keeps the display in
  sync: whatever is pending is sent, or stays pending if a transfer is refused. The estimate for the
  whole screen must not be a multiple of what a ticket carries, which no USB endpoint makes it.
\<close>

theorem flush_keeps_sync:
  fixes hcd :: hcd
  assumes "fb_ready L s" "binded_usbdev (par (fb s)) \<noteq> None" "in_sync scr s"
    and "\<not> ticket_payload s dvd image_estimate s 0 0 319 239"
  shows "\<exists>s' H. on_display_transfer_finished_delaywork hcd s = Inr s' \<and> fb_ready (H @ L) s' \<and> kept_in_sync scr s s'"
proof -
  let ?s = "pool_update (completion_work_update (\<lambda>_. False)) s"
  have ready: "fb_ready ([] @ L) ?s"
    using scheduled_ready [OF assms(1)] by simp
  have sync: "in_sync scr ?s"
    using assms(3) by (simp add: in_sync_def pending_def)
  then have keep: "kept_in_sync scr s ?s"
    using kept_in_sync_refl [of scr ?s] by (simp only: kept_in_sync_scheduled)
  have except: "in_sync_except 0 0 320 240 scr ?s"
    using sync by (auto simp: in_sync_def in_sync_except_def)
  obtain s' H where update: "display_update hcd 0 0 320 240 DISPLAY_UPDATE_HINT_NONE ?s = Inr s'"
      "fb_ready (H @ L) s'" "kept_in_sync scr s s'"
    by (rule full_update_sync [OF scheduled_ready [OF assms(1), of "\<lambda>_. False"] _ _ except, where hcd = hcd])
      (use assms(2,4) in \<open>auto simp: kept_in_sync_scheduled\<close>)
  have "on_display_transfer_finished_delaywork hcd s = Inr ?s \<or> on_display_transfer_finished_delaywork hcd s = Inr s'"
    using update(1) by (auto simp: on_display_transfer_finished_delaywork_def fbhandler_on_all_transfer_done_def
        conf_defs Let_def)
  then show ?thesis
    using ready keep update(2,3) by blast
qed

theorem flush_keeps_sync_witness:
  "\<exists>s' H. on_display_transfer_finished_delaywork accepting bound_state = Inr s' \<and> fb_ready (H @ []) s'
    \<and> kept_in_sync (\<lambda>x y. 0) bound_state s'"
  by (rule flush_keeps_sync [OF bound_ready _ bound_sync]) (simp_all add: odd_estimate_no_fill)

text \<open>
  C13. The flush catches up: with something pending, enough free tickets, an estimate for the screen
  that is not a multiple of what a ticket carries, and a controller that accepts, the delayed work
  sends one bitblt after which the device shows the whole framebuffer, and nothing is pending any
  more.
\<close>

theorem flush_shows_framebuffer:
  fixes hcd :: hcd
  assumes "fb_ready L s" "binded_usbdev (par (fb s)) \<noteq> None"
    and "is_alive (dv s)" "fb_handle (dv s) \<noteq> None"
    and "dirty_flag (rect_of s) \<noteq> 0 \<or> unsync_flag (par (fb s)) = 1"
    and "\<not> ticket_payload s dvd image_estimate s 0 0 319 239"
    and "tickets_suffice s 76800" "\<And>log bytes. reply_rc (hcd log bytes) = 0"
  shows "\<exists>s' us p. on_display_transfer_finished_delaywork hcd s = Inr s' \<and> fb_ready L s'
    \<and> usb_log s' = usb_log s @ map accepted us \<and> decode_bitblt (ep_size s) us = Some p
    \<and> (\<forall>scr x y. on_screen x y \<longrightarrow> paint p scr x y = fb_pixel (fb s') x y)
    \<and> fb_pixel (fb s') = fb_pixel (fb s) \<and> rect_of s' = clear_dirty_rect (rect_of s')"
proof -
  let ?s = "pool_update (completion_work_update (\<lambda>_. False)) s"
  have ready: "fb_ready L ?s"
    using scheduled_ready [OF assms(1)] .
  have run: "on_display_transfer_finished_delaywork hcd s = display_update hcd 0 0 320 240 DISPLAY_UPDATE_HINT_NONE ?s"
    using assms(3-5) by (auto simp: on_display_transfer_finished_delaywork_def fbhandler_on_all_transfer_done_def
        conf_defs Let_def rpusbdisp_usb_get_fbhandle_def)
  have bound: "binded_usbdev (par (fb ?s)) \<noteq> None"
    using assms(2) by simp
  let ?r = "update_rect 0 0 320 240 ?s"
  note r = full_update_rect [OF ready]
  show ?thesis
  proof (cases rule: display_update_image_cases [OF ready full_request bound, of DISPLAY_UPDATE_HINT_NONE, where hcd = hcd])
    case 1
    then show ?case by simp
  next
    case (2 s' us)
    then show ?thesis
      using run r ready
      by (intro exI [of _ s'] exI [of _ us]) (auto simp: paint_image fb_ready_def screen_ok_def fb_pixel_def on_screen_def)
  next
    case (3 s' H)
    moreover have "tickets_suffice ?s (rect_pixels (left ?r) (top ?r) (right ?r) (bottom ?r))"
      using assms(7) by (simp add: r rect_pixels_def tickets_suffice_def rle_supported_def)
    ultimately show ?thesis
      using assms(8) by (auto simp: refused_log_def)
  next
    case 4
    then show ?thesis
      using full_update_fill [OF ready] assms(6) by simp
  qed
qed

theorem flush_shows_framebuffer_witness:
  "\<exists>s' us p. on_display_transfer_finished_delaywork accepting (private_update (unsync_flag_update (\<lambda>_. 1)) bound_state) = Inr s'
    \<and> fb_ready [] s' \<and> usb_log s' = map accepted us \<and> decode_bitblt 64 us = Some p
    \<and> (\<forall>scr x y. on_screen x y \<longrightarrow> paint p scr x y = fb_pixel (fb s') x y)
    \<and> fb_pixel (fb s') = fb_pixel (fb bound_state) \<and> rect_of s' = clear_dirty_rect (rect_of s')"
proof -
  let ?s = "private_update (unsync_flag_update (\<lambda>_. 1)) bound_state"
  have "fb_ready [] ?s"
    using bound_ready by (simp add: fb_ready_def device_ready_def screen_ok_def rle_supported_def)
  moreover have "\<not> ticket_payload ?s dvd image_estimate ?s 0 0 319 239"
    using bound_no_rle by (intro odd_estimate_no_fill(1)) (simp_all add: rle_supported_def ticket_payload_def)
  moreover have "tickets_suffice ?s 76800"
    by (simp add: tickets_suffice_def bound_state_def sample_rle worst_payload_def rle_supported_def
        RP_DISP_FEATURE_RLE_FWVERSION_def)
  moreover have "fb_handle (dv bound_state) \<noteq> None"
    using bound_fields(6) by (simp add: rpusbdisp_usb_get_fbhandle_def)
  ultimately show ?thesis
    using flush_shows_framebuffer [of "[]" ?s accepting] by (simp add: fb_pixel_def fun_eq_iff)
qed

subsection \<open>Pages written through the mapping\<close>








end
