(* ===== verification/Status_Touch.thy ===== *)
theory Status_Touch
  imports Framebuffer Fb_Device
begin

text \<open>
  The input side of the driver: the touch device of \<^verbatim>\<open>touchhandlers.c\<close>, and the
  status packets of \<^verbatim>\<open>usbhandlers.c\<close>, from the URB that polls for them to the touch
  event and the unsync flag they lead to.
\<close>

subsection \<open>The touch device\<close>

datatype input_event_type = EV_SYN | EV_KEY | EV_ABS
datatype input_axis = ABS_X | ABS_Y | ABS_PRESSURE

record input_dev =
  evbit :: "input_event_type set"
  keybit_touch :: bool
  absinfo :: "input_axis \<rightharpoonup> int \<times> int"

text \<open>What the driver reports to the input core.\<close>

datatype input_event =
    ReportAbs input_axis int
  | ReportTouchKey int
  | InputSync

record touch_st =
  default_input_dev :: "input_dev option"
  live_flag :: bool
  input_registered :: bool
  input_log :: "input_event list"

text \<open>
  The test of the source is on the pointer to the result, which is never NULL; a failed
  allocation is dereferenced.
\<close>

definition on_create_input_dev :: "input_dev option \<Rightarrow> int \<Rightarrow> touch_st \<Rightarrow> fault + (int \<times> touch_st)" where
  "on_create_input_dev allocated register_rc t =
     (case allocated of
        None \<Rightarrow> Inl NullDeref
      | Some d \<Rightarrow>
          (let d = d\<lparr>evbit := {EV_SYN, EV_KEY, EV_ABS}, keybit_touch := True,
                     absinfo := (absinfo d)(ABS_X \<mapsto> (0, RP_DISP_DEFAULT_WIDTH),
                       ABS_Y \<mapsto> (0, RP_DISP_DEFAULT_HEIGHT), ABS_PRESSURE \<mapsto> (0, 1))\<rparr>
           in Inr (register_rc, t\<lparr>default_input_dev := Some d,
                input_registered := (register_rc = 0 \<or> input_registered t)\<rparr>)))"

definition on_release_input_dev :: "touch_st \<Rightarrow> fault + touch_st" where
  "on_release_input_dev t =
     (if default_input_dev t = None then Inl NullDeref else Inr (t\<lparr>input_registered := False\<rparr>))"

definition register_touch_handler :: "input_dev option \<Rightarrow> int \<Rightarrow> touch_st \<Rightarrow> fault + (int \<times> touch_st)" where
  "register_touch_handler allocated register_rc t =
     kbind (on_create_input_dev allocated register_rc t) (\<lambda>(ret, t).
       Inr (ret, if ret = 0 then t\<lparr>live_flag := True\<rparr> else t))"

definition unregister_touch_handler :: "touch_st \<Rightarrow> fault + touch_st" where
  "unregister_touch_handler t =
     kbind (on_release_input_dev (t\<lparr>live_flag := False\<rparr>)) (\<lambda>t. Inr (t\<lparr>default_input_dev := None\<rparr>))"

definition touchhandler_on_new_device :: "touch_st \<Rightarrow> int \<times> touch_st" where
  "touchhandler_on_new_device t = (0, t)"

definition touchhandler_on_remove_device :: "touch_st \<Rightarrow> touch_st" where
  "touchhandler_on_remove_device t = t"

definition touchhandler_send_ts_event :: "int \<Rightarrow> int \<Rightarrow> int \<Rightarrow> touch_st \<Rightarrow> touch_st" where
  "touchhandler_send_ts_event x y touch t =
     (if default_input_dev t = None \<or> \<not> live_flag t then t
      else if touch \<noteq> 0
      then t\<lparr>input_log := input_log t @ [ReportAbs ABS_X x, ReportAbs ABS_Y y, ReportAbs ABS_PRESSURE 1,
               ReportTouchKey 1, InputSync]\<rparr>
      else t\<lparr>input_log := input_log t @ [ReportAbs ABS_PRESSURE 0, ReportTouchKey 0, InputSync]\<rparr>)"

subsection \<open>Status packets\<close>

text \<open>The driver state with the touch device.\<close>

type_synonym drv = "st \<times> touch_st"

text \<open>
  The packet is read from the status buffer by its packed layout, whatever length was received:
  type, display status and touch status, then the two little-endian coordinates.
\<close>

definition packet_in_buffer :: "u8 list \<Rightarrow> fault + rpusbdisp_status_normal_packet_t" where
  "packet_in_buffer buf =
     (if length buf < 11 then Inl OutOfBounds
      else Inr \<lparr>packet_type = buf ! 0, display_status = buf ! 1, touch_status = buf ! 2,
        touch_x = le32_to_cpu (buf ! 3) (buf ! 4) (buf ! 5) (buf ! 6),
        touch_y = le32_to_cpu (buf ! 7) (buf ! 8) (buf ! 9) (buf ! 10)\<rparr>)"

definition on_parse_status_packet :: "drv \<Rightarrow> fault + drv" where
  "on_parse_status_packet = (\<lambda>(s, t).
     kbind (packet_in_buffer (status_in_buffer (dv s))) (\<lambda>p.
       if packet_type p = RPUSBDISP_STATUS_TYPE_NORMAL then
         kbind (if display_status p AND RPUSBDISP_DISPLAY_STATUS_DIRTY_FLAG \<noteq> 0
                then kbind (fbhandler_set_unsync_flag s) (\<lambda>s. Inr (schedule_completion_work s))
                else Inr s) (\<lambda>s.
           Inr (s, touchhandler_send_ts_event (sint (touch_x p)) (sint (touch_y p))
                     (if touch_status p = RPUSBDISP_TOUCH_STATUS_PRESSED then 1 else 0) t))
       else Inr (s, t)))"

subsection \<open>Polling\<close>

definition EPIPE :: int where "EPIPE = 32"

text \<open>
  \<^verbatim>\<open>ep_found\<close> says that the endpoint of the pipe exists, \<^verbatim>\<open>rc\<close> is the answer of
  \<^verbatim>\<open>usb_submit_urb\<close>. The boolean of the result says that the halt was cleared.
\<close>

definition status_start_querying :: "bool \<Rightarrow> int \<Rightarrow> rpusbdisp_dev \<Rightarrow> fault + (bool \<times> rpusbdisp_dev)" where
  "status_start_querying ep_found rc dev =
     (if \<not> is_alive dev then Inr (False, dev)
      else if urb_status_fail_count dev \<ge> RPUSBDISP_STATUS_QUERY_RETRY_COUNT then Inr (False, dev)
      else if \<not> ep_found then Inr (False, dev)
      else if urb_status_query dev = None then Inl NullDeref
      else if rc \<noteq> 0
      then Inr (rc = - EPIPE, dev\<lparr>urb_status_fail_count := urb_status_fail_count dev + 1\<rparr>)
      else Inr (False, dev\<lparr>urb_status_query := Some True\<rparr>))"

text \<open>
  The completion handler of the status URB. The controller has stored the received bytes in the
  status buffer and given the URB back.
\<close>

definition on_status_query_finished :: "int \<Rightarrow> nat \<Rightarrow> bool \<Rightarrow> int \<Rightarrow> drv \<Rightarrow> fault + drv" where
  "on_status_query_finished urb_st actual_length ep_found rc = (\<lambda>(s, t).
     if \<not> is_alive (dv s) then Inr (s, t)
     else
       kbind (if urb_st = 0
              then on_parse_status_packet (dv_update (status_in_buffer_recvsize_update (\<lambda>_. actual_length)) s, t)
              else Inr (dv_update (urb_status_fail_count_update (\<lambda>_. RPUSBDISP_STATUS_QUERY_RETRY_COUNT)) s, t))
         (\<lambda>(s, t).
            if urb_status_fail_count (dv s) < RPUSBDISP_STATUS_QUERY_RETRY_COUNT
            then kbind (status_start_querying ep_found rc (dv s)) (\<lambda>(_, d). Inr (dv_update (\<lambda>_. d) s, t))
            else Inr (s, t)))"

definition status_urb_returns :: "u8 list \<Rightarrow> int \<Rightarrow> bool \<Rightarrow> int \<Rightarrow> drv \<Rightarrow> fault + drv" where
  "status_urb_returns received urb_st ep_found rc = (\<lambda>(s, t).
     if urb_status_query (dv s) \<noteq> Some True then Inr (s, t)
     else
       on_status_query_finished urb_st (length received) ep_found rc
         (dv_update (\<lambda>d. d\<lparr>urb_status_query := Some False,
            status_in_buffer := take (length (status_in_buffer d)) (received @ drop (length received) (status_in_buffer d))\<rparr>) s, t))"

end
