(* ===== verification/Device_Lifecycle.thy ===== *)
theory Device_Lifecycle
  imports Status_Touch
begin

text \<open>
  The life of a display device in \<^verbatim>\<open>usbhandlers.c\<close>: the probe that finds the endpoints,
  the allocation of the ticket pool, coming up, and the disconnect that waits for all tickets. The
  state is that of the host (device list, interface data) and of the one device.
\<close>

subsection \<open>The ticket pool\<close>

text \<open>
  How the kernel answers the allocations of one ticket: which one fails, or the new ticket with the
  contents of its transfer buffer.
\<close>

datatype ticket_alloc = NoTicketMemory | NoTicketUrb | NoTransferBuffer | NewTicket tid "u8 list"

fun alloc_tickets :: "nat \<Rightarrow> nat \<Rightarrow> (nat \<Rightarrow> ticket_alloc) \<Rightarrow> nat \<Rightarrow> st \<Rightarrow> nat \<times> st" where
  "alloc_tickets ticket_logic_size 0 answers actual_allocated s = (actual_allocated, s)"
| "alloc_tickets ticket_logic_size (Suc rounds) answers actual_allocated s =
     (case answers actual_allocated of
        NewTicket t buf \<Rightarrow>
          alloc_tickets ticket_logic_size rounds answers (Suc actual_allocated)
            (pool_update (pool_list_update (\<lambda>l. l @ [t]))
              (s\<lparr>tickets := (tickets s)(t \<mapsto> \<lparr>transfer_buffer = buf, transfer_buffer_length = ticket_logic_size,
                  urb_status = 0\<rparr>)\<rparr>))
      | _ \<Rightarrow> (actual_allocated, s))"

definition on_alloc_disp_tickets_pool :: "(nat \<Rightarrow> ticket_alloc) \<Rightarrow> st \<Rightarrow> fault + (int \<times> st)" where
  "on_alloc_disp_tickets_pool answers s =
     (if ep_size s = 0 then Inl DivByZero
      else
        (let size_factor = RPUSBDISP_MAX_TRANSFER_SIZE div ep_size s;
             ticket_logic_size = size_factor * ep_size s;
             s1 = pool_update (pool_list_update (\<lambda>_. [])) s;
             (n, s2) = alloc_tickets ticket_logic_size RPUSBDISP_MAX_TRANSFER_TICKETS_COUNT answers 0 s1
         in Inr (if n \<noteq> 0 then 0 else - ENOMEM,
                 pool_update (\<lambda>p. p\<lparr>completion_work := False, disp_urb_count := n, availiable_count := int n,
                    packet_size_factor := size_factor\<rparr>) s2)))"

text \<open>
  The release waits until it has got every ticket. Each wait lets the USB core complete some URBs;
  the waits are given as a list, and no result means that the loop still waits after them.
\<close>

function release_tickets :: "(tid \<times> int) list list \<Rightarrow> nat \<Rightarrow> st \<Rightarrow> fault + st option" where
  "release_tickets waits 0 s = Inr (Some s)"
| "release_tickets waits (Suc tickets_count) s =
     (if availiable_count (pool s) \<noteq> 0 then
        (case free_tickets s of
           [] \<Rightarrow> Inl ListCorrupt
         | t # nodes \<Rightarrow>
             if tickets s t = None then Inl UseAfterFree
             else release_tickets waits tickets_count
                    (pool_update (\<lambda>p. p\<lparr>availiable_count := availiable_count p - 1, pool_list := nodes\<rparr>)
                      (s\<lparr>tickets := (tickets s)(t := None)\<rparr>)))
      else
        (case waits of
           [] \<Rightarrow> Inr None
         | w # rest \<Rightarrow> kbind (complete_urbs w s) (release_tickets rest (Suc tickets_count))))"
  by pat_completeness auto

termination release_tickets
  by (relation "measure (\<lambda>(waits, n, s). length waits + n)") auto

definition on_release_disp_tickets_pool :: "(tid \<times> int) list list \<Rightarrow> st \<Rightarrow> fault + st option" where
  "on_release_disp_tickets_pool waits s = release_tickets waits (disp_urb_count (pool s)) s"

subsection \<open>The device list\<close>

record host =
  devlist :: "dev_ptr list"
  devlist_count :: int
  intfdata :: "dev_ptr option"
  allocated_devs :: "dev_ptr set"
  udev_refs :: int

definition add_usbdev_to_list :: "dev_ptr \<Rightarrow> host \<Rightarrow> host" where
  "add_usbdev_to_list dev h = h\<lparr>devlist := dev # devlist h, devlist_count := devlist_count h + 1\<rparr>"

definition del_usbdev_from_list :: "dev_ptr \<Rightarrow> host \<Rightarrow> host" where
  "del_usbdev_from_list dev h = h\<lparr>devlist := remove1 dev (devlist h), devlist_count := devlist_count h - 1\<rparr>"

definition rpusbdisp_usb_get_device_count :: "host \<Rightarrow> int" where
  "rpusbdisp_usb_get_device_count h = devlist_count h"

subsection \<open>Coming up\<close>

text \<open>How the kernel answers the calls of a probe.\<close>

record usb_endpoint =
  int_in :: bool
  bulk_out :: bool
  bEndpointAddress :: u8
  wMaxPacketSize :: u16

record probe_answers =
  kzalloc_ok :: bool
  bcdDevice :: u16
  endpoints :: "usb_endpoint list"
  status_urb_ok :: bool
  ticket_answers :: "nat \<Rightarrow> ticket_alloc"
  status_ep_found :: bool
  status_submit_rc :: int

definition on_new_usb_device :: "probe_answers \<Rightarrow> dev_ptr \<Rightarrow> host \<times> st \<Rightarrow> fault + (int \<times> host \<times> st)" where
  "on_new_usb_device a dev = (\<lambda>(h, s).
     if \<not> status_urb_ok a then Inr (- ENOMEM, h, s)
     else
       kbind (on_alloc_disp_tickets_pool (ticket_answers a) (dv_update (urb_status_query_update (\<lambda>_. Some False)) s))
         (\<lambda>(r, s1).
            if r < 0 then Inr (- ENOMEM, h, dv_update (urb_status_query_update (\<lambda>_. None)) s1)
            else
              (let h1 = add_usbdev_to_list dev h;
                   s2 = dv_update (\<lambda>d. d\<lparr>dev_id := rpusbdisp_usb_get_device_count h1, is_alive := True,
                          device_fwver := bcdDevice a\<rparr>) s1
               in kbind (status_start_querying (status_ep_found a) (status_submit_rc a) (dv s2)) (\<lambda>(_, d).
                  kbind (fbhandler_on_new_device dev (dv_update (\<lambda>_. d) s2)) (\<lambda>(_, s3).
                  kbind (fbhandler_set_unsync_flag s3) (\<lambda>s4.
                    Inr (0, h1, schedule_completion_work s4)))))))"

fun scan_endpoints :: "usb_endpoint list \<Rightarrow> rpusbdisp_dev \<Rightarrow> rpusbdisp_dev" where
  "scan_endpoints [] dev = dev"
| "scan_endpoints (e # rest) dev =
     (let dev = (if status_in_ep_addr dev = 0 \<and> int_in e
                 then dev\<lparr>status_in_ep_addr := bEndpointAddress e\<rparr> else dev);
          dev = (if disp_out_ep_addr dev = 0 \<and> bulk_out e \<and> wMaxPacketSize e \<noteq> 0
                 then dev\<lparr>disp_out_ep_addr := bEndpointAddress e,
                          disp_out_ep_max_size := unat (wMaxPacketSize e)\<rparr> else dev)
      in scan_endpoints rest dev)"

text \<open>The zeroed device structure.\<close>

definition zero_dev :: rpusbdisp_dev where
  "zero_dev =
     \<lparr>dev_id = 0, is_alive = False, status_in_buffer = replicate RPUSBDISP_STATUS_BUFFER_SIZE 0,
      status_in_buffer_recvsize = 0, status_in_ep_addr = 0, urb_status_query = None, urb_status_fail_count = 0,
      disp_out_ep_addr = 0, disp_out_ep_max_size = 0,
      disp_tickets_pool = \<lparr>pool_list = [], disp_urb_count = 0, packet_size_factor = 0, availiable_count = 0,
        completion_work = False\<rparr>,
      fb_handle = None, device_fwver = 0\<rparr>"

text \<open>The new device structure is at address \<^verbatim>\<open>dev\<close>; it has no tickets yet.\<close>

definition rpusbdisp_probe :: "probe_answers \<Rightarrow> dev_ptr \<Rightarrow> host \<times> st \<Rightarrow> fault + (int \<times> host \<times> st)" where
  "rpusbdisp_probe a dev = (\<lambda>(h, s).
     if \<not> kzalloc_ok a then Inr (- ENOMEM, h, s)
     else
       (let h1 = h\<lparr>allocated_devs := insert dev (allocated_devs h), udev_refs := udev_refs h + 1\<rparr>;
            s1 = s\<lparr>dv := scan_endpoints (endpoints a) zero_dev, tickets := Map.empty, inflight := []\<rparr>;
            free = (\<lambda>h. h\<lparr>allocated_devs := allocated_devs h - {dev}\<rparr>)
        in if \<not> (status_in_ep_addr (dv s1) \<noteq> 0 \<and> disp_out_ep_addr (dv s1) \<noteq> 0)
           then Inr (- ENOMEM, free h1, s1)
           else
             kbind (on_new_usb_device a dev (h1\<lparr>intfdata := Some dev\<rparr>, s1)) (\<lambda>(r, h2, s2).
               if r \<noteq> 0 then Inr (- ENOMEM, free h2, s2) else Inr (0, h2, s2))))"

subsection \<open>Going away\<close>

definition usb_kill_status_urb :: "st \<Rightarrow> st" where
  "usb_kill_status_urb s = dv_update (urb_status_query_update (map_option (\<lambda>_. False))) s"

text \<open>
  The status URB that is killed completes on a device that is no longer alive, so its handler does
  nothing.
\<close>

definition on_del_usb_device :: "(fb_ptr \<Rightarrow> st \<Rightarrow> st) \<Rightarrow> (tid \<times> int) list list \<Rightarrow> dev_ptr \<Rightarrow> host \<times> st
    \<Rightarrow> fault + (host \<times> st) option" where
  "on_del_usb_device release_fb waits dev = (\<lambda>(h, s).
     kbind (fbhandler_on_remove_device release_fb (dv_update (is_alive_update (\<lambda>_. False)) s)) (\<lambda>s1.
       (let s2 = pool_update (completion_work_update (\<lambda>_. False)) (usb_kill_status_urb s1);
            h1 = del_usbdev_from_list dev h
        in kbind (on_release_disp_tickets_pool waits s2) (\<lambda>r.
             Inr (map_option (\<lambda>s3. (h1, dv_update (urb_status_query_update (\<lambda>_. None)) s3)) r)))))"

definition rpusbdisp_disconnect :: "(fb_ptr \<Rightarrow> st \<Rightarrow> st) \<Rightarrow> (tid \<times> int) list list \<Rightarrow> host \<times> st
    \<Rightarrow> fault + (host \<times> st) option" where
  "rpusbdisp_disconnect release_fb waits = (\<lambda>(h, s).
     case intfdata h of
       None \<Rightarrow> Inl NullDeref
     | Some dev \<Rightarrow>
         kbind (on_del_usb_device release_fb waits dev (h\<lparr>intfdata := None\<rparr>, s)) (\<lambda>r.
           Inr (map_option (\<lambda>(h1, s1). (h1\<lparr>allocated_devs := allocated_devs h1 - {dev}\<rparr>, s1)) r)))"

definition rpusbdisp_suspend :: "host \<Rightarrow> int" where
  "rpusbdisp_suspend h = 0"

definition rpusbdisp_resume :: "host \<Rightarrow> int" where
  "rpusbdisp_resume h = 0"

end
