(* ===== verification/Lifecycle_Properties.thy ===== *)
theory Lifecycle_Properties
  imports Device_Lifecycle Display_Properties
begin

text \<open>
  What holds of a device's life: a successful probe leaves a device whose pool is in order, and the
  disconnect gets every ticket back and returns, unless a ticket was lost, in which case it waits
  for ever.
\<close>

subsection \<open>Allocation of the pool\<close>

text \<open>The allocator hands out distinct tickets with buffers of the size asked for.\<close>

definition honest_answers :: "(nat \<Rightarrow> ticket_alloc) \<Rightarrow> bool" where
  "honest_answers answers \<longleftrightarrow>
     (\<forall>n t buf. answers n = NewTicket t buf \<longrightarrow> length buf = RPUSBDISP_MAX_TRANSFER_SIZE
        \<and> (\<forall>m < n. \<forall>b. answers m \<noteq> NewTicket t b))"

definition pool_built :: "nat \<Rightarrow> (nat \<Rightarrow> ticket_alloc) \<Rightarrow> nat \<Rightarrow> st \<Rightarrow> bool" where
  "pool_built len answers n s \<longleftrightarrow>
     distinct (free_tickets s) \<and> set (free_tickets s) = dom (tickets s) \<and> length (free_tickets s) = n
   \<and> (\<forall>urb \<in> ran (tickets s). length (transfer_buffer urb) = RPUSBDISP_MAX_TRANSFER_SIZE
        \<and> transfer_buffer_length urb = len)
   \<and> (\<forall>t \<in> set (free_tickets s). \<exists>m < n. \<exists>b. answers m = NewTicket t b)"

lemma pool_built_step:
  assumes "honest_answers answers" "pool_built len answers n s" "answers n = NewTicket t buf"
  shows "pool_built len answers (Suc n) (pool_update (pool_list_update (\<lambda>l. l @ [t]))
    (s\<lparr>tickets := (tickets s)(t \<mapsto> \<lparr>transfer_buffer = buf, transfer_buffer_length = len, urb_status = 0\<rparr>)\<rparr>))"
proof -
  have "t \<notin> set (free_tickets s)" "length buf = RPUSBDISP_MAX_TRANSFER_SIZE"
    using assms unfolding honest_answers_def pool_built_def by metis+
  moreover have "t \<notin> dom (tickets s)"
    using calculation(1) assms(2) by (simp add: pool_built_def)
  moreover have "\<exists>m < Suc n. \<exists>b. answers m = NewTicket u b" if "\<exists>m < n. \<exists>b. answers m = NewTicket u b" for u
    using that less_Suc_eq by blast
  ultimately show ?thesis
    using assms(2,3) unfolding pool_built_def by (auto simp: ran_def split: if_splits)
qed

text \<open>What the allocation of tickets leaves alone.\<close>

definition same_but_tickets :: "st \<Rightarrow> st \<Rightarrow> bool" where
  "same_but_tickets s s' \<longleftrightarrow> inflight s' = inflight s \<and> default_fb s' = default_fb s \<and> fb s' = fb s
     \<and> usb_log s' = usb_log s
     \<and> (\<exists>l. dv s' = (dv s)\<lparr>disp_tickets_pool := (pool s)\<lparr>pool_list := l\<rparr>\<rparr>)"

lemma alloc_tickets_built:
  assumes "honest_answers answers"
  shows "pool_built len answers n s \<Longrightarrow>
    \<exists>n' s'. alloc_tickets len rounds answers n s = (n', s') \<and> n' \<le> n + rounds \<and> pool_built len answers n' s'
      \<and> same_but_tickets s s'"
proof (induction rounds arbitrary: n s)
  case 0
  then show ?case
    by (auto simp: same_but_tickets_def intro: exI [of _ "free_tickets s"])
next
  case (Suc rounds)
  show ?case
  proof (cases "answers n")
    case (NewTicket t buf)
    let ?s = "pool_update (pool_list_update (\<lambda>l. l @ [t]))
      (s\<lparr>tickets := (tickets s)(t \<mapsto> \<lparr>transfer_buffer = buf, transfer_buffer_length = len, urb_status = 0\<rparr>)\<rparr>)"
    obtain n' s' where IH: "alloc_tickets len rounds answers (Suc n) ?s = (n', s')" "n' \<le> Suc n + rounds"
      "pool_built len answers n' s'" "same_but_tickets ?s s'"
      using Suc.IH [OF pool_built_step [OF assms Suc.prems NewTicket]] by blast
    then have "same_but_tickets s s'"
      by (auto simp: same_but_tickets_def)
    then show ?thesis
      using IH NewTicket by auto
  qed (use Suc.prems in \<open>auto simp: same_but_tickets_def intro: exI [of _ "free_tickets s"]\<close>)
qed

lemma alloc_pool:
  assumes "honest_answers answers" "tickets s = Map.empty" "inflight s = []" "ep_size s \<noteq> 0" "fb_handle (dv s) = None"
  shows "\<exists>r s'. on_alloc_disp_tickets_pool answers s = Inr (r, s') \<and> pool_inv [] s'
    \<and> (r = 0 \<or> r < 0) \<and> (r = 0 \<longleftrightarrow> free_tickets s' \<noteq> []) \<and> inflight s' = []
    \<and> factor s' = RPUSBDISP_MAX_TRANSFER_SIZE div ep_size s \<and> default_fb s' = default_fb s \<and> fb s' = fb s
    \<and> (\<exists>p. dv s' = (dv s)\<lparr>disp_tickets_pool := p\<rparr>)"
proof -
  let ?f = "RPUSBDISP_MAX_TRANSFER_SIZE div ep_size s"
  let ?s1 = "pool_update (pool_list_update (\<lambda>_. [])) s"
  have "pool_built (?f * ep_size s) answers 0 ?s1"
    using assms(2) by (simp add: pool_built_def)
  then obtain n s2 where run: "alloc_tickets (?f * ep_size s) RPUSBDISP_MAX_TRANSFER_TICKETS_COUNT answers 0 ?s1 = (n, s2)"
    and n: "n \<le> RPUSBDISP_MAX_TRANSFER_TICKETS_COUNT" and built: "pool_built (?f * ep_size s) answers n s2"
    and same: "same_but_tickets ?s1 s2"
    using alloc_tickets_built [OF assms(1)] by fastforce
  let ?s3 = "pool_update (\<lambda>p. p\<lparr>completion_work := False, disp_urb_count := n, availiable_count := int n,
    packet_size_factor := ?f\<rparr>) s2"
  have eq: "on_alloc_disp_tickets_pool answers s = Inr (if n \<noteq> 0 then 0 else - ENOMEM, ?s3)"
    using assms(4) run by (simp add: on_alloc_disp_tickets_pool_def Let_def)
  obtain l where dv2: "dv s2 = (dv s)\<lparr>disp_tickets_pool := (pool s)\<lparr>pool_list := l\<rparr>\<rparr>"
    using same by (auto simp: same_but_tickets_def)
  have rest: "inflight s2 = []" "default_fb s2 = default_fb s" "fb s2 = fb s"
    using same assms(3) by (simp_all add: same_but_tickets_def)
  have dev: "ep_size s2 = ep_size s" "fb_handle (dv s2) = None"
    using assms(5) by (simp_all add: dv2)
  have le: "?f * ep_size s \<le> RPUSBDISP_MAX_TRANSFER_SIZE"
    by simp
  have len: "length (transfer_buffer urb) = RPUSBDISP_MAX_TRANSFER_SIZE" "transfer_buffer_length urb = ?f * ep_size s"
    if "urb \<in> ran (tickets s2)" for urb
    using built that by (simp_all add: pool_built_def)
  have inv: "pool_inv [] ?s3"
    unfolding pool_inv_def
    using built n le len dev rest(1) by (simp add: pool_built_def ranI)
  have "free_tickets s2 \<noteq> [] \<longleftrightarrow> n \<noteq> 0"
    using built by (auto simp: pool_built_def)
  moreover have "dv ?s3 = (dv s)\<lparr>disp_tickets_pool := pool ?s3\<rparr>"
    using dv2 by (cases "dv s", cases "dv s2") simp
  then have "\<exists>p. dv ?s3 = (dv s)\<lparr>disp_tickets_pool := p\<rparr>"
    by (rule exI)
  ultimately show ?thesis
    using inv rest unfolding eq
    by (intro exI [of _ "if n \<noteq> 0 then 0 else - ENOMEM"] exI [of _ ?s3] conjI) (simp_all add: ENOMEM_def)
qed

subsection \<open>Release of the pool\<close>

definition rel_inv :: "nat \<Rightarrow> tid list \<Rightarrow> st \<Rightarrow> bool" where
  "rel_inv n H s \<longleftrightarrow>
     distinct (free_tickets s @ inflight s @ H)
   \<and> set (free_tickets s @ inflight s @ H) = dom (tickets s)
   \<and> length (free_tickets s @ inflight s @ H) = n
   \<and> availiable_count (pool s) = int (length (free_tickets s))
   \<and> (fb_handle (dv s) \<noteq> None \<longrightarrow> default_fb s \<noteq> None)"

lemma rel_inv_pool: "pool_inv H s \<Longrightarrow> rel_inv (disp_urb_count (pool s)) H s"
  by (simp add: pool_inv_def rel_inv_def)

lemma flag_if_total:
  assumes "fb_handle (dv s) \<noteq> None \<longrightarrow> default_fb s \<noteq> None"
  shows "\<exists>s2. (if b then fbhandler_set_unsync_flag s else Inr s) = Inr s2 \<and> tickets s2 = tickets s
    \<and> inflight s2 = inflight s \<and> dv s2 = dv s \<and> default_fb s2 = default_fb s"
  using assms by (auto simp: fbhandler_set_unsync_flag_def rpusbdisp_usb_get_fbhandle_def)

text \<open>A completion moves its ticket from the controller to the end of the free list.\<close>

lemma complete_urb_rel:
  assumes "rel_inv n H s"
  shows "\<exists>s'. complete_urb t status s = Inr s' \<and> rel_inv n H s' \<and> inflight s' = remove1 t (inflight s)"
proof (cases "t \<in> set (inflight s)")
  case False
  then show ?thesis
    using assms by (simp add: complete_urb_def remove1_idem)
next
  case True
  then obtain urb where urb: "tickets s t = Some urb"
    using assms by (auto simp: rel_inv_def)
  let ?s1 = "s\<lparr>inflight := remove1 t (inflight s), tickets := (tickets s)(t \<mapsto> urb\<lparr>urb_status := status\<rparr>)\<rparr>"
  have suc: "Suc (length (inflight s) - Suc 0) = length (inflight s)"
    using True by (cases "inflight s") simp_all
  have dist: "distinct (inflight s)" "t \<notin> set (free_tickets s)" "t \<notin> set H"
    using assms True by (auto simp: rel_inv_def)
  obtain s2 where s2: "(if status \<noteq> 0 \<and> is_alive (dv ?s1) then fbhandler_set_unsync_flag ?s1 else Inr ?s1) = Inr s2"
    "tickets s2 = tickets ?s1" "inflight s2 = inflight ?s1" "dv s2 = dv ?s1" "default_fb s2 = default_fb ?s1"
    using flag_if_total [of ?s1 "status \<noteq> 0 \<and> is_alive (dv ?s1)"] assms unfolding rel_inv_def by auto
  let ?s3 = "s2\<lparr>tickets := (tickets s2)(t \<mapsto> urb\<lparr>urb_status := status, transfer_buffer_length := factor s2 * ep_size s2\<rparr>)\<rparr>"
  define z where "z = snd (return_disp_tickets t ?s3)"
  have s4: "free_tickets z = free_tickets s @ [t]" "inflight z = remove1 t (inflight s)"
    "dom (tickets z) = dom (tickets s)" "availiable_count (pool z) = availiable_count (pool s) + 1"
    "fb_handle (dv z) = fb_handle (dv s)" "default_fb z = default_fb s"
    using urb by (auto simp: z_def return_disp_tickets_def Let_def s2(2-5))
  have perm: "mset (free_tickets z @ inflight z @ H) = mset (free_tickets s @ inflight s @ H)"
    unfolding s4(1,2) using True by simp
  have "rel_inv n H z"
    using assms unfolding rel_inv_def same_mset [OF perm] s4(3-6) by (simp only: s4(1)) simp
  moreover have "rel_inv n H (schedule_completion_work s') = rel_inv n H s'" for s'
    by (simp add: rel_inv_def schedule_completion_work_def)
  moreover have "inflight (schedule_completion_work s') = inflight s'" for s'
    by (simp add: schedule_completion_work_def)
  moreover have "complete_urb t status s = on_display_transfer_finished t ?s1"
    using True urb by (simp add: complete_urb_def)
  moreover have "on_display_transfer_finished t ?s1 =
      Inr (if fst (return_disp_tickets t ?s3) \<and> status = 0 then schedule_completion_work z else z)"
    using s2(1) by (simp add: on_display_transfer_finished_def split_def Let_def z_def) auto
  ultimately show ?thesis
    using s4(2) by auto
qed

lemma complete_urbs_rel:
  "rel_inv n H s \<Longrightarrow> \<exists>s'. complete_urbs w s = Inr s' \<and> rel_inv n H s'
     \<and> set (inflight s') = set (inflight s) - fst ` set w"
proof (induction w arbitrary: s)
  case (Cons p w)
  obtain s1 where s1: "complete_urb (fst p) (snd p) s = Inr s1" "rel_inv n H s1" "inflight s1 = remove1 (fst p) (inflight s)"
    using complete_urb_rel [OF Cons.prems] by blast
  moreover have "set (remove1 (fst p) (inflight s)) = set (inflight s) - {fst p}"
    using Cons.prems by (simp add: rel_inv_def set_remove1_eq)
  ultimately show ?case
    using Cons.IH [OF s1(2)] by (cases p) auto
qed simp

lemma rel_inv_head:
  assumes "rel_inv n H s" "free_tickets s = t # nodes"
  shows "availiable_count (pool s) \<noteq> 0" "\<exists>urb. tickets s t = Some urb"
proof -
  have "t \<in> dom (tickets s)"
    using assms by (auto simp: rel_inv_def)
  then show "\<exists>urb. tickets s t = Some urb"
    by blast
qed (use assms in \<open>simp add: rel_inv_def\<close>)

lemma rel_inv_pop:
  assumes "rel_inv (Suc n) H s" "free_tickets s = t # nodes"
  shows "rel_inv n H (pool_update (\<lambda>p. p\<lparr>availiable_count := availiable_count p - 1, pool_list := nodes\<rparr>)
    (s\<lparr>tickets := (tickets s)(t := None)\<rparr>))"
  using assms unfolding rel_inv_def by auto

lemma release_never_faults: "rel_inv n H s \<Longrightarrow> \<exists>r. release_tickets waits n s = Inr r"
proof (induction waits n s rule: release_tickets.induct)
  case (2 waits n s)
  show ?case
  proof (cases "free_tickets s")
    case Nil
    then have zero: "availiable_count (pool s) = 0"
      using "2.prems" by (simp add: rel_inv_def)
    show ?thesis
    proof (cases waits)
      case (Cons w rest)
      then show ?thesis
        using complete_urbs_rel [OF "2.prems", of w] "2.IH"(2) zero by fastforce
    qed (use zero in simp)
  next
    case (Cons t nodes)
    then have "availiable_count (pool s) \<noteq> 0" "tickets s t \<noteq> None"
      using "2.prems" by (auto simp: rel_inv_def)
    then show ?thesis
      using "2.IH"(1) rel_inv_pop [OF "2.prems" Cons] Cons by fastforce
  qed
qed simp

lemma release_finished:
  "rel_inv n H s \<Longrightarrow> release_tickets waits n s = Inr (Some s') \<Longrightarrow> rel_inv 0 H s'"
proof (induction waits n s rule: release_tickets.induct)
  case (2 waits n s)
  show ?case
  proof (cases "free_tickets s")
    case Nil
    then have zero: "availiable_count (pool s) = 0"
      using "2.prems" by (simp add: rel_inv_def)
    show ?thesis
    proof (cases waits)
      case (Cons w rest)
      obtain s1 where s1: "complete_urbs w s = Inr s1" "rel_inv (Suc n) H s1"
        using complete_urbs_rel [OF "2.prems"(1)] by blast
      then show ?thesis
        using "2.IH"(2) [OF _ Cons] "2.prems"(2) zero Cons by simp
    qed (use zero "2.prems"(2) in simp)
  next
    case (Cons t nodes)
    then obtain urb where urb: "availiable_count (pool s) \<noteq> 0" "tickets s t = Some urb"
      using rel_inv_head [OF "2.prems"(1)] by blast
    then show ?thesis
      using "2.IH"(1) [OF _ Cons] rel_inv_pop [OF "2.prems"(1) Cons] Cons "2.prems"(2) by simp
  qed
qed simp

lemma release_ends:
  "rel_inv n [] s \<Longrightarrow> set (inflight s) \<subseteq> (\<Union>w \<in> set waits. fst ` set w) \<Longrightarrow>
   \<exists>s'. release_tickets waits n s = Inr (Some s')"
proof (induction waits n s rule: release_tickets.induct)
  case (2 waits n s)
  show ?case
  proof (cases "free_tickets s")
    case Nil
    then have zero: "availiable_count (pool s) = 0" "inflight s \<noteq> []"
      using "2.prems"(1) by (auto simp: rel_inv_def)
    then obtain w rest where waits: "waits = w # rest"
      using "2.prems"(2) by (cases waits) auto
    obtain s1 where s1: "complete_urbs w s = Inr s1" "rel_inv (Suc n) [] s1" "set (inflight s1) = set (inflight s) - fst ` set w"
      using complete_urbs_rel [OF "2.prems"(1)] by blast
    then have "set (inflight s1) \<subseteq> (\<Union>w \<in> set rest. fst ` set w)"
      using "2.prems"(2) waits by auto
    then show ?thesis
      using "2.IH"(2) [OF _ waits, of s1] s1 zero(1) waits by simp
  next
    case (Cons t nodes)
    then have "availiable_count (pool s) \<noteq> 0" "tickets s t \<noteq> None"
      using "2.prems"(1) by (auto simp: rel_inv_def)
    then show ?thesis
      using "2.IH"(1) [OF _ Cons] rel_inv_pop [OF "2.prems"(1) Cons] Cons "2.prems"(2) by simp
  qed
qed simp

lemma rel_inv_0: "rel_inv 0 H s \<Longrightarrow> H = [] \<and> tickets s = Map.empty \<and> free_tickets s = [] \<and> inflight s = []"
  by (auto simp: rel_inv_def eq_commute [of "{}"])

lemma release_covers:
  "rel_inv n H s \<Longrightarrow> release_tickets waits n s = Inr (Some s') \<Longrightarrow>
   set (inflight s) \<subseteq> (\<Union>w \<in> set waits. fst ` set w)"
proof (induction waits n s rule: release_tickets.induct)
  case (1 waits s)
  then show ?case
    by (simp add: rel_inv_def)
next
  case (2 waits n s)
  show ?case
  proof (cases "free_tickets s")
    case Nil
    then have zero: "availiable_count (pool s) = 0"
      using "2.prems" by (simp add: rel_inv_def)
    show ?thesis
    proof (cases waits)
      case (Cons w rest)
      obtain s1 where s1: "complete_urbs w s = Inr s1" "rel_inv (Suc n) H s1" "set (inflight s1) = set (inflight s) - fst ` set w"
        using complete_urbs_rel [OF "2.prems"(1)] by blast
      then have "set (inflight s1) \<subseteq> (\<Union>w \<in> set rest. fst ` set w)"
        using "2.IH"(2) [OF _ Cons, of s1] "2.prems"(2) zero Cons by simp
      then show ?thesis
        using s1(3) Cons by auto
    qed (use zero "2.prems"(2) in simp)
  next
    case (Cons t nodes)
    then obtain urb where "availiable_count (pool s) \<noteq> 0" "tickets s t = Some urb"
      using rel_inv_head [OF "2.prems"(1)] by blast
    then show ?thesis
      using "2.IH"(1) [OF _ Cons] rel_inv_pop [OF "2.prems"(1) Cons] Cons "2.prems"(2) by simp
  qed
qed

lemma release_returns_iff:
  assumes "rel_inv n H s"
  shows "\<exists>r. release_tickets waits n s = Inr r
    \<and> (r \<noteq> None \<longleftrightarrow> H = [] \<and> set (inflight s) \<subseteq> (\<Union>w \<in> set waits. fst ` set w))
    \<and> (\<forall>s'. r = Some s' \<longrightarrow> tickets s' = Map.empty \<and> inflight s' = [])"
proof -
  obtain r where r: "release_tickets waits n s = Inr r"
    using release_never_faults [OF assms] by blast
  show ?thesis
  proof (cases r)
    case None
    then have "\<not> (H = [] \<and> set (inflight s) \<subseteq> (\<Union>w \<in> set waits. fst ` set w))"
      using release_ends [of n s waits] assms r by (metis Inr_inject option.distinct(1))
    then show ?thesis
      using r None by simp
  next
    case (Some s')
    have "H = []" "tickets s' = Map.empty" "inflight s' = []"
      using rel_inv_0 [OF release_finished [OF assms]] r Some by simp_all
    moreover have "set (inflight s) \<subseteq> (\<Union>w \<in> set waits. fst ` set w)"
      using release_covers [OF assms] r Some by simp
    ultimately show ?thesis
      using r Some by simp
  qed
qed

subsection \<open>Disconnecting\<close>

lemma rel_inv_cong:
  assumes "free_tickets s' = free_tickets s" "inflight s' = inflight s" "tickets s' = tickets s"
    and "availiable_count (pool s') = availiable_count (pool s)" "fb_handle (dv s') = None" "rel_inv n H s"
  shows "rel_inv n H s'"
  using assms by (simp add: rel_inv_def)

text \<open>
  C15. Disconnecting a device never faults, and it returns if and only if no ticket was lost and the
  controller completes every URB in flight while the driver waits; then all tickets are freed, and
  the device is off the list and freed. With a ticket lost, which a refused flush does, it never
  returns. The reference to the USB device that the probe took is not given back.
\<close>

theorem disconnect_returns_iff_no_ticket_lost:
  assumes "pool_inv H s" "intfdata h = Some dev" "default_fb s \<noteq> None"
    and "fb_handle (dv s) = None \<or> fb_handle (dv s) = default_fb s"
  shows "\<exists>r. rpusbdisp_disconnect release_fb waits (h, s) = Inr r
    \<and> (r \<noteq> None \<longleftrightarrow> H = [] \<and> set (inflight s) \<subseteq> (\<Union>w \<in> set waits. fst ` set w))
    \<and> (\<forall>h' s'. r = Some (h', s') \<longrightarrow> tickets s' = Map.empty \<and> inflight s' = []
       \<and> devlist h' = remove1 dev (devlist h) \<and> devlist_count h' = devlist_count h - 1
       \<and> allocated_devs h' = allocated_devs h - {dev} \<and> intfdata h' = None \<and> udev_refs h' = udev_refs h)"
proof -
  let ?s0 = "dv_update (is_alive_update (\<lambda>_. False)) s"
  obtain s1 where s1: "fbhandler_on_remove_device release_fb ?s0 = Inr s1"
    "free_tickets s1 = free_tickets s" "inflight s1 = inflight s" "tickets s1 = tickets s"
    "availiable_count (pool s1) = availiable_count (pool s)" "disp_urb_count (pool s1) = disp_urb_count (pool s)"
    "fb_handle (dv s1) = None"
    using assms(3,4)
    by (cases "fb_handle (dv s)") (auto simp: fbhandler_on_remove_device_def rpusbdisp_usb_get_fbhandle_def
        rpusbdisp_usb_set_fbhandle_def Let_def)
  define s2 where "s2 = pool_update (completion_work_update (\<lambda>_. False)) (usb_kill_status_urb s1)"
  have s2: "disp_urb_count (pool s2) = disp_urb_count (pool s)" "inflight s2 = inflight s"
    by (simp_all add: s2_def usb_kill_status_urb_def s1(3,6))
  have "rel_inv (disp_urb_count (pool s)) H s2"
    using rel_inv_pool [OF assms(1)]
    by (rule rel_inv_cong [rotated -1]) (simp_all add: s2_def usb_kill_status_urb_def s1)
  from release_returns_iff [OF this, of waits, folded s2(1), folded on_release_disp_tickets_pool_def [of waits s2]]
  obtain r where r: "on_release_disp_tickets_pool waits s2 = Inr r"
    "r \<noteq> None \<longleftrightarrow> H = [] \<and> set (inflight s) \<subseteq> (\<Union>w \<in> set waits. fst ` set w)"
    "\<forall>s'. r = Some s' \<longrightarrow> tickets s' = Map.empty \<and> inflight s' = []"
    unfolding s2(2) by (elim exE conjE)
  have "rpusbdisp_disconnect release_fb waits (h, s) = Inr (map_option (\<lambda>s3.
      ((del_usbdev_from_list dev (h\<lparr>intfdata := None\<rparr>))\<lparr>allocated_devs := allocated_devs h - {dev}\<rparr>,
       dv_update (urb_status_query_update (\<lambda>_. None)) s3)) r)"
    using assms(2) s1(1) r(1)
    by (cases r) (simp_all add: rpusbdisp_disconnect_def on_del_usb_device_def Let_def s2_def del_usbdev_from_list_def)
  then show ?thesis
    using r(2,3) by (cases r) (auto simp: del_usbdev_from_list_def)
qed

definition sample_host :: host where
  "sample_host = \<lparr>devlist = [7], devlist_count = 1, intfdata = Some 7, allocated_devs = {7}, udev_refs = 1\<rparr>"

theorem disconnect_returns_iff_no_ticket_lost_witness:
  "\<exists>r. rpusbdisp_disconnect (\<lambda>f s. s) [] (sample_host, bound_state) = Inr r \<and> r \<noteq> None
    \<and> (\<forall>h' s'. r = Some (h', s') \<longrightarrow> tickets s' = Map.empty \<and> inflight s' = []
       \<and> devlist h' = [] \<and> devlist_count h' = 0 \<and> allocated_devs h' = {} \<and> intfdata h' = None \<and> udev_refs h' = 1)"
proof -
  have "pool_inv [] bound_state" "inflight bound_state = []" "default_fb bound_state = Some 0" "fb_handle (dv bound_state) = Some 0"
    using sample_pool_inv [of 4 1016 64 "0x0103"]
    by (simp_all add: bound_state_def) (simp_all add: sample_state_def sample_dev_def)
  then show ?thesis
    using disconnect_returns_iff_no_ticket_lost [where H = "[]" and s = bound_state and h = sample_host and dev = 7
        and release_fb = "\<lambda>f s. s" and waits = "[]"]
    by (simp add: sample_host_def)
qed

subsection \<open>Probing\<close>

lemma scan_endpoints_fields:
  "\<exists>i a n. scan_endpoints es dev = dev\<lparr>status_in_ep_addr := i, disp_out_ep_addr := a, disp_out_ep_max_size := n\<rparr>
     \<and> (a = disp_out_ep_addr dev \<and> n = disp_out_ep_max_size dev
        \<or> (\<exists>e \<in> set es. bulk_out e \<and> n = unat (wMaxPacketSize e) \<and> n \<noteq> 0))"
proof (induction es arbitrary: dev)
  case Nil
  then show ?case
    by (intro exI [of _ "status_in_ep_addr dev"] exI [of _ "disp_out_ep_addr dev"] exI [of _ "disp_out_ep_max_size dev"]) simp
next
  case (Cons e es)
  define d1 where "d1 = (if status_in_ep_addr dev = 0 \<and> int_in e then dev\<lparr>status_in_ep_addr := bEndpointAddress e\<rparr> else dev)"
  define d2 where "d2 = (if disp_out_ep_addr d1 = 0 \<and> bulk_out e \<and> wMaxPacketSize e \<noteq> 0
    then d1\<lparr>disp_out_ep_addr := bEndpointAddress e, disp_out_ep_max_size := unat (wMaxPacketSize e)\<rparr> else d1)"
  have step: "scan_endpoints (e # es) dev = scan_endpoints es d2"
    by (simp add: d1_def d2_def Let_def)
  obtain i a n where IH: "scan_endpoints es d2 = d2\<lparr>status_in_ep_addr := i, disp_out_ep_addr := a, disp_out_ep_max_size := n\<rparr>"
    "a = disp_out_ep_addr d2 \<and> n = disp_out_ep_max_size d2
        \<or> (\<exists>e \<in> set es. bulk_out e \<and> n = unat (wMaxPacketSize e) \<and> n \<noteq> 0)"
    using Cons.IH [of d2] by blast
  have "d2\<lparr>status_in_ep_addr := i, disp_out_ep_addr := a, disp_out_ep_max_size := n\<rparr>
      = dev\<lparr>status_in_ep_addr := i, disp_out_ep_addr := a, disp_out_ep_max_size := n\<rparr>"
    by (simp add: d1_def d2_def)
  moreover have "disp_out_ep_addr d2 = disp_out_ep_addr dev \<and> disp_out_ep_max_size d2 = disp_out_ep_max_size dev
      \<or> bulk_out e \<and> disp_out_ep_max_size d2 = unat (wMaxPacketSize e) \<and> disp_out_ep_max_size d2 \<noteq> 0"
    by (auto simp: d1_def d2_def unat_gt_0)
  ultimately show ?case
    using IH unfolding step by (intro exI [of _ i] exI [of _ a] exI [of _ n]) auto
qed

lemma pool_inv_cong:
  assumes "tickets s' = tickets s" "inflight s' = inflight s" "free_tickets s' = free_tickets s"
    and "disp_urb_count (pool s') = disp_urb_count (pool s)" "factor s' = factor s" "ep_size s' = ep_size s"
    and "availiable_count (pool s') = availiable_count (pool s)"
    and "fb_handle (dv s') \<noteq> None \<longrightarrow> default_fb s' \<noteq> None" "pool_inv H s"
  shows "pool_inv H s'"
  using assms unfolding pool_inv_def by simp

lemma start_querying_total:
  assumes "urb_status_query dev \<noteq> None"
  shows "\<exists>c q f. status_start_querying ep_found rc dev = Inr (c, dev\<lparr>urb_status_query := q, urb_status_fail_count := f\<rparr>)"
proof -
  have same: "dev = dev\<lparr>urb_status_query := urb_status_query dev, urb_status_fail_count := urb_status_fail_count dev\<rparr>"
    by simp
  have parts: "dev\<lparr>urb_status_fail_count := f\<rparr> = dev\<lparr>urb_status_query := urb_status_query dev, urb_status_fail_count := f\<rparr>"
    "dev\<lparr>urb_status_query := q\<rparr> = dev\<lparr>urb_status_query := q, urb_status_fail_count := urb_status_fail_count dev\<rparr>" for f q
    by (cases dev; simp)+
  have "status_start_querying ep_found rc dev = Inr (False, dev)
    \<or> (\<exists>f c. status_start_querying ep_found rc dev = Inr (c, dev\<lparr>urb_status_fail_count := f\<rparr>))
    \<or> (\<exists>q. status_start_querying ep_found rc dev = Inr (False, dev\<lparr>urb_status_query := q\<rparr>))"
    using assms by (auto simp: status_start_querying_def)
  then show ?thesis
    using same parts by metis
qed

lemma bring_up:
  assumes "urb_status_query (dv s) \<noteq> None" "default_fb s \<noteq> None" "pool_inv [] s" "fb_handle (dv s) = None" "is_alive (dv s)"
  shows "\<exists>c d r s3 s4. status_start_querying ep_found rc (dv s) = Inr (c, d)
    \<and> fbhandler_on_new_device dev (dv_update (\<lambda>_. d) s) = Inr (r, s3) \<and> fbhandler_set_unsync_flag s3 = Inr s4
    \<and> pool_inv [] s4 \<and> is_alive (dv s4) \<and> free_tickets s4 = free_tickets s \<and> inflight s4 = inflight s
    \<and> factor s4 = factor s \<and> ep_size s4 = ep_size s
    \<and> (binded_usbdev (par (fb s)) = None \<longrightarrow> fb_handle (dv s4) = default_fb s4
        \<and> binded_usbdev (par (fb s4)) = Some dev \<and> unsync_flag (par (fb s4)) = 1)"
proof -
  obtain c q f where query: "status_start_querying ep_found rc (dv s)
      = Inr (c, (dv s)\<lparr>urb_status_query := q, urb_status_fail_count := f\<rparr>)"
    using start_querying_total [OF assms(1)] by blast
  let ?s2 = "dv_update (\<lambda>_. (dv s)\<lparr>urb_status_query := q, urb_status_fail_count := f\<rparr>) s"
  show ?thesis
  proof (cases "binded_usbdev (par (fb s))")
    case None
    let ?s3 = "dv_update (rpusbdisp_usb_set_fbhandle (default_fb s)) (private_update (binded_usbdev_update (\<lambda>_. Some dev)) ?s2)"
    let ?s4 = "private_update (unsync_flag_update (\<lambda>_. 1)) ?s3"
    have "fbhandler_on_new_device dev ?s2 = Inr (0, ?s3)" "fbhandler_set_unsync_flag ?s3 = Inr ?s4"
      using None assms(2)
      by (auto simp: fbhandler_on_new_device_def fbhandler_set_unsync_flag_def rpusbdisp_usb_get_fbhandle_def
          rpusbdisp_usb_set_fbhandle_def)
    moreover have "pool_inv [] ?s4"
      by (rule pool_inv_cong [OF _ _ _ _ _ _ _ _ assms(3)]) (use assms(2) in \<open>simp_all add: rpusbdisp_usb_set_fbhandle_def\<close>)
    ultimately show ?thesis
      using query assms(5) by (simp add: rpusbdisp_usb_set_fbhandle_def)
  next
    case (Some other)
    have "fbhandler_on_new_device dev ?s2 = Inr (-1, ?s2)" "fbhandler_set_unsync_flag ?s2 = Inr ?s2"
      using Some assms(2,4)
      by (auto simp: fbhandler_on_new_device_def fbhandler_set_unsync_flag_def rpusbdisp_usb_get_fbhandle_def)
    moreover have "pool_inv [] ?s2"
      by (rule pool_inv_cong [OF _ _ _ _ _ _ _ _ assms(3)]) (simp_all add: assms(4))
    ultimately show ?thesis
      using query assms(5) Some by simp
  qed
qed

lemma zero_fb_handle: "fb_handle zero_dev = None"
  by (simp add: zero_dev_def)

lemma new_device_comes_up:
  assumes "honest_answers (ticket_answers a)" "default_fb s \<noteq> None" "tickets s = Map.empty" "inflight s = []"
    and "ep_size s \<noteq> 0" "fb_handle (dv s) = None"
  shows "\<exists>r h' s'. on_new_usb_device a dev (h, s) = Inr (r, h', s') \<and> r \<in> {0, - ENOMEM}
    \<and> (r \<noteq> 0 \<longrightarrow> h' = h)
    \<and> (r = 0 \<longrightarrow> h' = add_usbdev_to_list dev h \<and> pool_inv [] s' \<and> is_alive (dv s') \<and> free_tickets s' \<noteq> []
        \<and> inflight s' = [] \<and> ep_size s' = ep_size s \<and> factor s' = RPUSBDISP_MAX_TRANSFER_SIZE div ep_size s
        \<and> completion_work (pool s')
        \<and> (binded_usbdev (par (fb s)) = None \<longrightarrow> fb_handle (dv s') = default_fb s'
            \<and> binded_usbdev (par (fb s')) = Some dev \<and> unsync_flag (par (fb s')) = 1))"
proof (cases "status_urb_ok a")
  case False
  then show ?thesis
    by (simp add: on_new_usb_device_def ENOMEM_def)
next
  case True
  let ?s0 = "dv_update (urb_status_query_update (\<lambda>_. Some False)) s"
  have pre: "tickets ?s0 = Map.empty" "inflight ?s0 = []" "ep_size ?s0 \<noteq> 0" "fb_handle (dv ?s0) = None"
    using assms(3-6) by simp_all
  from alloc_pool [OF assms(1) pre]
  obtain r s1 p where alloc': "on_alloc_disp_tickets_pool (ticket_answers a) ?s0 = Inr (r, s1)" "pool_inv [] s1"
    "r = 0 \<or> r < 0" "r = 0 \<longleftrightarrow> free_tickets s1 \<noteq> []" "inflight s1 = []"
    "factor s1 = RPUSBDISP_MAX_TRANSFER_SIZE div ep_size ?s0" "default_fb s1 = default_fb ?s0" "fb s1 = fb ?s0"
    "dv s1 = (dv ?s0)\<lparr>disp_tickets_pool := p\<rparr>"
    by (elim exE conjE) (rule that)
  note alloc = alloc' [simplified]
  show ?thesis
  proof (cases "r = 0")
    case False
    then show ?thesis
      using True alloc(1,3) by (simp add: on_new_usb_device_def ENOMEM_def)
  next
    case up: True
    let ?h1 = "add_usbdev_to_list dev h"
    let ?s2 = "dv_update (\<lambda>d. d\<lparr>dev_id := rpusbdisp_usb_get_device_count ?h1, is_alive := True, device_fwver := bcdDevice a\<rparr>) s1"
    have inv: "pool_inv [] ?s2"
      by (rule pool_inv_cong [OF _ _ _ _ _ _ _ _ alloc(2)]) (use assms(2) in \<open>simp_all add: alloc(7)\<close>)
    have dev: "urb_status_query (dv ?s2) \<noteq> None" "default_fb ?s2 \<noteq> None" "fb_handle (dv ?s2) = None" "is_alive (dv ?s2)"
      using assms(2,6) by (simp_all add: alloc(7,9))
    from bring_up [where ep_found = "status_ep_found a" and rc = "status_submit_rc a" and dev = dev, OF dev(1,2) inv dev(3,4)]
    obtain c d q s3 s4 where up4: "status_start_querying (status_ep_found a) (status_submit_rc a) (dv ?s2) = Inr (c, d)"
      "fbhandler_on_new_device dev (dv_update (\<lambda>_. d) ?s2) = Inr (q, s3)" "fbhandler_set_unsync_flag s3 = Inr s4"
      "pool_inv [] s4" "is_alive (dv s4)" "free_tickets s4 = free_tickets ?s2" "inflight s4 = inflight ?s2"
      "factor s4 = factor ?s2" "ep_size s4 = ep_size ?s2"
      "binded_usbdev (par (fb ?s2)) = None \<longrightarrow> fb_handle (dv s4) = default_fb s4
        \<and> binded_usbdev (par (fb s4)) = Some dev \<and> unsync_flag (par (fb s4)) = 1"
      by (elim exE conjE) (rule that)
    have run: "on_new_usb_device a dev (h, s) = Inr (0, ?h1, schedule_completion_work s4)"
      using True up by (simp add: on_new_usb_device_def alloc(1) Let_def up4(1-3) [simplified])
    have "pool_inv [] (schedule_completion_work s4)"
      using up4(4) by (simp add: pool_inv_def schedule_completion_work_def)
    then show ?thesis
      unfolding run using up4(5-10) alloc(4-6,8,9) up
      by (intro exI [of _ 0] exI [of _ ?h1] exI [of _ "schedule_completion_work s4"])
        (simp add: schedule_completion_work_def)
  qed
qed

text \<open>
  C16. A probe never faults. If it succeeds, the device is alive with an intact pool of at most ten
  tickets, all free and each of as many whole packets as fit in a transfer buffer; it is on the
  device list, marked out of sync if it got the framebuffer, and the first flush is scheduled. If it
  fails, the device structure is freed and the list is as before.
\<close>

theorem probe_establishes_pool:
  assumes "honest_answers (ticket_answers a)" "default_fb s \<noteq> None" "dev \<notin> allocated_devs h"
  shows "\<exists>r h' s'. rpusbdisp_probe a dev (h, s) = Inr (r, h', s') \<and> r \<in> {0, - ENOMEM}
    \<and> (r \<noteq> 0 \<longrightarrow> devlist h' = devlist h \<and> devlist_count h' = devlist_count h \<and> allocated_devs h' = allocated_devs h)
    \<and> (r = 0 \<longrightarrow> devlist h' = dev # devlist h \<and> intfdata h' = Some dev
        \<and> pool_inv [] s' \<and> is_alive (dv s') \<and> free_tickets s' \<noteq> [] \<and> inflight s' = []
        \<and> (\<exists>e \<in> set (endpoints a). bulk_out e \<and> ep_size s' = unat (wMaxPacketSize e))
        \<and> factor s' = RPUSBDISP_MAX_TRANSFER_SIZE div ep_size s' \<and> completion_work (pool s')
        \<and> (binded_usbdev (par (fb s)) = None \<longrightarrow> fb_handle (dv s') = default_fb s'
            \<and> binded_usbdev (par (fb s')) = Some dev \<and> unsync_flag (par (fb s')) = 1))"
proof -
  let ?h1 = "h\<lparr>allocated_devs := insert dev (allocated_devs h), udev_refs := udev_refs h + 1\<rparr>"
  let ?s1 = "s\<lparr>dv := scan_endpoints (endpoints a) zero_dev, tickets := Map.empty, inflight := []\<rparr>"
  show ?thesis
  proof (cases "kzalloc_ok a \<and> status_in_ep_addr (dv ?s1) \<noteq> 0 \<and> disp_out_ep_addr (dv ?s1) \<noteq> 0")
    case False
    then show ?thesis
      using assms(3) by (auto simp: rpusbdisp_probe_def Let_def ENOMEM_def)
  next
    case True
    obtain i ad n where scan: "scan_endpoints (endpoints a) zero_dev
        = zero_dev\<lparr>status_in_ep_addr := i, disp_out_ep_addr := ad, disp_out_ep_max_size := n\<rparr>"
      and ep: "ad = 0 \<or> (\<exists>e \<in> set (endpoints a). bulk_out e \<and> n = unat (wMaxPacketSize e) \<and> n \<noteq> 0)"
      using scan_endpoints_fields [of "endpoints a" zero_dev] by (auto simp: zero_dev_def)
    obtain e where e: "e \<in> set (endpoints a)" "bulk_out e" "n = unat (wMaxPacketSize e)" "n \<noteq> 0"
      using True ep by (auto simp: scan)
    have s1: "ep_size ?s1 = n" "default_fb ?s1 = default_fb s" "fb ?s1 = fb s"
      by (simp_all add: scan)
    have "default_fb ?s1 \<noteq> None" "tickets ?s1 = Map.empty" "inflight ?s1 = []" "ep_size ?s1 \<noteq> 0" "fb_handle (dv ?s1) = None"
      using assms(2) e(4) unfolding s1(1) by (simp_all add: scan zero_fb_handle)
    from new_device_comes_up [OF assms(1) this, of dev "?h1\<lparr>intfdata := Some dev\<rparr>"]
    obtain r h' s' where up: "on_new_usb_device a dev (?h1\<lparr>intfdata := Some dev\<rparr>, ?s1) = Inr (r, h', s')"
      "r \<in> {0, - ENOMEM}" "r \<noteq> 0 \<longrightarrow> h' = ?h1\<lparr>intfdata := Some dev\<rparr>"
      "r = 0 \<longrightarrow> h' = add_usbdev_to_list dev (?h1\<lparr>intfdata := Some dev\<rparr>) \<and> pool_inv [] s' \<and> is_alive (dv s')
        \<and> free_tickets s' \<noteq> [] \<and> inflight s' = [] \<and> ep_size s' = n \<and> factor s' = RPUSBDISP_MAX_TRANSFER_SIZE div n
        \<and> completion_work (pool s')
        \<and> (binded_usbdev (par (fb s)) = None \<longrightarrow> fb_handle (dv s') = default_fb s'
            \<and> binded_usbdev (par (fb s')) = Some dev \<and> unsync_flag (par (fb s')) = 1)"
      by (elim exE conjE) (rule that, simp_all only: s1)
    let ?h2 = "if r \<noteq> 0 then h'\<lparr>allocated_devs := allocated_devs h' - {dev}\<rparr> else h'"
    have "rpusbdisp_probe a dev (h, s) = Inr (if r \<noteq> 0 then - ENOMEM else 0, ?h2, s')"
      using True up(1) by (simp add: rpusbdisp_probe_def Let_def)
    then show ?thesis
      using up(2-4) e assms(3)
      by (intro exI [of _ "if r \<noteq> 0 then - ENOMEM else 0"] exI [of _ ?h2] exI [of _ s'])
        (cases "r = 0"; auto simp: ENOMEM_def add_usbdev_to_list_def)
  qed
qed

definition sample_answers :: probe_answers where
  "sample_answers = \<lparr>kzalloc_ok = True, bcdDevice = 0x0104,
     endpoints = [\<lparr>int_in = True, bulk_out = False, bEndpointAddress = 0x81, wMaxPacketSize = 32\<rparr>,
       \<lparr>int_in = False, bulk_out = True, bEndpointAddress = 1, wMaxPacketSize = 64\<rparr>],
     status_urb_ok = True, ticket_answers = (\<lambda>n. NewTicket n (replicate RPUSBDISP_MAX_TRANSFER_SIZE 0)),
     status_ep_found = True, status_submit_rc = 0\<rparr>"

theorem probe_establishes_pool_witness:
  "\<exists>r h' s'. rpusbdisp_probe sample_answers 9 (sample_host, bound_state) = Inr (r, h', s') \<and> r \<in> {0, - ENOMEM}
    \<and> (r = 0 \<longrightarrow> devlist h' = [9, 7] \<and> pool_inv [] s' \<and> ep_size s' \<in> {32, 64})"
proof -
  have "honest_answers (ticket_answers sample_answers)" "default_fb bound_state \<noteq> None" "9 \<notin> allocated_devs sample_host"
    by (auto simp: honest_answers_def sample_answers_def bound_state_def sample_state_def sample_host_def)
  from probe_establishes_pool [OF this] show ?thesis
    by (elim exE) (auto simp: sample_answers_def sample_host_def)
qed

end
