(* ===== verification/Driver_Machine.thy ===== *)
theory Driver_Machine
  imports Display_Flush Lifecycle_Properties
begin

text \<open>
  The driver of a bound device as a state machine: drawing requests, completions, flushes and
  refresh requests of the device in any order. In a reachable state an operation returns, or it
  is stopped by an image that fills its tickets exactly, and the tickets refine an abstract account in which a ticket moves between free and in flight or is lost, and a lost one
  never comes back.
\<close>

subsection \<open>The machine\<close>

datatype drv_op =
    Imageblit "fb_info \<Rightarrow> fb_image \<Rightarrow> u16 list" hcd fb_image
  | Fillrect "fb_info \<Rightarrow> fb_fillrect \<Rightarrow> u16 list" hcd fb_fillrect
  | Copyarea "fb_info \<Rightarrow> fb_copyarea \<Rightarrow> u16 list" hcd fb_copyarea
  | WriteFile "fb_info \<Rightarrow> u8 list \<Rightarrow> int \<times> u16 list" hcd "u8 list"
  | FlushWork hcd
  | UrbReturns tid int
  | RefreshAsked

fun run_op :: "drv_op \<Rightarrow> st \<Rightarrow> fault + st" where
  "run_op (Imageblit sys hcd img) s = display_imageblit sys hcd img s"
| "run_op (Fillrect sys hcd rect) s = display_fillrect sys hcd rect s"
| "run_op (Copyarea sys hcd area) s = display_copyarea sys hcd area s"
| "run_op (WriteFile sys hcd data) s = kbind (display_write sys hcd data s) (\<lambda>(r, s'). Inr s')"
| "run_op (FlushWork hcd) s = on_display_transfer_finished_delaywork hcd s"
| "run_op (UrbReturns t status) s = complete_urb t status s"
| "run_op RefreshAsked s = kbind (fbhandler_set_unsync_flag s) (\<lambda>s'. Inr (schedule_completion_work s'))"

text \<open>The requests the framebuffer core makes: inside the screen, drawn by code that keeps the memory's size.\<close>

definition keeps_size :: "(fb_info \<Rightarrow> 'a \<Rightarrow> u16 list) \<Rightarrow> 'a \<Rightarrow> st \<Rightarrow> bool" where
  "keeps_size sys what s \<longleftrightarrow> length (sys (fb s) what) = length (smem (fb s))"

fun admissible :: "drv_op \<Rightarrow> st \<Rightarrow> bool" where
  "admissible (Imageblit sys hcd img) s \<longleftrightarrow> keeps_size sys img s
     \<and> request_ok (sint (im_dx img)) (sint (im_dy img)) (sint (im_width img)) (sint (im_height img))"
| "admissible (Fillrect sys hcd rect) s \<longleftrightarrow> keeps_size sys rect s
     \<and> request_ok (sint (fr_dx rect)) (sint (fr_dy rect)) (sint (fr_width rect)) (sint (fr_height rect))"
| "admissible (Copyarea sys hcd area) s \<longleftrightarrow> keeps_size sys area s
     \<and> request_ok (sint (ca_dx area)) (sint (ca_dy area)) (sint (ca_width area)) (sint (ca_height area))"
| "admissible (WriteFile sys hcd data) s \<longleftrightarrow> keeps_size (\<lambda>p d. snd (sys p d)) data s"
| "admissible (FlushWork hcd) s \<longleftrightarrow> True"
| "admissible (UrbReturns t status) s \<longleftrightarrow> True"
| "admissible RefreshAsked s \<longleftrightarrow> True"

inductive drv_step :: "st \<Rightarrow> st \<Rightarrow> bool" where
  drv_step: "admissible op s \<Longrightarrow> run_op op s = Inr s' \<Longrightarrow> drv_step s s'"

inductive reachable :: "st \<Rightarrow> st \<Rightarrow> bool" for s0 where
  reachable_start: "reachable s0 s0"
| reachable_step: "reachable s0 s \<Longrightarrow> drv_step s s' \<Longrightarrow> reachable s0 s'"

inductive_cases drv_stepE: "drv_step s s'"

subsection \<open>One operation\<close>

text \<open>What every operation keeps, given the tickets \<open>L\<close> already lost.\<close>

definition op_keeps :: "tid list \<Rightarrow> st \<Rightarrow> st \<Rightarrow> bool" where
  "op_keeps L s s' \<longleftrightarrow> (\<exists>H. fb_ready (H @ L) s') \<and> ep_size s' = ep_size s
     \<and> disp_urb_count (pool s') = disp_urb_count (pool s)"

lemma op_keeps_refl: "fb_ready L s \<Longrightarrow> op_keeps L s s"
  unfolding op_keeps_def by (metis append_Nil)

lemma op_keepsI:
  "fb_ready L s' \<Longrightarrow> ep_size s' = ep_size s \<Longrightarrow> disp_urb_count (pool s') = disp_urb_count (pool s) \<Longrightarrow> op_keeps L s s'"
  unfolding op_keeps_def by (metis append_Nil)

lemma ready_after:
  assumes "pool_inv L' s'" "stable s' = stable s" "fb_ready L s"
  shows "fb_ready L' s'" "ep_size s' = ep_size s" "disp_urb_count (pool s') = disp_urb_count (pool s)"
  using assms unfolding fb_ready_def device_ready_def stable_screen [OF assms(2)] stable_facts [OF assms(2)] by simp_all

lemma ready_clear: "fb_ready L s \<Longrightarrow> fb_ready L (rect_update clear_dirty_rect s)"
  by (simp add: fb_ready_def device_ready_def screen_ok_def rle_supported_def)

lemma draw_keeps:
  assumes "fb_ready L s" "keeps_size sys what s"
  shows "fb_ready L (draw sys what s)" "disp_urb_count (pool (draw sys what s)) = disp_urb_count (pool s)"
proof -
  show "fb_ready L (draw sys what s)"
    using assms by (simp add: fb_ready_def device_ready_def screen_ok_def keeps_size_def rle_supported_def)
      (simp add: draw_def)
qed (simp add: draw_def)

text \<open>An operation returns and keeps the invariant, or it is stopped by the image of an update.\<close>

definition returns_or_stuck :: "tid list \<Rightarrow> st \<Rightarrow> bool \<Rightarrow> fault + st \<Rightarrow> bool" where
  "returns_or_stuck L s full run \<longleftrightarrow> (case run of Inl fault \<Rightarrow> fault = BugOn \<and> full | Inr s' \<Rightarrow> op_keeps L s s')"

lemma returns_or_stuck_simps [simp]:
  "returns_or_stuck L s full (Inl fault) \<longleftrightarrow> fault = BugOn \<and> full"
  "returns_or_stuck L s full (Inr s') \<longleftrightarrow> op_keeps L s s'"
  by (simp_all add: returns_or_stuck_def)

lemma image_update_keeps:
  fixes hcd :: hcd
  assumes "fb_ready L s" "request_ok x y width height"
    and "hint = DISPLAY_UPDATE_HINT_NONE \<or> hint = DISPLAY_UPDATE_HINT_BITBLT"
  shows "returns_or_stuck L s (update_exact_fill x y width height s) (display_update hcd x y width height hint s)"
proof (cases "binded_usbdev (par (fb s)) = None")
  case True
  then show ?thesis
    using op_keeps_refl [OF assms(1)] by (simp add: display_update_def)
next
  case False
  have "in_sync_except x y width height (fb_pixel (fb s)) s"
    by (simp add: in_sync_except_def)
  then show ?thesis
    by (rule display_update_sync [OF assms(1,2) False assms(3), where hcd = hcd])
      (simp_all add: op_keeps_def, blast)
qed

lemma rect_update_keeps:
  fixes hcd :: hcd
  assumes ready: "fb_ready L s" and req: "request_ok x y width height" and ep: "13 \<le> ep_size s"
    and hint: "hint = DISPLAY_UPDATE_HINT_FILLRECT rect \<or> hint = DISPLAY_UPDATE_HINT_COPYAREA area"
  shows "\<exists>s'. display_update hcd x y width height hint s = Inr s' \<and> op_keeps L s s'"
proof (cases "binded_usbdev (par (fb s)) = None")
  case True
  then show ?thesis
    using op_keeps_refl [OF ready] by (simp add: display_update_def)
next
  case False
  let ?m = "marked x y width height s"
  note m = marked_facts [OF ready req]
  have count: "disp_urb_count (pool ?m) = disp_urb_count (pool s)"
    by (simp add: marked_def)
  obtain command n where send: "send_update hcd hint (refreshes s) ?m = send_single_packet hcd command n ?m"
    and len: "length command \<le> 13" "length command \<le> n" "n \<le> 14"
    using hint by (auto simp: send_update_def rpusbdisp_usb_try_draw_rect_def rpusbdisp_usb_try_copy_area_def)
  have unfold: "display_update hcd x y width height hint s =
    kbind (send_single_packet hcd command n ?m) (\<lambda>(q, s'). Inr (if q \<noteq> 0 then rect_update clear_dirty_rect s' else s'))"
    using display_update_unfold [OF False req, of hcd hint] ready by (simp add: fb_ready_def send)
  have after: "op_keeps L s s'" "op_keeps L s (rect_update clear_dirty_rect s')"
    if "pool_inv L s'" "stable s' = stable ?m" for s'
  proof -
    note k = ready_after [OF that m(1)]
    show "op_keeps L s s'" "op_keeps L s (rect_update clear_dirty_rect s')"
      using k(2,3) m(5) count by (intro op_keepsI k(1) ready_clear [OF k(1)]; simp)+
  qed
  have inv: "pool_inv L ?m"
    using m(1) by (simp add: fb_ready_def device_ready_def)
  show ?thesis
  proof (cases rule: send_single_packet_cases [OF inv, of command n, where hcd = hcd])
    case 1
    then show ?case using len ep m(5) by simp
  next
    case 2
    then show ?case using len by simp
  next
    case 3
    then show ?case using len by (simp add: conf_defs)
  next
    case 4
    then show ?thesis
      using unfold after(1) [of ?m] inv by simp
  next
    case (5 s' u)
    then show ?thesis
      using unfold after(1) [of s'] by simp
  next
    case (6 s' u)
    then show ?thesis
      using unfold after(2) [of s'] by simp
  qed
qed

lemma complete_urb_count:
  assumes "fb_ready L s"
  shows "\<exists>s'. complete_urb t status s = Inr s' \<and> op_keeps L s s'"
proof -
  have inv: "pool_inv L s"
    using assms by (simp add: fb_ready_def device_ready_def)
  obtain s' where s': "complete_urb t status s = Inr s'" "pool_inv L s'" "stable s' = stable s"
    by (rule complete_urb_ok [OF inv, where t = t and status = status]) blast
  then show ?thesis
    using ready_after [OF s'(2,3) assms] by (blast intro: op_keepsI)
qed

lemma scheduled_keeps:
  assumes "fb_ready L s"
  shows "op_keeps L s (pool_update (completion_work_update f) s)"
  using scheduled_ready [OF assms] by (rule op_keepsI) simp_all

lemma op_keeps_trans: "op_keeps L s s1 \<Longrightarrow> (\<And>H. fb_ready (H @ L) s1 \<Longrightarrow> op_keeps (H @ L) s1 s2) \<Longrightarrow> op_keeps L s s2"
  unfolding op_keeps_def by (metis append.assoc)

lemma op_keeps_from:
  assumes "op_keeps L s1 s2" "ep_size s1 = ep_size s" "disp_urb_count (pool s1) = disp_urb_count (pool s)"
  shows "op_keeps L s s2"
  using assms by (simp add: op_keeps_def)

lemma update_exact_fill_scheduled [simp]:
  "update_exact_fill x y width height (pool_update (completion_work_update f) s) = update_exact_fill x y width height s"
  by (simp add: update_exact_fill_def exact_fill_def image_payload_def update_rect_def refreshes_def rle_supported_def Let_def)

lemma flush_work_keeps:
  fixes hcd :: hcd
  assumes "fb_ready L s"
  shows "returns_or_stuck L s (update_exact_fill 0 0 320 240 s) (on_display_transfer_finished_delaywork hcd s)"
proof -
  let ?s = "pool_update (completion_work_update (\<lambda>_. False)) s"
  have "op_keeps L s ?s"
    by (rule scheduled_keeps [OF assms])
  moreover have "returns_or_stuck L s (update_exact_fill 0 0 320 240 s)
      (display_update hcd 0 0 320 240 DISPLAY_UPDATE_HINT_NONE ?s)"
    using image_update_keeps [OF scheduled_ready [OF assms] full_request, of DISPLAY_UPDATE_HINT_NONE "\<lambda>_. False" hcd]
    by (auto simp: returns_or_stuck_def op_keeps_def split: sum.splits)
  moreover have "on_display_transfer_finished_delaywork hcd s = Inr ?s \<or>
      on_display_transfer_finished_delaywork hcd s = display_update hcd 0 0 320 240 DISPLAY_UPDATE_HINT_NONE ?s"
    by (auto simp: on_display_transfer_finished_delaywork_def fbhandler_on_all_transfer_done_def conf_defs Let_def)
  ultimately show ?thesis
    by auto
qed

text \<open>The operations that send an image, when the image of their update fills its tickets exactly.\<close>

fun op_exact_fill :: "drv_op \<Rightarrow> st \<Rightarrow> bool" where
  "op_exact_fill (Imageblit sys hcd img) s \<longleftrightarrow>
     update_exact_fill (sint (im_dx img)) (sint (im_dy img)) (sint (im_width img)) (sint (im_height img)) (draw sys img s)"
| "op_exact_fill (WriteFile sys hcd data) s \<longleftrightarrow> update_exact_fill 0 0 320 240 (draw (\<lambda>p d. snd (sys p d)) data s)"
| "op_exact_fill (FlushWork hcd) s \<longleftrightarrow> update_exact_fill 0 0 320 240 s"
| "op_exact_fill _ s \<longleftrightarrow> False"

lemma drawn_update:
  assumes "fb_ready L s" "keeps_size sys what s" "returns_or_stuck L (draw sys what s) full run"
  shows "returns_or_stuck L s full run"
  using assms(3) op_keeps_from [of L "draw sys what s" _ s] draw_keeps(2) [OF assms(1,2)]
  by (auto simp: returns_or_stuck_def split: sum.splits)

lemma op_total:
  assumes ready: "fb_ready L s" and ep: "13 \<le> ep_size s" and adm: "admissible op s"
  shows "returns_or_stuck L s (op_exact_fill op s) (run_op op s)"
proof (cases op)
  case (Imageblit sys hcd img)
  have k: "keeps_size sys img s"
    using adm Imageblit by simp
  show ?thesis
    using drawn_update [OF ready k image_update_keeps [OF draw_keeps(1) [OF ready k]]] adm Imageblit
    by (simp add: display_imageblit_def)
next
  case (Fillrect sys hcd rect)
  have k: "keeps_size sys rect s"
    using adm Fillrect by simp
  have "request_ok (sint (fr_dx rect)) (sint (fr_dy rect)) (sint (fr_width rect)) (sint (fr_height rect))"
    using adm Fillrect by simp
  from rect_update_keeps [OF draw_keeps(1) [OF ready k] this, of "DISPLAY_UPDATE_HINT_FILLRECT rect"]
  obtain s' where "display_fillrect sys hcd rect s = Inr s'" "op_keeps L (draw sys rect s) s'"
    using ep unfolding display_fillrect_def by auto
  then show ?thesis
    using drawn_update [OF ready k, of False "Inr s'"] Fillrect by simp
next
  case (Copyarea sys hcd area)
  have k: "keeps_size sys area s"
    using adm Copyarea by simp
  have "request_ok (sint (ca_dx area)) (sint (ca_dy area)) (sint (ca_width area)) (sint (ca_height area))"
    using adm Copyarea by simp
  from rect_update_keeps [OF draw_keeps(1) [OF ready k] this, of "DISPLAY_UPDATE_HINT_COPYAREA area"]
  obtain s' where "display_copyarea sys hcd area s = Inr s'" "op_keeps L (draw sys area s) s'"
    using ep unfolding display_copyarea_def by auto
  then show ?thesis
    using drawn_update [OF ready k, of False "Inr s'"] Copyarea by simp
next
  case (WriteFile sys hcd data)
  let ?d = "\<lambda>p d. snd (sys p d)"
  have k: "keeps_size ?d data s"
    using adm WriteFile by simp
  have screen: "sint (var_width (fb (draw ?d data s))) = 320" "sint (var_height (fb (draw ?d data s))) = 240"
    using draw_keeps(1) [OF ready k] by (simp_all add: fb_ready_def screen_ok_def)
  have "returns_or_stuck L s (op_exact_fill op s)
      (display_update hcd 0 0 320 240 DISPLAY_UPDATE_HINT_NONE (draw ?d data s))"
    using drawn_update [OF ready k image_update_keeps [OF draw_keeps(1) [OF ready k] full_request]] WriteFile by simp
  then show ?thesis
    using WriteFile screen
    by (cases "display_update hcd 0 0 320 240 DISPLAY_UPDATE_HINT_NONE (draw ?d data s)")
      (simp_all add: display_write_def Let_def)
next
  case (FlushWork hcd)
  then show ?thesis
    using flush_work_keeps [OF ready] by simp
next
  case (UrbReturns t status)
  then show ?thesis
    using complete_urb_count [OF ready, of t status] by auto
next
  case RefreshAsked
  have inv: "fb_handle (dv s) \<noteq> None \<longrightarrow> default_fb s \<noteq> None"
    using ready by (simp add: fb_ready_def device_ready_def pool_inv_def)
  have flagged: "fb_ready L (private_update (unsync_flag_update (\<lambda>_. 1)) s)"
    using ready by (simp add: fb_ready_def device_ready_def screen_ok_def rle_supported_def)
  have "fbhandler_set_unsync_flag s = Inr s \<or> fbhandler_set_unsync_flag s = Inr (private_update (unsync_flag_update (\<lambda>_. 1)) s)"
    using inv by (auto simp: fbhandler_set_unsync_flag_def rpusbdisp_usb_get_fbhandle_def)
  moreover have "op_keeps L s (schedule_completion_work s)"
    using scheduled_keeps [OF ready] by (simp add: schedule_completion_work_def)
  moreover have "op_keeps L s (schedule_completion_work (private_update (unsync_flag_update (\<lambda>_. 1)) s))"
    unfolding schedule_completion_work_def
    by (rule op_keeps_from [OF scheduled_keeps [OF flagged]]) simp_all
  ultimately show ?thesis
    using RefreshAsked by auto
qed

subsection \<open>Reachable states\<close>

lemma reachable_keeps:
  assumes "reachable s0 s" "fb_ready L s0" "13 \<le> ep_size s0"
  shows "op_keeps L s0 s"
  using assms
proof (induction rule: reachable.induct)
  case reachable_start
  then show ?case
    by (simp add: op_keeps_refl)
next
  case (reachable_step s s')
  then have keeps: "op_keeps L s0 s"
    by blast
  obtain op where op: "admissible op s" "run_op op s = Inr s'"
    using reachable_step.hyps(2) by (rule drv_stepE)
  have "op_keeps (H @ L) s s'" if "fb_ready (H @ L) s" for H
    using op_total [OF that _ op(1)] op(2) keeps reachable_step.prems(2) by (simp add: op_keeps_def)
  then show ?case
    using op_keeps_trans [OF keeps, of s'] by blast
qed

text \<open>
  C23. In every state reachable from a bound device with an endpoint of at least 13 bytes, whatever the
  order of drawing requests, completions, flushes and refresh requests, the pool invariant and the
  shape of the screen and the dirty rectangle hold, and every admissible operation returns in such a
  state again, with one exception: an operation that sends an image can hit the
  \<^verbatim>\<open>BUG_ON\<close> when the image of its update takes the tickets bought for it to the
  last byte.
\<close>

theorem machine_faults_only_on_exact_fill:
  assumes "fb_ready L s0" "13 \<le> ep_size s0" "reachable s0 s" "admissible op s"
  shows "(\<exists>H. fb_ready (H @ L) s)
    \<and> (case run_op op s of Inl fault \<Rightarrow> fault = BugOn \<and> op_exact_fill op s | Inr s' \<Rightarrow> \<exists>H. fb_ready (H @ L) s')"
proof -
  have keeps: "op_keeps L s0 s"
    by (rule reachable_keeps [OF assms(3,1,2)])
  then obtain H where H: "fb_ready (H @ L) s" "13 \<le> ep_size s"
    using assms(2) by (auto simp: op_keeps_def)
  have "\<exists>H'. fb_ready (H' @ L) s'" if "op_keeps (H @ L) s s'" for s'
    using that unfolding op_keeps_def append_assoc [symmetric] by blast
  then show ?thesis
    using op_total [OF H assms(4)] H(1) by (auto simp: returns_or_stuck_def split: sum.splits)
qed

theorem machine_faults_only_on_exact_fill_witness:
  "(\<exists>H. fb_ready (H @ []) bound_state) \<and> (\<exists>s' H. run_op (FlushWork refusing) bound_state = Inr s' \<and> fb_ready (H @ []) s')"
  using machine_faults_only_on_exact_fill [OF bound_ready _ reachable_start, of "FlushWork refusing"]
  by (auto simp: odd_estimate_no_fill split: sum.splits)

text \<open>
  The exception is real: on a 512-byte endpoint with run-length encoding, an image blit of 202 rows in
  which no pixel repeats stops the driver. Writes and flushes, which send the whole screen, cannot.
\<close>

lemma only_imageblit_fills:
  assumes "fb_ready L s" "admissible op s" "\<not> ticket_payload s dvd image_estimate s 0 0 319 239" "op_exact_fill op s"
  shows "\<exists>sys hcd img. op = Imageblit sys hcd img"
proof (cases op)
  case (WriteFile sys hcd data)
  then show ?thesis
    using full_update_fill [OF draw_keeps(1) [OF assms(1)]] assms(2-4) by simp
next
  case (FlushWork hcd)
  then show ?thesis
    using full_update_fill [OF assms(1)] assms(3,4) by simp
qed (use assms(4) in simp_all)

definition striped_state :: st where
  "striped_state = sample_state 512 127 0x0104 3"

lemma striped_imageblit_stuck:
  "\<exists>s. reachable s s \<and> admissible (Imageblit (\<lambda>p img. striped_screen) accepting
      \<lparr>im_dx = 0, im_dy = 0, im_width = 320, im_height = 202, im_data = []\<rparr>) s \<and> fb_ready [] s
    \<and> run_op (Imageblit (\<lambda>p img. striped_screen) accepting
      \<lparr>im_dx = 0, im_dy = 0, im_width = 320, im_height = 202, im_data = []\<rparr>) s = Inl BugOn"
proof -
  let ?sys = "\<lambda>p img. striped_screen"
  let ?img = "\<lparr>im_dx = 0, im_dy = 0, im_width = 320, im_height = 202, im_data = []\<rparr>"
  let ?d = "draw ?sys ?img striped_state"
  have ready: "fb_ready [] striped_state"
    by (simp add: fb_ready_def striped_state_def sample_ready screen_ok_def sample_fb_def rect_ok_def)
  have adm: "admissible (Imageblit ?sys accepting ?img) striped_state"
    by (simp add: keeps_size_def request_ok_def striped_state_def sample_fb_def striped_screen_def)
  have req: "request_ok 0 0 320 202"
    by (simp add: request_ok_def)
  have k: "keeps_size ?sys ?img striped_state"
    using adm by simp
  note drawn = draw_keeps(1) [OF ready k]
  have r: "update_rect 0 0 320 202 ?d = \<lparr>left = 0, top = 0, right = 319, bottom = 201, dirty_flag = 1\<rparr>"
    by (simp add: update_rect_def refreshes_def merge_rect_char req striped_state_def sample_fb_def)
  have rle: "rle_supported striped_state" and payload: "ticket_payload striped_state = 64897"
    by (simp_all add: striped_state_def ticket_payload_def)
  have exact: "update_exact_fill 0 0 320 202 ?d"
    unfolding update_exact_fill_def r Let_def
    by (simp add: exact_fill_def image_payload_def image_stream_def striped_size image_estimate_def
        worst_payload_def rect_pixels_def rle payload)
  have enough: "tickets_suffice ?d (rect_pixels 0 0 319 201)"
    by (simp add: tickets_suffice_def worst_payload_def rect_pixels_def striped_state_def draw_def)
  have "display_update accepting 0 0 320 202 DISPLAY_UPDATE_HINT_BITBLT ?d = Inl BugOn"
  proof (cases rule: display_update_image_cases [OF drawn req, of DISPLAY_UPDATE_HINT_BITBLT, where hcd = accepting])
    case 1
    then show ?case by (simp add: striped_state_def sample_fb_def)
  next
    case 2
    then show ?case by simp
  next
    case (3 s' us)
    then show ?thesis using exact by simp
  next
    case (4 s' H)
    then show ?thesis using enough by (simp add: r refused_log_def Let_def)
  next
    case 5
    then show ?thesis by simp
  qed
  then have "run_op (Imageblit ?sys accepting ?img) striped_state = Inl BugOn"
    by (simp add: display_imageblit_def)
  then show ?thesis
    using ready adm reachable_start by blast
qed

subsection \<open>The account of tickets\<close>

text \<open>The abstract view: how many tickets are free, in flight and lost.\<close>

record account =
  acc_free :: nat
  acc_inflight :: nat
  acc_lost :: nat

inductive account_step :: "account \<Rightarrow> account \<Rightarrow> bool" where
  submit: "account_step \<lparr>acc_free = Suc f, acc_inflight = i, acc_lost = l\<rparr> \<lparr>acc_free = f, acc_inflight = Suc i, acc_lost = l\<rparr>"
| give_back: "account_step \<lparr>acc_free = f, acc_inflight = Suc i, acc_lost = l\<rparr> \<lparr>acc_free = Suc f, acc_inflight = i, acc_lost = l\<rparr>"
| lose: "account_step \<lparr>acc_free = Suc f, acc_inflight = i, acc_lost = l\<rparr> \<lparr>acc_free = f, acc_inflight = i, acc_lost = Suc l\<rparr>"

definition account_of :: "st \<Rightarrow> account" where
  "account_of s =
     \<lparr>acc_free = length (free_tickets s), acc_inflight = length (inflight s),
      acc_lost = disp_urb_count (pool s) - length (free_tickets s) - length (inflight s)\<rparr>"

lemma all_back:
  "account_step\<^sup>*\<^sup>* \<lparr>acc_free = f, acc_inflight = i, acc_lost = l\<rparr> \<lparr>acc_free = f + i, acc_inflight = 0, acc_lost = l\<rparr>"
proof (induction i arbitrary: f)
  case (Suc i)
  show ?case
    using converse_rtranclp_into_rtranclp [OF give_back Suc.IH [of "Suc f"]] by simp
qed simp

lemma lose_some:
  "account_step\<^sup>*\<^sup>* \<lparr>acc_free = f + n, acc_inflight = i, acc_lost = l\<rparr> \<lparr>acc_free = f, acc_inflight = i, acc_lost = l + n\<rparr>"
proof (induction n arbitrary: l)
  case (Suc n)
  show ?case
    using converse_rtranclp_into_rtranclp [OF lose Suc.IH [of "Suc l"]] by simp
qed simp

lemma submit_some:
  "account_step\<^sup>*\<^sup>* \<lparr>acc_free = f + n, acc_inflight = i, acc_lost = l\<rparr> \<lparr>acc_free = f, acc_inflight = i + n, acc_lost = l\<rparr>"
proof (induction n arbitrary: i)
  case (Suc n)
  show ?case
    using converse_rtranclp_into_rtranclp [OF submit Suc.IH [of "Suc i"]] by simp
qed simp

lemma account_reach:
  assumes "f + i + l = f' + i' + l'" "l \<le> l'"
  shows "account_step\<^sup>*\<^sup>* \<lparr>acc_free = f, acc_inflight = i, acc_lost = l\<rparr> \<lparr>acc_free = f', acc_inflight = i', acc_lost = l'\<rparr>"
proof -
  have sum: "f + i = f' + i' + (l' - l)" and lost: "l + (l' - l) = l'"
    using assms by simp_all
  note home = all_back [of f i l, unfolded sum]
  note lose = lose_some [of "f' + i'" "l' - l" 0 l, unfolded lost]
  note submit = submit_some [of f' i' 0 l', unfolded add_0]
  show ?thesis
    by (rule rtranclp_trans [OF home rtranclp_trans [OF lose submit]])
qed

lemma account_lost:
  assumes "fb_ready L s"
  shows "acc_lost (account_of s) = length L"
    and "length (free_tickets s) + length (inflight s) + length L = disp_urb_count (pool s)"
proof -
  have "length (free_tickets s @ inflight s @ L) = disp_urb_count (pool s)"
    using assms by (simp add: fb_ready_def device_ready_def pool_inv_def)
  then show "acc_lost (account_of s) = length L"
    "length (free_tickets s) + length (inflight s) + length L = disp_urb_count (pool s)"
    by (simp_all add: account_of_def)
qed

lemma keeps_account:
  assumes "fb_ready L s" "op_keeps L s s'"
  shows "account_step\<^sup>*\<^sup>* (account_of s) (account_of s')"
proof -
  obtain H where H: "fb_ready (H @ L) s'" "disp_urb_count (pool s') = disp_urb_count (pool s)"
    using assms(2) by (auto simp: op_keeps_def)
  have "account_step\<^sup>*\<^sup>* \<lparr>acc_free = length (free_tickets s), acc_inflight = length (inflight s), acc_lost = length L\<rparr>
      \<lparr>acc_free = length (free_tickets s'), acc_inflight = length (inflight s'), acc_lost = length (H @ L)\<rparr>"
    by (rule account_reach) (use account_lost(2) [OF assms(1)] account_lost(2) [OF H(1)] H(2) in simp_all)
  then show ?thesis
    using account_lost(1) [OF assms(1)] account_lost(1) [OF H(1)] by (simp add: account_of_def)
qed

text \<open>
  C24. The driver refines the account of tickets: every step from a reachable state is a sequence of
  moves of the account, in which a ticket goes from free to in flight and back or is lost, so that
  no ticket appears from nowhere, none is in two places, and a lost one never comes back.
\<close>

theorem tickets_refine_account:
  assumes "fb_ready L s0" "13 \<le> ep_size s0" "reachable s0 s" "drv_step s s'"
  shows "account_step\<^sup>*\<^sup>* (account_of s0) (account_of s) \<and> account_step\<^sup>*\<^sup>* (account_of s) (account_of s')"
proof -
  have keeps: "op_keeps L s0 s"
    by (rule reachable_keeps [OF assms(3,1,2)])
  then obtain H where H: "fb_ready (H @ L) s" "13 \<le> ep_size s"
    using assms(2) by (auto simp: op_keeps_def)
  obtain op where "admissible op s" "run_op op s = Inr s'"
    using assms(4) by (rule drv_stepE)
  then have "op_keeps (H @ L) s s'"
    using op_total [OF H] by (metis returns_or_stuck_simps(2))
  then show ?thesis
    using keeps_account [OF assms(1) keeps] keeps_account [OF H(1)] by blast
qed

theorem tickets_refine_account_witness:
  "\<exists>s'. drv_step bound_state s' \<and> account_step\<^sup>*\<^sup>* (account_of bound_state) (account_of s')"
proof -
  obtain s' where "run_op (FlushWork accepting) bound_state = Inr s'"
    using op_total [OF bound_ready, of "FlushWork accepting"]
    by (auto simp: returns_or_stuck_def odd_estimate_no_fill split: sum.splits)
  then have "drv_step bound_state s'"
    by (intro drv_step [of "FlushWork accepting"]) simp_all
  then show ?thesis
    using tickets_refine_account [OF bound_ready _ reachable_start] by auto
qed

end
