(* ===== verification/Rect_Properties.thy ===== *)
theory Rect_Properties
  imports Display_Properties
begin

text \<open>
  What holds of the accelerated fill: the command that goes out is the requested one, and what was
  pending before is forgotten.
\<close>

lemma word_of_int_sint_ucast: "(word_of_int (sint (v :: u32)) :: u16) = ucast v"
  by (rule bit_word_eqI) (simp add: bit_simps)

text \<open>
  C25. An accelerated fill of a device that accepts it sends exactly one transfer, the rectangle command
  with the start flag, the first and the last column and row of the requested rectangle, the colour as
  it was passed and the raster operation, and nothing after it; and it clears the whole dirty
  rectangle, so that a region outside the fill that waited to be sent is not pending any more
  although nothing of it was sent.
\<close>

theorem fillrect_sends_and_forgets:
  fixes hcd :: hcd
  assumes "fb_ready L s" "13 \<le> ep_size s" "binded_usbdev (par (fb s)) \<noteq> None"
    and "is_alive (dv s)" "free_tickets s \<noteq> []" "\<And>log bytes. reply_rc (hcd log bytes) = 0"
    and "request_ok (sint (fr_dx rect)) (sint (fr_dy rect)) (sint (fr_width rect)) (sint (fr_height rect))"
    and "length (sys_fillrect (fb s) rect) = length (smem (fb s))"
  shows "\<exists>s' u. display_fillrect sys_fillrect hcd rect s = Inr s' \<and> usb_log s' = usb_log s @ [accepted u]
    \<and> parse_fillrect u = Some
        (\<lparr>fillrect_header = \<lparr>cmd_flag = RPUSBDISP_DISPCMD_RECT OR RPUSBDISP_CMD_FLAG_START\<rparr>,
          fillrect_left = ucast (fr_dx rect), fillrect_top = ucast (fr_dy rect),
          fillrect_right = ucast (fr_dx rect + fr_width rect - 1),
          fillrect_bottom = ucast (fr_dy rect + fr_height rect - 1),
          fillrect_color_565 = ucast (fr_color rect),
          fillrect_operation = (if fr_rop rect = ROP_XOR then RPUSBDISP_OPERATION_XOR else RPUSBDISP_OPERATION_COPY)\<rparr>, [])
    \<and> (\<forall>x y. \<not> in_rect (rect_of s') x y)"
proof -
  let ?d = "draw sys_fillrect rect s"
  let ?x = "sint (fr_dx rect)" and ?y = "sint (fr_dy rect)" and ?w = "sint (fr_width rect)" and ?h = "sint (fr_height rect)"
  let ?m = "marked ?x ?y ?w ?h ?d"
  let ?cmd = "fillrect_command ?x ?y (sint (fr_dx rect + fr_width rect - 1)) (sint (fr_dy rect + fr_height rect - 1))
    (ucast (fr_color rect)) (if fr_rop rect = ROP_XOR then RPUSBDISP_OPERATION_XOR else RPUSBDISP_OPERATION_COPY)"
  let ?hint = "DISPLAY_UPDATE_HINT_FILLRECT rect"
  have ready: "fb_ready L ?d"
    using assms(1,8) by (simp add: fb_ready_def device_ready_def screen_ok_def rle_supported_def)
      (simp add: draw_def)
  note m = marked_facts [OF ready assms(7)]
  have same: "is_alive (dv ?m)" "free_tickets ?m = free_tickets s"
    using assms(4) by (simp_all add: marked_def draw_def)
  have unfold: "display_fillrect sys_fillrect hcd rect s = kbind (send_single_packet hcd (fillrect_bytes ?cmd) 12 ?m)
      (\<lambda>(r, s'). Inr (if r \<noteq> 0 then rect_update clear_dirty_rect s' else s'))"
    using display_update_unfold [OF _ assms(7), of ?d hcd ?hint] assms(3) ready
    by (simp add: display_fillrect_def fb_ready_def send_update_def rpusbdisp_usb_try_draw_rect_def)
  have inv: "pool_inv L ?m"
    using m(1) by (simp add: fb_ready_def device_ready_def)
  show ?thesis
  proof (cases rule: send_single_packet_cases [OF inv, of "fillrect_bytes ?cmd" 12, where hcd = hcd])
    case 1
    then show ?case using assms(2) m(5) by simp
  next
    case 2
    then show ?case by simp
  next
    case 3
    then show ?case by (simp add: conf_defs)
  next
    case 4
    then show ?thesis
      using same assms(5) by simp
  next
    case (5 s' u)
    then show ?thesis
      using assms(6) by (simp add: refused_log_def Let_def)
  next
    case (6 s' u)
    have "u = fillrect_bytes ?cmd"
      using 6(5,6) by simp
    then have "parse_fillrect u = Some (?cmd, [])"
      using parse_fillrect_bytes [of ?cmd "[]"] by simp
    note this [unfolded fillrect_command_def word_of_int_sint_ucast]
    then show ?thesis
      using 6(1,4) m(4) unfold
      by (intro exI [of _ "rect_update clear_dirty_rect s'"] exI [of _ u]) (simp add: kbind_Inr)
  qed
qed

text \<open>The twelve bytes of a fill, and a pending rectangle elsewhere that is forgotten.\<close>

theorem fillrect_sends_and_forgets_witness:
  "\<exists>s' u. display_fillrect (\<lambda>p r. smem p) accepting
      \<lparr>fr_dx = 10, fr_dy = 20, fr_width = 30, fr_height = 40, fr_color = 0xF800, fr_rop = 0\<rparr>
      (rect_update (\<lambda>r. r\<lparr>left := 100, right := 200, top := 100, bottom := 200, dirty_flag := 1\<rparr>) bound_state) = Inr s'
    \<and> usb_log s' = [accepted u]
    \<and> parse_fillrect u = Some (\<lparr>fillrect_header = \<lparr>cmd_flag = 0x83\<rparr>, fillrect_left = 10, fillrect_top = 20,
        fillrect_right = 39, fillrect_bottom = 59, fillrect_color_565 = 0xF800, fillrect_operation = 0\<rparr>, [])
    \<and> (\<forall>x y. \<not> in_rect (rect_of s') x y)"
proof -
  let ?s = "rect_update (\<lambda>r. r\<lparr>left := 100, right := 200, top := 100, bottom := 200, dirty_flag := 1\<rparr>) bound_state"
  let ?r = "\<lparr>fr_dx = 10, fr_dy = 20, fr_width = 30, fr_height = 40, fr_color = 0xF800, fr_rop = 0\<rparr>"
  have ready: "fb_ready [] ?s"
    using bound_ready by (simp add: fb_ready_def device_ready_def screen_ok_def rle_supported_def rect_ok_def)
  have facts: "is_alive (dv bound_state)" "free_tickets bound_state \<noteq> []"
    by (simp_all add: bound_state_def)
  show ?thesis
    using fillrect_sends_and_forgets [OF ready, where hcd = accepting and rect = ?r and sys_fillrect = "\<lambda>p r. smem p"] facts
    by (simp add: request_ok_def ROP_XOR_def RPUSBDISP_DISPCMD_RECT_def RPUSBDISP_CMD_FLAG_START_def
        RPUSBDISP_OPERATION_COPY_def)
qed

end
