(* ===== verification/Status_Properties.thy ===== *)
theory Status_Properties
  imports Status_Touch Display_Properties
begin

text \<open>
  What holds of status polling: a packet leads to the touch event and the flag it carries, and one
  failed transfer ends the polling.
\<close>

lemma packet_read_back [simp]:
  "packet_in_buffer (status_bytes p @ rest) = Inr p"
  by (simp add: packet_in_buffer_def status_bytes_def cpu_to_le32_def nth_append)

text \<open>The events of a touch packet.\<close>

definition touch_events :: "rpusbdisp_status_normal_packet_t \<Rightarrow> input_event list" where
  "touch_events p =
     (if touch_status p = RPUSBDISP_TOUCH_STATUS_PRESSED
      then [ReportAbs ABS_X (sint (touch_x p)), ReportAbs ABS_Y (sint (touch_y p)), ReportAbs ABS_PRESSURE 1,
            ReportTouchKey 1, InputSync]
      else [ReportAbs ABS_PRESSURE 0, ReportTouchKey 0, InputSync])"

definition asks_refresh :: "rpusbdisp_status_normal_packet_t \<Rightarrow> bool" where
  "asks_refresh p \<longleftrightarrow> display_status p AND RPUSBDISP_DISPLAY_STATUS_DIRTY_FLAG \<noteq> 0"

text \<open>
  C17. A normal status packet that arrives on the status URB of a living device is read back exactly
  as the device wrote it: the input core gets its touch event, a dirty flag marks the display out
  of sync and schedules the flush, and the status URB is submitted again.
\<close>

theorem status_packet_handled:
  assumes "is_alive (dv s)" "urb_status_query (dv s) = Some True" "length (status_in_buffer (dv s)) = 32"
    and "urb_status_fail_count (dv s) < 4" "fb_handle (dv s) \<noteq> None" "default_fb s \<noteq> None"
    and "packet_type p = RPUSBDISP_STATUS_TYPE_NORMAL" "live_flag t" "default_input_dev t \<noteq> None"
  shows "\<exists>s' t'. status_urb_returns (status_bytes p) 0 True 0 (s, t) = Inr (s', t')
    \<and> input_log t' = input_log t @ touch_events p
    \<and> urb_status_query (dv s') = Some True
    \<and> unsync_flag (par (fb s')) = (if asks_refresh p then 1 else unsync_flag (par (fb s)))
    \<and> completion_work (pool s') = (asks_refresh p \<or> completion_work (pool s))"
  using assms
  by (auto simp: status_urb_returns_def on_status_query_finished_def on_parse_status_packet_def
      fbhandler_set_unsync_flag_def rpusbdisp_usb_get_fbhandle_def schedule_completion_work_def
      touchhandler_send_ts_event_def touch_events_def asks_refresh_def status_start_querying_def
      RPUSBDISP_STATUS_QUERY_RETRY_COUNT_def)

definition sample_touch :: touch_st where
  "sample_touch = \<lparr>default_input_dev = Some \<lparr>evbit = {}, keybit_touch = False, absinfo = Map.empty\<rparr>, live_flag = True,
     input_registered = True, input_log = []\<rparr>"

definition sample_packet :: rpusbdisp_status_normal_packet_t where
  "sample_packet = \<lparr>packet_type = 0, display_status = 0x80, touch_status = 1, touch_x = 100, touch_y = -1\<rparr>"

theorem status_packet_handled_witness:
  "\<exists>s' t'. status_urb_returns (status_bytes sample_packet) 0 True 0 (bound_state, sample_touch) = Inr (s', t')
    \<and> input_log t' = [ReportAbs ABS_X 100, ReportAbs ABS_Y (-1), ReportAbs ABS_PRESSURE 1, ReportTouchKey 1, InputSync]
    \<and> urb_status_query (dv s') = Some True \<and> unsync_flag (par (fb s')) = 1 \<and> completion_work (pool s')"
  using status_packet_handled [of bound_state sample_packet sample_touch]
  by (simp add: bound_state_def sample_state_def sample_dev_def sample_touch_def sample_packet_def status_defs
      touch_events_def asks_refresh_def)

text \<open>Returns of the status URB one after the other.\<close>

fun status_urbs_return :: "(u8 list \<times> int \<times> bool \<times> int) list \<Rightarrow> drv \<Rightarrow> fault + drv" where
  "status_urbs_return [] d = Inr d"
| "status_urbs_return ((received, urb_st, ep_found, rc) # rest) d =
     kbind (status_urb_returns received urb_st ep_found rc d) (status_urbs_return rest)"

lemma no_more_status:
  "urb_status_query (dv s) \<noteq> Some True \<Longrightarrow> status_urbs_return rs (s, t) = Inr (s, t)"
  by (induction rs) (auto simp: status_urb_returns_def)

text \<open>
  C18. One failed status transfer ends the polling for good: the failure count goes straight to the
  limit, the URB is not submitted again, and no later return of it changes anything, so no touch
  event reaches the input core any more, although the driver has a retry limit of 4.
\<close>

theorem status_error_stops_polling:
  assumes "is_alive (dv s)" "urb_status_query (dv s) = Some True" "urb_st \<noteq> 0"
  shows "\<exists>s'. status_urb_returns received urb_st ep_found rc (s, t) = Inr (s', t)
    \<and> urb_status_fail_count (dv s') = RPUSBDISP_STATUS_QUERY_RETRY_COUNT
    \<and> urb_status_query (dv s') = Some False
    \<and> (\<forall>rs. status_urbs_return rs (s', t) = Inr (s', t))"
proof -
  let ?s' = "dv_update (\<lambda>d. d\<lparr>urb_status_query := Some False,
      status_in_buffer := take (length (status_in_buffer d)) (received @ drop (length received) (status_in_buffer d)),
      urb_status_fail_count := RPUSBDISP_STATUS_QUERY_RETRY_COUNT\<rparr>) s"
  have "status_urb_returns received urb_st ep_found rc (s, t) = Inr (?s', t)"
    using assms by (simp add: status_urb_returns_def on_status_query_finished_def o_def)
  moreover have "status_urbs_return rs (?s', t) = Inr (?s', t)" for rs
    by (rule no_more_status) simp
  ultimately show ?thesis
    by (intro exI [of _ ?s']) simp
qed

theorem status_error_stops_polling_witness:
  "\<exists>s'. status_urb_returns [] (-71) True 0 (bound_state, sample_touch) = Inr (s', sample_touch)
    \<and> urb_status_fail_count (dv s') = RPUSBDISP_STATUS_QUERY_RETRY_COUNT
    \<and> urb_status_query (dv s') = Some False
    \<and> (\<forall>rs. status_urbs_return rs (s', sample_touch) = Inr (s', sample_touch))"
  by (rule status_error_stops_polling) (simp_all add: bound_state_def sample_state_def sample_dev_def)

text \<open>A packet shorter than the structure is completed with what the buffer held before.\<close>

lemma short_packet_reads_stale:
  assumes "packet_type p = RPUSBDISP_STATUS_TYPE_NORMAL" "length rest = 21"
    and "received = [RPUSBDISP_STATUS_TYPE_NORMAL]" "old = status_bytes p @ rest"
  shows "packet_in_buffer (take (length old) (received @ drop (length received) old)) = Inr p"
proof -
  have "received @ drop (length received) old = status_bytes p @ rest"
    using assms by (simp add: status_bytes_def)
  then show ?thesis
    using assms(4) by simp
qed

end
