(* ===== verification/Fb_Device_Properties.thy ===== *)
theory Fb_Device_Properties
  imports Fb_Device Display_Properties
begin

text \<open>
  What holds of the framebuffer device: the pages it reserves and gives back, mapping the screen
  memory, the rows the deferred io handler updates, and the colour registers.
\<close>

subsection \<open>Pages\<close>

definition pages :: "u64 \<Rightarrow> nat \<Rightarrow> u64 set" where
  "pages adr n = (\<lambda>i. adr + word_of_nat (4096 * i)) ` {..<n}"

lemma pages_0 [simp]: "pages adr 0 = {}"
  by (simp add: pages_def)

lemma pages_Suc: "pages adr (Suc n) = insert adr (pages (adr + 4096) n)"
  by (simp add: pages_def lessThan_Suc_eq_insert_0 image_image algebra_simps)

lemma word_of_nat_pos: "0 < k \<Longrightarrow> k < 18446744073709551616 \<Longrightarrow> (word_of_nat k :: u64) > 0"
  by (simp add: word_gt_0 word_of_nat_eq_0_iff nat_dvd_not_less)

lemma page_down: "4096 \<le> k \<Longrightarrow> (word_of_nat k :: u64) - 4096 = word_of_nat (k - 4096)"
  by (simp add: of_nat_diff)

lemma reserve_pages_result:
  "n * 4096 < 18446744073709551616 \<Longrightarrow>
   reserve_pages adr (word_of_nat (n * 4096)) R = Some (R \<union> pages adr n)"
proof (induction n arbitrary: adr R)
  case 0
  then show ?case
    by (simp add: reserve_pages.simps)
next
  case (Suc n)
  have "(word_of_nat (Suc n * 4096) :: u64) > 0"
    using Suc.prems by (intro word_of_nat_pos) simp_all
  moreover have "(word_of_nat (Suc n * 4096) :: u64) - 4096 = word_of_nat (n * 4096)"
    by (subst page_down) simp_all
  ultimately show ?case
    using Suc.IH [of "adr + 4096" "insert adr R"] Suc.prems
    by (subst reserve_pages.simps) (simp add: pages_Suc)
qed

lemma sint_word_of_nat: "k < 9223372036854775808 \<Longrightarrow> sint (word_of_nat k :: u64) = int k"
  by (simp add: signed_of_nat signed_take_bit_int_eq_self)

lemma release_pages_result:
  "k < 9223372036854775808 \<Longrightarrow>
   release_pages adr (word_of_nat k) R = R - pages adr ((k + 4095) div 4096)"
proof (induction k arbitrary: adr R rule: less_induct)
  case (less k)
  consider "k = 0" | "0 < k" "k \<le> 4096" | "4096 < k"
    by linarith
  then show ?case
  proof cases
    case 1
    then show ?thesis
      by (simp add: release_pages.simps [of adr 0])
  next
    case 2
    then have pos: "sint (word_of_nat k :: u64) > 0"
      by (simp add: sint_word_of_nat)
    then have "sint (word_of_nat k - 4096 :: u64) \<le> 0"
      using 2 by (simp add: sint_page_down sint_word_of_nat)
    then have "release_pages adr (word_of_nat k) R = R - {adr}"
      using pos by (simp add: release_pages.simps [of adr "word_of_nat k"]
          release_pages.simps [of "adr + 4096" "word_of_nat k - 4096"])
    moreover have "(k + 4095) div 4096 = Suc 0"
      using 2 by (simp add: div_nat_eqI)
    ultimately show ?thesis
      by (simp add: pages_Suc)
  next
    case 3
    then have pos: "sint (word_of_nat k :: u64) > 0"
      using less.prems by (simp add: sint_word_of_nat)
    have "(k + 4095) div 4096 = Suc ((k - 4096 + 4095) div 4096)"
      using 3 by (simp add: div_if)
    moreover have "release_pages adr (word_of_nat k) R = release_pages (adr + 4096) (word_of_nat (k - 4096)) (R - {adr})"
      using pos 3 by (simp only: release_pages.simps [of adr "word_of_nat k"] if_True page_down)
    moreover have "release_pages (adr + 4096) (word_of_nat (k - 4096)) (R - {adr})
        = R - {adr} - pages (adr + 4096) ((k - 4096 + 4095) div 4096)"
      using 3 less.prems by (intro less.IH) simp_all
    ultimately show ?thesis
      by (auto simp: pages_Suc)
  qed
qed

lemma rvmalloc_screen:
  "rvmalloc (Some mem) 153600 k =
     Some (Some mem, take_resource (ScreenMemory mem) (k\<lparr>reserved := reserved k \<union> pages mem 38\<rparr>))"
proof -
  have "page_align 153600 = word_of_nat (38 * 4096)"
    by (simp add: page_align_def)
  then show ?thesis
    using reserve_pages_result [of 38 mem "reserved k"] by (simp add: rvmalloc_def)
qed

lemma release_screen: "release_pages mem 153600 R = R - pages mem 38"
  using release_pages_result [of 153600 mem R] by simp

subsection \<open>Creation and release\<close>

lemma union_minus_disjoint: "R \<inter> P = {} \<Longrightarrow> (R \<union> P) - P = R"
  by blast

lemmas create_simps =
  take_resource_def drop_resource_def rvfree_def new_fb_fields release_screen rvmalloc_screen
  failed_nofb_def failed_nocmap_def failed_nodefio_def failed_on_reg_def

lemma create_fb_outcome:
  assumes "\<And>mem. ans_vmalloc a = Some mem \<Longrightarrow> reserved k \<inter> pages mem 38 = {}"
  shows "\<exists>r f k'. on_create_new_fb a k = Some (Inr (r, f, k')) \<and> (r < 0 \<longleftrightarrow> f = None) \<and>
    (f = None \<longrightarrow> reserved k' = reserved k \<and> held k' = held k +
       (if ans_framebuffer_alloc a \<and> ans_vmalloc a \<noteq> None \<and> ans_alloc_cmap a = 0 \<and> ans_kzalloc a
        then {#DefioInitialised#} else {#}))"
proof (cases "ans_vmalloc a")
  case None
  then show ?thesis
    by (simp add: on_create_new_fb_def rvmalloc_def Let_def create_simps ENOMEM_def)
next
  case (Some mem)
  then show ?thesis
    using union_minus_disjoint [OF assms [OF Some]]
    by (simp add: on_create_new_fb_def Let_def create_simps ENOMEM_def)
qed

text \<open>
  C20. Creating the framebuffer device always returns, and a creation that fails gives every
  resource it took back to the kernel, the reserved pages included, except that a failed
  registration leaves the deferred io of the released framebuffer initialised.
\<close>

theorem create_fb_failure:
  assumes "\<And>mem. ans_vmalloc a = Some mem \<Longrightarrow> reserved k \<inter> pages mem 38 = {}"
  shows "\<exists>r f k'. on_create_new_fb a k = Some (Inr (r, f, k')) \<and> (r < 0 \<longleftrightarrow> f = None) \<and>
    (f = None \<longrightarrow> reserved k' = reserved k \<and> held k' = held k +
       (if ans_framebuffer_alloc a \<and> ans_vmalloc a \<noteq> None \<and> ans_alloc_cmap a = 0 \<and> ans_kzalloc a
        then {#DefioInitialised#} else {#}))"
  using assms by (rule create_fb_outcome)

definition no_fb_kernel :: fb_kernel where
  "no_fb_kernel = \<lparr>reserved = {}, held = {#}\<rparr>"

definition failing_register :: fb_answers where
  "failing_register = \<lparr>ans_framebuffer_alloc = True, ans_vmalloc = Some 0xffff800000000000, ans_alloc_cmap = 0,
     ans_kzalloc = True, ans_register = -22\<rparr>"

theorem create_fb_failure_witness:
  "\<exists>r f k'. on_create_new_fb failing_register no_fb_kernel = Some (Inr (r, f, k')) \<and> (r < 0 \<longleftrightarrow> f = None) \<and>
    (f = None \<longrightarrow> reserved k' = {} \<and> held k' = {#DefioInitialised#})"
  using create_fb_failure [of failing_register no_fb_kernel] by (simp add: no_fb_kernel_def failing_register_def)

lemma release_after_create:
  assumes "on_create_new_fb a k = Some (Inr (r, Some f, k'))"
    and "\<And>mem. ans_vmalloc a = Some mem \<Longrightarrow> reserved k \<inter> pages mem 38 = {}"
  shows "on_release_fb (Some f) k' = Inr k"
proof (cases "ans_vmalloc a")
  case None
  then show ?thesis
    using assms(1) by (auto simp: on_create_new_fb_def rvmalloc_def Let_def create_simps split: if_splits)
next
  case (Some mem)
  then have "f = (new_fb, mem)"
    and "k' = \<lparr>reserved = reserved k \<union> pages mem 38, held = held k + {#Registered, DefioInitialised,
       DefioMemory, ColourMap, ScreenMemory mem, Framebuffer#}\<rparr>"
    using assms(1) by (auto simp: on_create_new_fb_def Let_def create_simps split: if_splits intro!: fb_kernel.equality)
  then show ?thesis
    using union_minus_disjoint [OF assms(2) [OF Some]]
    by (simp add: on_release_fb_def create_simps add_mset_commute)
qed

text \<open>
  C21. Releasing a framebuffer device that was created gives the kernel back exactly what the
  creation took: the pages reserved for the screen memory and every other resource.
\<close>

theorem create_release_fb_round_trip:
  assumes "on_create_new_fb a k = Some (Inr (r, Some f, k'))"
    and "\<And>mem. ans_vmalloc a = Some mem \<Longrightarrow> reserved k \<inter> pages mem 38 = {}"
  shows "on_release_fb (Some f) k' = Inr k"
  using assms by (rule release_after_create)

theorem create_release_fb_round_trip_witness:
  "\<exists>k'. on_create_new_fb (failing_register\<lparr>ans_register := 0\<rparr>) no_fb_kernel = Some (Inr (0, Some (new_fb, 0xffff800000000000), k'))
    \<and> on_release_fb (Some (new_fb, 0xffff800000000000)) k' = Inr no_fb_kernel"
proof -
  obtain k' where k': "on_create_new_fb (failing_register\<lparr>ans_register := 0\<rparr>) no_fb_kernel
      = Some (Inr (0, Some (new_fb, 0xffff800000000000), k'))"
    by (simp add: on_create_new_fb_def failing_register_def Let_def create_simps)
  then show ?thesis
    using create_release_fb_round_trip [OF k'] by (simp add: no_fb_kernel_def)
qed

subsection \<open>Mapping the screen memory\<close>

text \<open>The \<open>i\<close>-th page: where it is mapped to, and its frame.\<close>

definition mmap_page :: "(u64 \<Rightarrow> u64) \<Rightarrow> u64 \<Rightarrow> u64 \<Rightarrow> nat \<Rightarrow> u64 \<times> u64" where
  "mmap_page pfn virt vm i = (vm + word_of_nat (4096 * i), pfn (virt + word_of_nat (4096 * i)))"

lemma mmap_page_0 [simp]: "mmap_page pfn virt vm 0 = (vm, pfn virt)"
  by (simp add: mmap_page_def)

lemma mmap_page_Suc: "mmap_page pfn virt vm (Suc i) = mmap_page pfn (virt + 4096) (vm + 4096) i"
  by (simp add: mmap_page_def ac_simps)

text \<open>Rounds of the loop in which there is something left and the kernel maps the page.\<close>

lemma mmap_loop_rounds:
  assumes "\<forall>i < n. case_prod remap (mmap_page pfn virt vm i) = 0" "\<forall>i < n. size' \<noteq> word_of_nat (4096 * i)"
  shows "mmap_loop pfn remap virt size' vm maps =
    mmap_loop pfn remap (virt + word_of_nat (4096 * n)) (size' - word_of_nat (4096 * n)) (vm + word_of_nat (4096 * n))
      (maps @ map (mmap_page pfn virt vm) [0..<n])"
  using assms
proof (induction n)
  case (Suc n)
  let ?d = "word_of_nat (4096 * n) :: u64"
  have mapped: "remap (vm + ?d) (pfn (virt + ?d)) = 0" and left: "size' - ?d > 0"
    using Suc.prems by (auto simp: mmap_page_def word_gt_0)
  have "mmap_loop pfn remap virt size' vm maps = mmap_loop pfn remap (virt + ?d) (size' - ?d) (vm + ?d)
      (maps @ map (mmap_page pfn virt vm) [0..<n])"
    using Suc by simp
  also have "\<dots> = mmap_loop pfn remap (virt + ?d + 4096) (size' - ?d - 4096) (vm + ?d + 4096)
      ((maps @ map (mmap_page pfn virt vm) [0..<n]) @ [(vm + ?d, pfn (virt + ?d))])"
    by (subst mmap_loop.simps) (use mapped left in \<open>simp add: Let_def\<close>)
  finally have run: "mmap_loop pfn remap virt size' vm maps = mmap_loop pfn remap (virt + ?d + 4096) (size' - ?d - 4096)
      (vm + ?d + 4096) ((maps @ map (mmap_page pfn virt vm) [0..<n]) @ [(vm + ?d, pfn (virt + ?d))])" .
  have "mmap_page pfn virt vm n = (vm + ?d, pfn (virt + ?d))" "word_of_nat (4096 * Suc n) = ?d + 4096"
    by (simp_all add: mmap_page_def)
  then show ?case
    unfolding run by (simp only: upt_Suc_append map_append list.map append_assoc le0 add.assoc diff_diff_eq)
qed simp

lemma uint_page_mod: "uint (n - 4096 :: u64) mod 4096 = uint n mod 4096"
proof -
  have "uint (n - 4096) mod 4096 = (uint n - 4096) mod 18446744073709551616 mod 4096"
    by (simp add: uint_word_ariths)
  also have "\<dots> = (uint n - 4096) mod 4096"
    by (rule mod_mod_cancel) simp
  finally show ?thesis
    by simp
qed

lemma mmap_loop_stuck:
  assumes "\<forall>i. case_prod remap (mmap_page pfn virt vm i) = 0" "uint size' mod 4096 \<noteq> 0"
  shows "mmap_loop pfn remap virt size' vm maps = None"
proof (rule ccontr)
  assume "mmap_loop pfn remap virt size' vm maps \<noteq> None"
  then obtain r where ret: "mmap_loop pfn remap virt size' vm maps = Some r"
    by blast
  have "(\<forall>i. case_prod remap (mmap_page pfn virt vm i) = 0) \<longrightarrow> uint size' mod 4096 = 0"
  proof (rule mmap_loop.raw_induct [where P = "\<lambda>pfn remap virt size' vm maps r.
      (\<forall>i. case_prod remap (mmap_page pfn virt vm i) = 0) \<longrightarrow> uint size' mod 4096 = 0", OF _ ret], intro impI)
    fix f pfn remap and virt size' vm :: u64 and maps and r :: "int \<times> u64 \<times> (u64 \<times> u64) list"
    assume IH: "\<And>pfn remap virt size' vm maps r. f pfn remap virt size' vm maps = Some r \<Longrightarrow>
        (\<forall>i. case_prod remap (mmap_page pfn virt vm i) = 0) \<longrightarrow> uint size' mod 4096 = 0"
      and eq: "(if 0 < size' then let phys = pfn virt; ret = remap vm phys
          in if ret \<noteq> 0 then Some (ret, vm, maps)
             else f pfn remap (virt + 4096) (size' - 4096) (vm + 4096) (maps @ [(vm, phys)])
        else Some (0, vm, maps)) = Some r"
      and ok: "\<forall>i. case_prod remap (mmap_page pfn virt vm i) = 0"
    have first: "remap vm (pfn virt) = 0"
      using spec [OF ok, of 0] by simp
    have rest: "\<forall>i. case_prod remap (mmap_page pfn (virt + 4096) (vm + 4096) i) = 0"
      using ok by (simp only: mmap_page_Suc [symmetric]) blast
    show "uint size' mod 4096 = 0"
    proof (cases "0 < size'")
      case True
      then have "f pfn remap (virt + 4096) (size' - 4096) (vm + 4096) (maps @ [(vm, pfn virt)]) = Some r"
        using eq first by (simp add: Let_def)
      then have "uint (size' - 4096) mod 4096 = 0"
        using IH rest by blast
      then show ?thesis
        by (simp only: uint_page_mod)
    qed (simp add: word_gt_0)
  qed
  then show False
    using assms by simp
qed

lemma uint_word_of_nat: "k < 18446744073709551616 \<Longrightarrow> uint (word_of_nat k :: u64) = int k"
  by (simp add: unsigned_of_nat take_bit_nat_eq_self)

lemma uint_page: "uint (word_of_nat (4096 * i) :: u64) mod 4096 = 0"
proof -
  have "uint (word_of_nat (4096 * i) :: u64) mod 4096 = int (4096 * i) mod 18446744073709551616 mod 4096"
    by (simp only: unsigned_of_nat take_bit_eq_mod zmod_int) simp
  also have "\<dots> = int (4096 * i) mod 4096"
    by (rule mod_mod_cancel) simp
  finally show ?thesis
    by simp
qed

text \<open>The length that is left from a page offset on: it is a multiple of a page if the whole length is.\<close>

lemma mmap_left:
  fixes off :: u64
  assumes "len < 18446744073709551616" "push_bit 12 off < (word_of_nat len :: u64)"
  defines "rest \<equiv> len - unat (push_bit 12 off)"
  shows "word_of_nat len - push_bit 12 off = (word_of_nat rest :: u64)" "rest < 18446744073709551616"
    "4096 dvd rest \<longleftrightarrow> 4096 dvd len"
proof -
  let ?off = "push_bit 12 off"
  have off: "unat ?off < len"
    using assms(1,2) by (simp add: word_less_nat_alt unat_of_nat)
  then show "word_of_nat len - push_bit 12 off = (word_of_nat rest :: u64)" "rest < 18446744073709551616"
    using assms(1) by (simp_all add: rest_def of_nat_diff)
  have "unat ?off mod 4096 = take_bit 12 (unat ?off)"
    by (simp add: take_bit_eq_mod)
  also have "\<dots> = unat (take_bit 12 ?off)"
    by (simp only: unsigned_take_bit_eq)
  also have "\<dots> = 0"
    by (simp add: take_bit_push_bit)
  finally have page: "4096 dvd unat ?off"
    by (simp add: dvd_eq_mod_eq_0)
  then show "4096 dvd rest \<longleftrightarrow> 4096 dvd len"
    using off dvd_diffD [of 4096 len "unat ?off"] unfolding rest_def by auto
qed

lemma uint_length: "rest < 18446744073709551616 \<Longrightarrow> uint (word_of_nat rest :: u64) mod 4096 = int (rest mod 4096)"
  by (simp only: uint_word_of_nat zmod_int) simp

text \<open>As long as a whole page is left, or the length is not a multiple of a page, the loop goes on.\<close>

lemma mmap_not_done:
  assumes "rest < 18446744073709551616" "4096 dvd rest \<longrightarrow> i < rest div 4096"
  shows "(word_of_nat rest :: u64) \<noteq> word_of_nat (4096 * i)"
proof (cases "4096 dvd rest")
  case True
  then have "4096 * i < rest"
    using assms(2) by (simp add: less_mult_imp_div_less div_less_iff_less_mult)
  then have "uint (word_of_nat (4096 * i) :: u64) \<noteq> uint (word_of_nat rest :: u64)"
    using assms(1) by (simp only: uint_word_of_nat)
  then show ?thesis by metis
next
  case False
  then show ?thesis
    using uint_page [of i] uint_length [OF assms(1)] by (auto simp: dvd_eq_mod_eq_0)
qed

lemma mmap_rounds:
  assumes "rest < 18446744073709551616" "\<forall>i < k. case_prod remap (mmap_page pfn virt vm i) = 0"
    and "4096 dvd rest \<longrightarrow> k \<le> rest div 4096"
  shows "mmap_loop pfn remap virt (word_of_nat rest) vm [] =
    mmap_loop pfn remap (virt + word_of_nat (4096 * k)) (word_of_nat rest - word_of_nat (4096 * k))
      (vm + word_of_nat (4096 * k)) (map (mmap_page pfn virt vm) [0..<k])"
proof -
  have "\<forall>i < k. (word_of_nat rest :: u64) \<noteq> word_of_nat (4096 * i)"
    using assms(3) by (intro allI impI mmap_not_done [OF assms(1)]) (meson less_le_trans)
  then show ?thesis
    using mmap_loop_rounds [of k remap pfn virt vm "word_of_nat rest" "[]"] assms(2) by (simp only: append_Nil)
qed

lemma mmap_loop_refused:
  assumes "rest < 18446744073709551616" "\<forall>i < k. case_prod remap (mmap_page pfn virt vm i) = 0"
    and "case_prod remap (mmap_page pfn virt vm k) \<noteq> 0" "4096 dvd rest \<longrightarrow> k < rest div 4096"
  shows "mmap_loop pfn remap virt (word_of_nat rest) vm [] =
    Some (case_prod remap (mmap_page pfn virt vm k), fst (mmap_page pfn virt vm k), map (mmap_page pfn virt vm) [0..<k])"
proof -
  have "4096 dvd rest \<longrightarrow> k \<le> rest div 4096"
    using assms(4) by (meson less_imp_le_nat)
  note round = mmap_rounds [OF assms(1,2) this]
  have "(word_of_nat rest :: u64) - word_of_nat (4096 * k) > 0"
    using mmap_not_done [OF assms(1,4)] by (simp add: word_gt_0)
  then show ?thesis
    using assms(3) unfolding round
    by (subst mmap_loop.simps) (simp add: mmap_page_def [of _ _ _ k] Let_def)
qed

lemma mmap_loop_whole:
  assumes "rest < 18446744073709551616" "4096 dvd rest"
    and "\<forall>i < rest div 4096. case_prod remap (mmap_page pfn virt vm i) = 0"
  shows "mmap_loop pfn remap virt (word_of_nat rest) vm [] =
    Some (0, fst (mmap_page pfn virt vm (rest div 4096)), map (mmap_page pfn virt vm) [0..<rest div 4096])"
  using mmap_rounds [OF assms(1,3)] assms(2) by (simp add: mmap_loop.simps [of _ _ _ 0] mmap_page_def)

text \<open>
  C19. When mapping the screen memory into a process returns, for any answers of the kernel. An offset
  past the end is refused. Otherwise the pages from the offset on are mapped in order, at consecutive
  addresses, up to the first one that the kernel refuses, whose error is returned. If none is refused,
  the mapping returns success after the last page provided that the length of the screen memory is a
  multiple of the page size; for any other length, and the 153600 bytes of the screen are one, the
  loop subtracts pages past zero and does not return.
\<close>

theorem mmap_returns_iff_pages:
  fixes screen_base vm_pgoff vm_start :: u64
  assumes "smem_len info < 18446744073709551616"
  shows "let offset = push_bit 12 vm_pgoff; page = mmap_page pfn (screen_base + offset) vm_start;
      answer = (\<lambda>i. case_prod remap (page i)); pages = (smem_len info - unat offset) div 4096;
      whole = 4096 dvd smem_len info;
      run = rpusbdisp_fb_mmap pfn remap screen_base vm_pgoff vm_start info
    in if word_of_nat (smem_len info) \<le> offset then run = Some (- EINVAL, vm_start, [])
       else (\<forall>k. answer k \<noteq> 0 \<and> (\<forall>i < k. answer i = 0) \<and> (whole \<longrightarrow> k < pages) \<longrightarrow>
               run = Some (answer k, fst (page k), map page [0..<k]))
         \<and> (whole \<and> (\<forall>i < pages. answer i = 0) \<longrightarrow> run = Some (0, fst (page pages), map page [0..<pages]))
         \<and> (\<not> whole \<and> (\<forall>i. answer i = 0) \<longrightarrow> run = None)"
proof (cases "(word_of_nat (smem_len info) :: u64) \<le> push_bit 12 vm_pgoff")
  case True
  then show ?thesis
    by (simp add: rpusbdisp_fb_mmap_def)
next
  case False
  define rest where "rest = smem_len info - unat (push_bit 12 vm_pgoff)"
  have "push_bit 12 vm_pgoff < (word_of_nat (smem_len info) :: u64)"
    using False by simp
  note rest = mmap_left [OF assms this, folded rest_def]
  have run: "rpusbdisp_fb_mmap pfn remap screen_base vm_pgoff vm_start info =
      mmap_loop pfn remap (screen_base + push_bit 12 vm_pgoff) (word_of_nat rest) vm_start []"
    using False rest(1) by (simp add: rpusbdisp_fb_mmap_def)
  have "uint (word_of_nat rest :: u64) mod 4096 \<noteq> 0" if "\<not> 4096 dvd rest"
    using uint_length [OF rest(2)] that by (simp add: dvd_eq_mod_eq_0)
  note stuck = mmap_loop_stuck [OF _ this]
  show ?thesis
    unfolding Let_def run rest_def [symmetric] rest(3) [symmetric]
    using False mmap_loop_refused [OF rest(2)] mmap_loop_whole [OF rest(2)] stuck by simp
qed

text \<open>
  The screen of the driver, whose length is 37 and a half pages: the mapping never returns if the
  kernel maps every page, and returns the error with 38 pages mapped if it refuses the next one.
\<close>

theorem mmap_returns_iff_pages_witness:
  "rpusbdisp_fb_mmap (drop_bit 12) (\<lambda>v p. 0) 0xffff800000000000 0 0x7f0000000000 new_fb = None
    \<and> rpusbdisp_fb_mmap (drop_bit 12) (\<lambda>v p. if v < 0x7f0000026000 then 0 else -22) 0xffff800000000000 0 0x7f0000000000 new_fb
      = Some (-22, 0x7f0000026000, map (mmap_page (drop_bit 12) 0xffff800000000000 0x7f0000000000) [0..<38])"
proof
  show "rpusbdisp_fb_mmap (drop_bit 12) (\<lambda>v p. 0) 0xffff800000000000 0 0x7f0000000000 new_fb = None"
    using mmap_returns_iff_pages [where remap = "\<lambda>v p. 0" and info = new_fb and vm_pgoff = 0 and pfn = "drop_bit 12"
        and screen_base = "0xffff800000000000" and vm_start = "0x7f0000000000"]
    by (simp add: new_fb_fields Let_def split_beta)
  define page where "page = mmap_page (drop_bit 12) 0xffff800000000000 0x7f0000000000"
  define remap where "remap = (\<lambda>v (p :: u64). if v < (0x7f0000026000 :: u64) then 0 else -22 :: int)"
  have unat_page: "unat (fst (page i)) = 0x7f0000000000 + 4096 * i" if "i \<le> 38" for i
    using that by (simp add: page_def mmap_page_def unat_word_ariths unat_of_nat)
  then have "fst (page i) < 0x7f0000026000 \<longleftrightarrow> i < 38" if "i \<le> 38" for i
    using that by (simp add: word_less_nat_alt)
  then have answers: "case_prod remap (page 38) = -22" "\<forall>i < 38. case_prod remap (page i) = 0"
    by (simp_all add: remap_def split_beta)
  have last: "fst (page 38) = 0x7f0000026000"
    by (simp add: page_def mmap_page_def)
  have all: "\<forall>k. case_prod remap (page k) \<noteq> 0 \<and> (\<forall>i < k. case_prod remap (page i) = 0) \<longrightarrow>
      rpusbdisp_fb_mmap (drop_bit 12) remap 0xffff800000000000 0 0x7f0000000000 new_fb
        = Some (case_prod remap (page k), fst (page k), map page [0..<k])"
    using mmap_returns_iff_pages [where remap = remap and info = new_fb
        and vm_pgoff = 0 and pfn = "drop_bit 12" and screen_base = "0xffff800000000000" and vm_start = "0x7f0000000000"]
    unfolding Let_def push_bit_of_0 add_0_right page_def [symmetric] by (simp add: new_fb_fields)
  show "rpusbdisp_fb_mmap (drop_bit 12) (\<lambda>v p. if v < 0x7f0000026000 then 0 else -22) 0xffff800000000000 0 0x7f0000000000 new_fb
      = Some (-22, 0x7f0000026000, map (mmap_page (drop_bit 12) 0xffff800000000000 0x7f0000000000) [0..<38])"
    using spec [OF all, of 38] answers last unfolding remap_def [symmetric] page_def [symmetric] by simp
qed

subsection \<open>Colour registers\<close>

text \<open>The reference: a 16-bit component rounded to \<open>w\<close> bits.\<close>

definition scale_component :: "u32 \<Rightarrow> nat \<Rightarrow> nat" where
  "scale_component v w = (unat v * (2 ^ w - 1) + 0x7FFF) div 65536"

lemma CNVT_TOHW_scale:
  assumes "v \<le> 0xFFFF" "w \<le> 15"
  shows "unat (CNVT_TOHW v w) = scale_component v w"
proof -
  have v: "unat v \<le> 65535"
    using assms(1) by (simp add: word_le_nat_alt)
  have w: "(2::nat) ^ w \<le> 32768"
    using power_increasing [OF assms(2), of "2::nat"] by simp
  have le: "unat v * 2 ^ w \<le> 65535 * 32768"
    using v w by (rule mult_le_mono)
  have "push_bit w v + 0x7FFF - v = word_of_nat (unat v * 2 ^ w + 0x7FFF - unat v)"
  proof -
    have "unat v \<le> unat v * 2 ^ w"
      by simp
    then have "unat v \<le> unat v * 2 ^ w + 0x7FFF"
      by (rule trans_le_add1)
    then show ?thesis
      by (simp add: push_bit_eq_mult of_nat_diff)
  qed
  then have cnvt: "CNVT_TOHW v w = drop_bit 16 (word_of_nat (unat v * 2 ^ w + 0x7FFF - unat v))"
    by (simp only: CNVT_TOHW_def)
  have "unat (CNVT_TOHW v w) = (unat v * 2 ^ w + 0x7FFF - unat v) div 65536"
  proof -
    have "unat (word_of_nat (unat v * 2 ^ w + 0x7FFF - unat v) :: u32) = unat v * 2 ^ w + 0x7FFF - unat v"
      using le by (simp add: unat_of_nat)
    then show ?thesis
      by (simp only: cnvt unat_drop_bit_eq) (simp add: drop_bit_eq_div)
  qed
  also have "unat v * 2 ^ w + 0x7FFF - unat v = unat v * (2 ^ w - 1) + 0x7FFF"
    by (simp add: diff_mult_distrib2)
  finally show ?thesis
    by (simp add: scale_component_def)
qed

lemma scale_component_less: "unat v \<le> 65535 \<Longrightarrow> scale_component v w < 2 ^ w"
proof -
  assume "unat v \<le> 65535"
  then have "unat v * (2 ^ w - 1) \<le> 65535 * (2 ^ w - 1)"
    by (rule mult_le_mono1)
  moreover have "(2::nat) ^ w = Suc (2 ^ w - 1)"
    by simp
  ultimately have "unat v * (2 ^ w - 1) + 0x7FFF < 65536 * 2 ^ w"
    by linarith
  then show ?thesis
    by (simp add: scale_component_def less_mult_imp_div_less mult.commute)
qed

lemma unat_to_word: "unat w = n \<Longrightarrow> w = word_of_nat n"
  by auto

lemma or_push_bit_add:
  fixes a b :: u32
  assumes "unat a < 2 ^ k"
  shows "a OR push_bit k b = a + push_bit k b"
proof -
  have a: "a = take_bit k a"
  proof (rule word_unat_eq_iff [THEN iffD2])
    show "unat a = unat (take_bit k a)"
      using assms by (simp only: unsigned_take_bit_eq take_bit_nat_eq_self)
  qed
  have "a AND push_bit k b = 0"
    by (subst a, rule bit_word_eqI) (auto simp: bit_simps)
  then show ?thesis
    by (simp add: disjunctive_add_eq_or)
qed

text \<open>
  Setting a colour register stores in the register's entry of the palette the RGB565 pixel with
  each component rounded to its width, as the arithmetic reference computes it, and touches no
  other entry; a register past the sixteenth is refused.
\<close>

theorem setcolreg_rgb565:
  assumes "visual info = FB_VISUAL_TRUECOLOR" "\<not> grayscale info" "length (pseudo_palette (par info)) = 16"
    and "red info = \<lparr>offset = 0, flength = 5\<rparr>" "green info = \<lparr>offset = 5, flength = 6\<rparr>"
    and "blue info = \<lparr>offset = 11, flength = 5\<rparr>" "transp info = \<lparr>offset = 0, flength = 0\<rparr>"
    and "r \<le> 0xFFFF" "g \<le> 0xFFFF" "b \<le> 0xFFFF" "t \<le> 0xFFFF"
  shows "display_setcolreg regno r g b t info =
    Inr (if regno < 16
         then (0, info\<lparr>par := (par info)\<lparr>pseudo_palette := (pseudo_palette (par info))
           [unat regno := word_of_nat (scale_component r 5 + 32 * scale_component g 6 + 2048 * scale_component b 5)]\<rparr>\<rparr>)
         else (1, info))"
proof -
  have le: "unat r \<le> 65535" "unat g \<le> 65535" "unat b \<le> 65535" "unat t \<le> 65535"
    using assms(8-11) by (simp_all add: word_le_nat_alt)
  have conv: "CNVT_TOHW r 5 = word_of_nat (scale_component r 5)" "CNVT_TOHW g 6 = word_of_nat (scale_component g 6)"
    "CNVT_TOHW b 5 = word_of_nat (scale_component b 5)" "CNVT_TOHW t 0 = 0"
    using assms(8-11) CNVT_TOHW_scale [of r 5] CNVT_TOHW_scale [of g 6] CNVT_TOHW_scale [of b 5]
    by (simp add: unat_to_word, simp add: unat_to_word, simp add: unat_to_word, simp add: CNVT_TOHW_def)
  note bounds = scale_component_less [OF le(1), of 5] scale_component_less [OF le(2), of 6] scale_component_less [OF le(3), of 5]
  have "word_of_nat (scale_component r 5) OR push_bit 5 (word_of_nat (scale_component g 6) :: u32)
      = word_of_nat (scale_component r 5 + 32 * scale_component g 6)"
    using bounds by (subst or_push_bit_add) (simp_all add: unat_of_nat push_bit_eq_mult mult.commute)
  moreover have "word_of_nat (scale_component r 5 + 32 * scale_component g 6) OR push_bit 11 (word_of_nat (scale_component b 5) :: u32)
      = word_of_nat (scale_component r 5 + 32 * scale_component g 6 + 2048 * scale_component b 5)"
  proof (subst or_push_bit_add)
    have "unat (word_of_nat (scale_component r 5 + 32 * scale_component g 6) :: u32)
        = scale_component r 5 + 32 * scale_component g 6"
      using bounds by (simp add: unat_of_nat del: of_nat_add of_nat_mult)
    then show "unat (word_of_nat (scale_component r 5 + 32 * scale_component g 6) :: u32) < 2 ^ 11"
      using bounds by (simp only:) simp
  qed (simp add: push_bit_eq_mult mult.commute)
  ultimately have "word_of_nat (scale_component r 5) OR (push_bit 5 (word_of_nat (scale_component g 6) :: u32)
      OR push_bit 11 (word_of_nat (scale_component b 5)))
      = word_of_nat (scale_component r 5 + 32 * scale_component g 6 + 2048 * scale_component b 5)"
    by (simp only: or.assoc [symmetric])
  moreover have "regno < 16 \<Longrightarrow> unat regno < 16"
    by (simp add: word_less_nat_alt)
  ultimately show ?thesis
    using assms(1-7) by (simp add: display_setcolreg_def Let_def conv or.assoc del: of_nat_add of_nat_mult)
qed

theorem setcolreg_rgb565_witness:
  "display_setcolreg 3 0xFFFF 0x8000 0 0 new_fb =
     Inr (0, new_fb\<lparr>par := (par new_fb)\<lparr>pseudo_palette := (pseudo_palette (par new_fb))[3 := 0x03FF]\<rparr>\<rparr>)"
  using setcolreg_rgb565 [where info = new_fb and r = "0xFFFF" and g = "0x8000" and b = 0 and t = 0 and regno = 3]
  by (simp add: scale_component_def) (simp add: new_fb_def reset_fb_private_def)

end
