(* ===== verification/Module_Init.thy ===== *)
theory Module_Init
  imports Status_Touch Fb_Device_Properties
begin

text \<open>
  Loading and unloading the module, \<^verbatim>\<open>main.c\<close>: the touch, framebuffer and USB handlers
  are registered in this order and unregistered in the opposite one.
\<close>

subsection \<open>The operations\<close>

record module_st =
  fps :: int
  working_flag :: bool
  usb_registered :: bool
  module_touch :: touch_st
  module_kernel :: fb_kernel
  module_fb :: "(fb_info \<times> u64) option"

record init_answers =
  config_fps :: "int option"
  input_allocated :: "input_dev option"
  input_register_rc :: int
  fb_creation :: fb_answers
  usb_register_rc :: int

definition register_usb_handlers :: "init_answers \<Rightarrow> module_st \<Rightarrow> int \<times> module_st" where
  "register_usb_handlers a m =
     (usb_register_rc a, m\<lparr>working_flag := True, usb_registered := (usb_register_rc a = 0)\<rparr>)"

definition unregister_usb_handlers :: "module_st \<Rightarrow> module_st" where
  "unregister_usb_handlers m = m\<lparr>working_flag := False, usb_registered := False\<rparr>"

definition default_fps :: "init_answers \<Rightarrow> module_st \<Rightarrow> module_st" where
  "default_fps a m =
     (if fps m = 0 then m\<lparr>fps := (case config_fps a of Some f \<Rightarrow> f | None \<Rightarrow> 16)\<rparr> else m)"

definition usb_disp_init :: "init_answers \<Rightarrow> module_st \<Rightarrow> (fault + (int \<times> module_st)) option" where
  "usb_disp_init a m0 =
     (let m = default_fps a m0
      in case register_touch_handler (input_allocated a) (input_register_rc a) (module_touch m) of
           Inl f \<Rightarrow> Some (Inl f)
         | Inr (result, t) \<Rightarrow>
             (let m1 = m\<lparr>module_touch := t\<rparr>
              in if result \<noteq> 0 then Some (Inr (result, m1))
                 else
                   (case register_fb_handlers (fb_creation a) (module_kernel m1) of
                      None \<Rightarrow> None
                    | Some (Inl f) \<Rightarrow> Some (Inl f)
                    | Some (Inr (result, f, k)) \<Rightarrow>
                        (let m2 = m1\<lparr>module_fb := f, module_kernel := k\<rparr>
                         in if result \<noteq> 0 then Some (Inr (result, m2))
                            else Some (Inr (register_usb_handlers a m2))))))"

definition usb_disp_exit :: "module_st \<Rightarrow> fault + module_st" where
  "usb_disp_exit m =
     (let m1 = unregister_usb_handlers m
      in kbind (unregister_fb_handlers (module_fb m1) (module_kernel m1)) (\<lambda>k.
         kbind (unregister_touch_handler (module_touch m1)) (\<lambda>t.
           Inr (m1\<lparr>module_kernel := k, module_touch := t\<rparr>))))"

subsection \<open>Properties\<close>

lemma init_success:
  assumes "usb_disp_init a m = Some (Inr (0, m'))"
  obtains t f k where "register_touch_handler (input_allocated a) (input_register_rc a) (module_touch m) = Inr (0, t)"
    "on_create_new_fb (fb_creation a) (module_kernel m) = Some (Inr (0, f, k))" "usb_register_rc a = 0"
    "m' = (default_fps a m)\<lparr>module_touch := t, module_fb := f, module_kernel := k, working_flag := True, usb_registered := True\<rparr>"
proof -
  have [simp]: "module_touch (default_fps a m) = module_touch m" "module_kernel (default_fps a m) = module_kernel m"
    by (simp_all add: default_fps_def)
  show thesis
    using assms
    by (auto simp: usb_disp_init_def Let_def register_fb_handlers_def register_usb_handlers_def intro!: that
        split: sum.splits option.splits if_splits prod.splits)
qed

lemma register_touch_success:
  assumes "register_touch_handler allocated rc t = Inr (0, t')"
  shows "default_input_dev t' \<noteq> None" "live_flag t'" "input_registered t'"
  using assms by (auto simp: register_touch_handler_def on_create_input_dev_def Let_def split: option.splits if_splits)

text \<open>
  C22. Unloading undoes loading: after a successful initialisation the exit function never faults and
  leaves the kernel with exactly the framebuffer resources it had before, no input device and no
  USB driver registered.
\<close>

theorem init_exit_round_trip:
  assumes "usb_disp_init a m = Some (Inr (0, m'))"
    and "\<And>mem. ans_vmalloc (fb_creation a) = Some mem \<Longrightarrow> reserved (module_kernel m) \<inter> pages mem 38 = {}"
  shows "usb_registered m' \<and> live_flag (module_touch m') \<and>
    (\<exists>m''. usb_disp_exit m' = Inr m'' \<and> module_kernel m'' = module_kernel m
      \<and> default_input_dev (module_touch m'') = None \<and> \<not> input_registered (module_touch m'')
      \<and> \<not> live_flag (module_touch m'') \<and> \<not> usb_registered m'')"
proof (rule init_success [OF assms(1)])
  fix t f k
  assume touch: "register_touch_handler (input_allocated a) (input_register_rc a) (module_touch m) = Inr (0, t)"
    and create: "on_create_new_fb (fb_creation a) (module_kernel m) = Some (Inr (0, f, k))"
    and m': "m' = (default_fps a m)\<lparr>module_touch := t, module_fb := f, module_kernel := k, working_flag := True,
      usb_registered := True\<rparr>"
  have "f \<noteq> None"
    using create_fb_outcome [of "fb_creation a" "module_kernel m"] assms(2) create by auto
  then obtain g where g: "f = Some g"
    by blast
  have "on_release_fb f k = Inr (module_kernel m)"
    using release_after_create [OF create [unfolded g] assms(2)] by (simp add: g)
  then show ?thesis
    using register_touch_success [OF touch]
    by (auto simp: m' usb_disp_exit_def unregister_usb_handlers_def unregister_fb_handlers_def
        unregister_touch_handler_def on_release_input_dev_def Let_def)
qed

definition sample_init :: init_answers where
  "sample_init = \<lparr>config_fps = None, input_allocated = Some \<lparr>evbit = {}, keybit_touch = False, absinfo = Map.empty\<rparr>,
     input_register_rc = 0, fb_creation = failing_register\<lparr>ans_register := 0\<rparr>, usb_register_rc = 0\<rparr>"

definition unloaded :: module_st where
  "unloaded = \<lparr>fps = 0, working_flag = False, usb_registered = False,
     module_touch = \<lparr>default_input_dev = None, live_flag = False, input_registered = False, input_log = []\<rparr>,
     module_kernel = no_fb_kernel, module_fb = None\<rparr>"

lemma sample_init_runs: "\<exists>m'. usb_disp_init sample_init unloaded = Some (Inr (0, m'))"
  by (simp add: usb_disp_init_def sample_init_def unloaded_def register_touch_handler_def on_create_input_dev_def
      register_fb_handlers_def on_create_new_fb_def register_usb_handlers_def default_fps_def failing_register_def
      Let_def create_simps)

theorem init_exit_round_trip_witness:
  "\<exists>m' m''. usb_disp_init sample_init unloaded = Some (Inr (0, m')) \<and> usb_registered m'
    \<and> usb_disp_exit m' = Inr m'' \<and> module_kernel m'' = no_fb_kernel"
proof -
  obtain m' where "usb_disp_init sample_init unloaded = Some (Inr (0, m'))"
    using sample_init_runs by blast
  from init_exit_round_trip [OF this] this show ?thesis
    by (auto simp: unloaded_def no_fb_kernel_def)
qed

text \<open>
  A failed initialisation keeps what it registered: when registering the USB driver fails after
  the touch device and the framebuffer came up, the input device stays live and registered and the
  framebuffer registered, although the module does not load.
\<close>

theorem failed_init_keeps_handlers:
  assumes "usb_disp_init a m = Some (Inr (0, m0))" "rc \<noteq> 0"
  shows "\<exists>m'. usb_disp_init (a\<lparr>usb_register_rc := rc\<rparr>) m = Some (Inr (rc, m')) \<and> \<not> usb_registered m'
    \<and> live_flag (module_touch m') \<and> input_registered (module_touch m')
    \<and> module_fb m' = module_fb m0 \<and> module_kernel m' = module_kernel m0"
proof (rule init_success [OF assms(1)])
  fix t f k
  assume touch: "register_touch_handler (input_allocated a) (input_register_rc a) (module_touch m) = Inr (0, t)"
    and create: "on_create_new_fb (fb_creation a) (module_kernel m) = Some (Inr (0, f, k))"
    and m0: "m0 = (default_fps a m)\<lparr>module_touch := t, module_fb := f, module_kernel := k, working_flag := True,
      usb_registered := True\<rparr>"
  have "module_touch (default_fps (a\<lparr>usb_register_rc := rc\<rparr>) m) = module_touch m"
    "module_kernel (default_fps (a\<lparr>usb_register_rc := rc\<rparr>) m) = module_kernel m"
    by (simp_all add: default_fps_def)
  then show ?thesis
    using touch create assms(2) register_touch_success [OF touch]
    by (simp add: usb_disp_init_def register_fb_handlers_def register_usb_handlers_def Let_def m0)
qed

theorem failed_init_keeps_handlers_witness:
  "\<exists>m'. usb_disp_init (sample_init\<lparr>usb_register_rc := -16\<rparr>) unloaded = Some (Inr (-16, m')) \<and> \<not> usb_registered m'
    \<and> live_flag (module_touch m') \<and> input_registered (module_touch m')"
proof -
  obtain m0 where "usb_disp_init sample_init unloaded = Some (Inr (0, m0))"
    using sample_init_runs by blast
  from failed_init_keeps_handlers [OF this, of "-16"] show ?thesis
    by auto
qed

end
