(* ===== verification/Sdk_Util.thy ===== *)
theory Sdk_Util
  imports Protocol
begin

text \<open>
  The infrastructure of the user-mode SDK, \<^verbatim>\<open>usermode-sdk/infra\<close>: exceptions,
  byte order, buffers with their lock and the scope that holds it. SDK code is an action on a state:
  it ends with a value or with a reason for not returning, and leaves a state in either case.
\<close>

subsection \<open>Actions\<close>

text \<open>
  \<open>Throws\<close> is a C++ exception of the class \<^verbatim>\<open>Exception\<close>, with its error code,
  name and description; \<open>Crash\<close> is undefined behaviour; \<open>Hang\<close> a wait or a lock that
  never returns; \<open>Terminate\<close> an exception that leaves a destructor or a thread.
\<close>

record exception_t =
  ex_code :: int
  ex_name :: string
  ex_description :: string

datatype stop = Throws exception_t | Crash fault | Hang | Terminate

type_synonym ('s, 'a) act = "'s \<Rightarrow> (stop + 'a) \<times> 's"

named_theorems act_simps \<open>unfolding rules for sequences of actions\<close>

definition act_return :: "'a \<Rightarrow> ('s, 'a) act" where
  "act_return x s = (Inr x, s)"

definition act_stop :: "stop \<Rightarrow> ('s, 'a) act" where
  "act_stop e s = (Inl e, s)"

definition act_bind :: "('s, 'a) act \<Rightarrow> ('a \<Rightarrow> ('s, 'b) act) \<Rightarrow> ('s, 'b) act" where
  "act_bind m f s = (case m s of (Inl e, s') \<Rightarrow> (Inl e, s') | (Inr x, s') \<Rightarrow> f x s')"

definition act_get :: "('s \<Rightarrow> 'a) \<Rightarrow> ('s, 'a) act" where
  "act_get f s = (Inr (f s), s)"

definition act_put :: "('s \<Rightarrow> 's) \<Rightarrow> ('s, unit) act" where
  "act_put f s = (Inr (), f s)"

text \<open>A computation on memory that may fault, as an action.\<close>

definition act_lift :: "fault + 'a \<Rightarrow> ('s, 'a) act" where
  "act_lift m s = ((case m of Inl e \<Rightarrow> Inl (Crash e) | Inr x \<Rightarrow> Inr x), s)"

definition Exception :: "int \<Rightarrow> string \<Rightarrow> string \<Rightarrow> exception_t" where
  "Exception code name description = \<lparr>ex_code = code, ex_name = name, ex_description = description\<rparr>"

definition throw :: "exception_t \<Rightarrow> ('s, 'a) act" where
  "throw e = act_stop (Throws e)"

text \<open>\<^verbatim>\<open>try ... catch (Exception& e)\<close>.\<close>

definition act_catch :: "('s, 'a) act \<Rightarrow> (exception_t \<Rightarrow> ('s, 'a) act) \<Rightarrow> ('s, 'a) act" where
  "act_catch m handler s = (case m s of (Inl (Throws e), s') \<Rightarrow> handler e s' | r \<Rightarrow> r)"

lemma act_bind_simps [simp]:
  "m s = (Inl e, s') \<Longrightarrow> act_bind m f s = (Inl e, s')"
  "m s = (Inr x, s') \<Longrightarrow> act_bind m f s = f x s'"
  by (simp_all add: act_bind_def)

lemma act_run [simp]:
  "act_return x s = (Inr x, s)" "act_stop e s = (Inl e, s)" "act_get f s = (Inr (f s), s)"
  "act_put g s = (Inr (), g s)" "throw ex s = (Inl (Throws ex), s)"
  "act_lift (Inr x) s = (Inr x, s)" "act_lift (Inl ft) s = (Inl (Crash ft), s)"
  by (simp_all add: act_return_def act_stop_def act_get_def act_put_def throw_def act_lift_def)

lemma act_catch_simps [simp]:
  "m s = (Inr x, s') \<Longrightarrow> act_catch m h s = (Inr x, s')"
  "m s = (Inl (Throws e), s') \<Longrightarrow> act_catch m h s = h e s'"
  by (simp_all add: act_catch_def)

lemma act_bind_eq [act_simps]:
  "act_bind m f s = (Inr y, s'') \<longleftrightarrow> (\<exists>x s'. m s = (Inr x, s') \<and> f x s' = (Inr y, s''))"
  "act_bind m f s = (Inl e, s'') \<longleftrightarrow> m s = (Inl e, s'') \<or> (\<exists>x s'. m s = (Inr x, s') \<and> f x s' = (Inl e, s''))"
  by (auto simp: act_bind_def split: prod.splits sum.splits)

subsection \<open>Exceptions\<close>

fun hex_digit :: "nat \<Rightarrow> char" where
  "hex_digit n = ''0123456789abcdef'' ! (n mod 16)"

text \<open>\<^verbatim>\<open>%08x\<close> of an \<^verbatim>\<open>int\<close>: its 32 bits as eight digits.\<close>

definition hex8 :: "int \<Rightarrow> string" where
  "hex8 z = map (\<lambda>i. hex_digit (nat (z mod 4294967296) div 16 ^ i)) (rev [0..<8])"

definition exception_toString :: "exception_t \<Rightarrow> string" where
  "exception_toString e =
     (let name = (if ex_name e = [] then ''Error code: 0x'' @ hex8 (ex_code e) else ex_name e)
      in if ex_description e = [] then name else name @ [CHR 0x0A] @ ex_description e)"

subsection \<open>Byte order\<close>

text \<open>
  \<^verbatim>\<open>endian.h\<close>: \<open>big\<close> is \<^verbatim>\<open>RP_INFRA_BIG_ENDIAN\<close>. The value of an
  integer is stored in the order of the host.
\<close>

definition sdk_le16_to_cpu :: "bool \<Rightarrow> u16 \<Rightarrow> u16" where
  "sdk_le16_to_cpu big v = (if big then drop_bit 8 v OR push_bit 8 (v AND 0xff) else v)"

definition sdk_cpu_to_le16 :: "bool \<Rightarrow> u16 \<Rightarrow> u16" where
  "sdk_cpu_to_le16 big v = sdk_le16_to_cpu big v"

definition sdk_le32_to_cpu :: "bool \<Rightarrow> u32 \<Rightarrow> u32" where
  "sdk_le32_to_cpu big v =
     (if big then drop_bit 24 v OR push_bit 8 (drop_bit 16 v AND 0xff)
        OR push_bit 16 (drop_bit 8 v AND 0xff) OR push_bit 24 (v AND 0xff) else v)"

definition sdk_cpu_to_le32 :: "bool \<Rightarrow> u32 \<Rightarrow> u32" where
  "sdk_cpu_to_le32 big v = sdk_le32_to_cpu big v"

definition host16 :: "bool \<Rightarrow> u16 \<Rightarrow> u8 list" where
  "host16 big v = (if big then rev (cpu_to_le16 v) else cpu_to_le16 v)"

definition read_host32 :: "bool \<Rightarrow> u8 \<Rightarrow> u8 \<Rightarrow> u8 \<Rightarrow> u8 \<Rightarrow> u32" where
  "read_host32 big b0 b1 b2 b3 = (if big then le32_to_cpu b3 b2 b1 b0 else le32_to_cpu b0 b1 b2 b3)"

lemma mask_byte: "v AND 0xff = take_bit 8 (v :: 'a :: len word)"
  using take_bit_eq_mask [of 8 v] by (simp add: mask_eq_exp_minus_1)

lemma host16_converted [simp]: "host16 big (sdk_cpu_to_le16 big v) = cpu_to_le16 v"
proof -
  have "ucast (drop_bit 8 v OR push_bit 8 (take_bit 8 v)) = (ucast (drop_bit 8 v) :: u8)"
    by (rule bit_word_eqI) (auto simp: bit_simps)
  moreover have "ucast (drop_bit 8 (drop_bit 8 v OR push_bit 8 (take_bit 8 v))) = (ucast v :: u8)"
    by (rule bit_word_eqI) (auto simp: bit_simps)
  ultimately show ?thesis
    by (simp add: host16_def sdk_cpu_to_le16_def sdk_le16_to_cpu_def cpu_to_le16_def mask_byte)
qed

lemma byte_bit: "bit (ucast (b :: u8) :: u32) n \<longleftrightarrow> n < 8 \<and> bit b n"
  by (auto simp: bit_simps dest: bit_imp_le_length)

lemma bytes_of_le32:
  "drop_bit 24 (le32_to_cpu b0 b1 b2 b3) = ucast b3"
  "take_bit 8 (drop_bit 16 (le32_to_cpu b0 b1 b2 b3)) = ucast b2"
  "take_bit 8 (drop_bit 8 (le32_to_cpu b0 b1 b2 b3)) = ucast b1"
  "take_bit 8 (le32_to_cpu b0 b1 b2 b3) = ucast b0"
  unfolding le32_to_cpu_def
  by (rule bit_word_eqI; auto simp: bit_drop_bit_eq bit_take_bit_iff bit_push_bit_iff bit_or_iff byte_bit)+

lemma read_host32_converted: "sdk_le32_to_cpu big (read_host32 big b0 b1 b2 b3) = le32_to_cpu b0 b1 b2 b3"
  by (cases big) (simp_all only: sdk_le32_to_cpu_def read_host32_def mask_byte bytes_of_le32 if_True if_False,
    simp only: le32_to_cpu_def or.assoc or.commute or.left_commute)

subsection \<open>Buffers\<close>

text \<open>
  \<^verbatim>\<open>buffer.cc\<close> and \<^verbatim>\<open>scopes.cc\<close>. The buffers made so far, a
  \<^verbatim>\<open>shared_ptr<Buffer>\<close> being an index into them; the address of its bytes is that index
  too. \<open>buf_refs\<close> counts the shared pointers; the buffer is freed when the last one goes, and
  whoever uses it afterwards crashes. A copy of a pointer that is only passed down for the time of a call is not
  counted. A second \<^verbatim>\<open>lock()\<close> of a mutex waits for ever, since only the holder could
  unlock it.
\<close>

record BufferImpl =
  nakedBuffer :: "u8 list"
  buf_locked :: bool
  buf_refs :: nat

text \<open>The state of the infrastructure: the buffers, and what was printed to \<^verbatim>\<open>stderr\<close>.\<close>

record util_state =
  bufs :: "BufferImpl list"
  console :: "string list"

type_synonym ('z, 'a) util_act = "('z util_state_scheme, 'a) act"

definition printToConsole :: "exception_t \<Rightarrow> ('z, unit) util_act" where
  "printToConsole e = act_put (\<lambda>s. s\<lparr>console := console s @ [exception_toString e]\<rparr>)"

text \<open>What \<^verbatim>\<open>malloc\<close> answers: whether it succeeds, and what the bytes hold.\<close>

record malloc_env =
  malloc_ok :: "nat \<Rightarrow> bool"
  fresh_bytes :: "nat \<Rightarrow> u8 list"

definition alloc_failed :: "exception_t" where
  "alloc_failed = Exception (-1) ''Failed to alloc buffer'' []"

definition set_buf :: "nat \<Rightarrow> (BufferImpl \<Rightarrow> BufferImpl) \<Rightarrow> 'z util_state_scheme \<Rightarrow> 'z util_state_scheme" where
  "set_buf b f s = s\<lparr>bufs := (bufs s)[b := f (bufs s ! b)]\<rparr>"

definition buf_alive :: "nat \<Rightarrow> 'z util_state_scheme \<Rightarrow> bool" where
  "buf_alive b s \<longleftrightarrow> b < length (bufs s) \<and> buf_refs (bufs s ! b) \<noteq> 0"

text \<open>An access to a buffer, which has to be alive.\<close>

definition on_buffer :: "nat \<Rightarrow> ('z, 'a) util_act \<Rightarrow> ('z, 'a) util_act" where
  "on_buffer b m s = (if buf_alive b s then m s else act_stop (Crash UseAfterFree) s)"

definition Buffer_add :: "'e malloc_env_scheme \<Rightarrow> nat \<Rightarrow> u8 list \<Rightarrow> ('z, nat) util_act" where
  "Buffer_add env n bytes s =
     (if \<not> malloc_ok env n then throw alloc_failed s
      else (Inr (length (bufs s)), s\<lparr>bufs := bufs s @ [\<lparr>nakedBuffer = bytes, buf_locked = False, buf_refs = 1\<rparr>]\<rparr>))"

definition Buffer_new :: "'e malloc_env_scheme \<Rightarrow> nat \<Rightarrow> ('z, nat) util_act" where
  "Buffer_new env n = Buffer_add env n (fresh_bytes env n)"

definition Buffer_clone :: "'e malloc_env_scheme \<Rightarrow> nat \<Rightarrow> ('z, nat) util_act" where
  "Buffer_clone env that =
     on_buffer that (\<lambda>s. let bytes = nakedBuffer (bufs s ! that) in Buffer_add env (length bytes) bytes s)"

text \<open>Assignment replaces the bytes by a clone of the other buffer's; freeing the old ones locks them.\<close>

definition Buffer_assign :: "'e malloc_env_scheme \<Rightarrow> nat \<Rightarrow> nat \<Rightarrow> ('z, unit) util_act" where
  "Buffer_assign env b that =
     on_buffer b (on_buffer that (\<lambda>s.
       if \<not> malloc_ok env (length (nakedBuffer (bufs s ! that))) then throw alloc_failed s
       else if buf_locked (bufs s ! b) then act_stop Hang s
       else (Inr (), set_buf b (\<lambda>x. x\<lparr>nakedBuffer := nakedBuffer (bufs s ! that), buf_locked := False\<rparr>) s)))"

definition Buffer_size :: "nat \<Rightarrow> ('z, nat) util_act" where
  "Buffer_size b = on_buffer b (act_get (\<lambda>s. length (nakedBuffer (bufs s ! b))))"

definition Buffer_lock :: "nat \<Rightarrow> ('z, nat) util_act" where
  "Buffer_lock b =
     on_buffer b (\<lambda>s. if buf_locked (bufs s ! b) then act_stop Hang s
       else (Inr b, set_buf b (buf_locked_update (\<lambda>_. True)) s))"

definition Buffer_unlock :: "nat \<Rightarrow> nat \<Rightarrow> ('z, unit) util_act" where
  "Buffer_unlock b address =
     on_buffer b (\<lambda>s. if b \<noteq> address then throw (Exception (-1) ''Unlocking wrong naked buffer'' []) s
       else (Inr (), set_buf b (buf_locked_update (\<lambda>_. False)) s))"

text \<open>Copying a shared pointer and dropping one. The destructor of the buffer locks it before it frees the bytes.\<close>

definition Buffer_ref :: "nat \<Rightarrow> ('z, unit) util_act" where
  "Buffer_ref b = on_buffer b (act_put (set_buf b (buf_refs_update (\<lambda>n. n + 1))))"

definition Buffer_unref :: "nat \<Rightarrow> ('z, unit) util_act" where
  "Buffer_unref b =
     on_buffer b (\<lambda>s. if buf_refs (bufs s ! b) = 1 \<and> buf_locked (bufs s ! b) then act_stop Hang s
       else (Inr (), set_buf b (buf_refs_update (\<lambda>n. n - 1)) s))"

text \<open>
  An object whose destructor is \<open>leave\<close>: it runs when the scope is left, by a return or by an
  exception, and an exception of its own terminates the program.
\<close>

definition act_finally :: "('s, 'a) act \<Rightarrow> ('s, unit) act \<Rightarrow> ('s, 'a) act" where
  "act_finally body leave s =
     (case body s of
        (Inl (Crash ft), s) \<Rightarrow> (Inl (Crash ft), s)
      | (Inl Hang, s) \<Rightarrow> (Inl Hang, s)
      | (Inl Terminate, s) \<Rightarrow> (Inl Terminate, s)
      | (r, s) \<Rightarrow>
          (case leave s of
             (Inl (Throws e), s) \<Rightarrow> (Inl Terminate, s) | (Inl e, s) \<Rightarrow> (Inl e, s) | (Inr u, s) \<Rightarrow> (r, s)))"

text \<open>Destructors that run only if an exception passes, since the objects outlive a normal return.\<close>

definition on_throw :: "('s, 'a) act \<Rightarrow> ('s, unit) act \<Rightarrow> ('s, 'a) act" where
  "on_throw m leave = act_catch m (\<lambda>e. act_bind leave (\<lambda>u. throw e))"

text \<open>The scope of a local shared pointer to a buffer, and the lock scope, which has one too.\<close>

definition shared_buffer :: "nat \<Rightarrow> ('z, 'a) util_act \<Rightarrow> ('z, 'a) util_act" where
  "shared_buffer b body = act_finally body (Buffer_unref b)"

definition BufferLockScope :: "nat \<Rightarrow> (nat \<Rightarrow> ('z, 'a) util_act) \<Rightarrow> ('z, 'a) util_act" where
  "BufferLockScope b body =
     act_bind (Buffer_ref b) (\<lambda>u.
     act_bind (Buffer_lock b) (\<lambda>address.
     act_finally (body address) (act_bind (Buffer_unlock b address) (\<lambda>u. Buffer_unref b))))"

text \<open>\<^verbatim>\<open>memcpy\<close> from and to the bytes behind an address.\<close>

definition mem_read :: "nat \<Rightarrow> nat \<Rightarrow> nat \<Rightarrow> ('z, u8 list) util_act" where
  "mem_read address at n =
     on_buffer address (\<lambda>s. let bytes = nakedBuffer (bufs s ! address)
       in if at + n \<le> length bytes then (Inr (take n (drop at bytes)), s) else act_stop (Crash OutOfBounds) s)"

definition mem_write :: "nat \<Rightarrow> nat \<Rightarrow> u8 list \<Rightarrow> ('z, unit) util_act" where
  "mem_write address at bs =
     on_buffer address (\<lambda>s. if at + length bs \<le> length (nakedBuffer (bufs s ! address))
       then (Inr (), set_buf address (nakedBuffer_update (buf_put at bs)) s) else act_stop (Crash OutOfBounds) s)"

lemma act_finally_simps [simp]:
  "body s = (Inr x, s') \<Longrightarrow> leave s' = (Inr u, s'') \<Longrightarrow> act_finally body leave s = (Inr x, s'')"
  "body s = (Inl (Throws e), s') \<Longrightarrow> leave s' = (Inr u, s'') \<Longrightarrow> act_finally body leave s = (Inl (Throws e), s'')"
  "body s = (Inl Hang, s') \<Longrightarrow> act_finally body leave s = (Inl Hang, s')"
  "body s = (Inl (Crash ft), s') \<Longrightarrow> act_finally body leave s = (Inl (Crash ft), s')"
  "body s = (Inl Terminate, s') \<Longrightarrow> act_finally body leave s = (Inl Terminate, s')"
  by (simp_all add: act_finally_def)

end
