(* ===== verification/Sdk_Packets.thy ===== *)
theory Sdk_Packets
  imports Packet_Stream Sdk_Util
begin

text \<open>
  How the user-mode SDK cuts a command into packets: the transfer buffer that
  \<^verbatim>\<open>sendCommandToDisplayEndpoint\<close> of \<^verbatim>\<open>rpusbdisp.cc\<close> fills, and that it
  is the same stream as the one the kernel driver puts on the wire.
\<close>

subsection \<open>Filling the transfer buffer\<close>

definition buf_poke :: "nat \<Rightarrow> u8 list \<Rightarrow> u8 list \<Rightarrow> fault + u8 list" where
  "buf_poke at bs buf = (if at + length bs \<le> length buf then Inr (buf_put at bs buf) else Inl OutOfBounds)"

definition buf_peek :: "nat \<Rightarrow> nat \<Rightarrow> u8 list \<Rightarrow> fault + u8 list" where
  "buf_peek at n buf = (if at + n \<le> length buf then Inr (take n (drop at buf)) else Inl OutOfBounds)"

definition packet_header_byte :: "bool \<Rightarrow> nat \<Rightarrow> u8 \<Rightarrow> u8" where
  "packet_header_byte dirty i cmd =
     (if i = 0
      then (let b = cmd OR RPUSBDISP_CMD_FLAG_START in if dirty then b OR RPUSBDISP_CMD_FLAG_CLEARDITY else b)
      else cmd)"

text \<open>
  The body of the loop for packet \<open>i\<close>; \<open>maxPacketSize\<close> is the
  \<^verbatim>\<open>int\<close> of the class, \<open>overall\<close> the packet with its payload and
  \<open>dirty\<close> whether the device reported that it wants a refresh.
\<close>

definition write_packet :: "int \<Rightarrow> bool \<Rightarrow> u8 list \<Rightarrow> nat \<Rightarrow> u8 list \<Rightarrow> fault + u8 list" where
  "write_packet maxPacketSize dirty overall i buf =
     (let packetOffset = sz (sz (i * size_t (c_int (maxPacketSize - 1))) + 1);
          payloadSize = size_t (c_int (maxPacketSize - 1));
          left = sz_sub (length overall) packetOffset;
          payloadSize = (if payloadSize > left then left else payloadSize);
          transferBufferOffset = sz (i * size_t maxPacketSize)
      in kbind (buf_peek 0 1 overall) (\<lambda>b.
         kbind (buf_poke transferBufferOffset [packet_header_byte dirty i (hd b)] buf) (\<lambda>buf.
         kbind (buf_peek packetOffset payloadSize overall) (\<lambda>bs.
         buf_poke (transferBufferOffset + 1) bs buf))))"

fun write_packets :: "int \<Rightarrow> bool \<Rightarrow> u8 list \<Rightarrow> nat list \<Rightarrow> u8 list \<Rightarrow> fault + u8 list" where
  "write_packets maxPacketSize dirty overall [] buf = Inr buf"
| "write_packets maxPacketSize dirty overall (i # is) buf =
     kbind (write_packet maxPacketSize dirty overall i buf) (write_packets maxPacketSize dirty overall is)"

definition packetCount :: "int \<Rightarrow> nat \<Rightarrow> fault + nat" where
  "packetCount maxPacketSize totalSize =
     (let d = size_t (c_int (maxPacketSize - 1))
      in if d = 0 then Inl DivByZero
         else Inr (sz_sub (sz (sz_sub totalSize 1 + size_t maxPacketSize)) 1 div d))"

subsection \<open>The stream, packet by packet\<close>

lemma foldl_frame_shift:
  assumes "length pre mod ep = 0"
  shows "foldl (frame_byte ep cmd) (pre @ out) p = pre @ foldl (frame_byte ep cmd) out p"
proof (induction p arbitrary: out)
  case (Cons b p)
  have "(length pre + length out + 1) mod ep = (length out + 1) mod ep"
    using assms by (metis add.assoc add.commute add.right_neutral mod_add_right_eq)
  then have "frame_byte ep cmd (pre @ out) b = pre @ frame_byte ep cmd out b"
    by (simp add: frame_byte_def)
  then show ?case
    using Cons.IH by simp
qed simp

lemma framed_short:
  assumes "length out + length p < ep"
  shows "framed ep cmd out p = out @ p"
  using assms
proof (induction p rule: rev_induct)
  case (snoc b p)
  then show ?case
    by (simp add: frame_byte_def)
qed simp

lemma framed_append: "framed ep cmd out (p @ q) = framed ep cmd (framed ep cmd out p) q"
  by (simp add: framed_def)

text \<open>A full packet, then the stream of the rest under the header byte of the next packet.\<close>

lemma framed_chunk:
  assumes "1 < ep" "ep - 1 \<le> length p"
  shows "framed ep cmd [h] p = (h # take (ep - 1) p) @ framed ep cmd [cmd] (drop (ep - 1) p)"
proof -
  define n where "n = ep - 2"
  have n: "ep - 1 = Suc n" "ep = Suc (Suc n)"
    unfolding n_def using assms(1) by arith+
  define q b where "q = take n p" and "b = p ! n"
  have q: "take (ep - 1) p = q @ [b]" "length q = n"
    using assms(2) n by (simp_all add: q_def b_def take_Suc_conv_app_nth)
  have full: "framed ep cmd [h] (take (ep - 1) p) = (h # take (ep - 1) p) @ [cmd]"
    using framed_short [of "[h]" q ep cmd] q n by (simp add: frame_byte_def)
  have "framed ep cmd [h] p = framed ep cmd (framed ep cmd [h] (take (ep - 1) p)) (drop (ep - 1) p)"
    by (simp only: framed_append [symmetric] append_take_drop_id)
  also have "\<dots> = (h # take (ep - 1) p) @ framed ep cmd [cmd] (drop (ep - 1) p)"
    unfolding full unfolding framed_def
    by (rule foldl_frame_shift) (use assms n in simp)
  finally show ?thesis .
qed

lemma framed_from:
  assumes "1 < ep" "i * (ep - 1) \<le> length p"
  shows "drop (i * ep) (framed ep cmd [h] p) = framed ep cmd [if i = 0 then h else cmd] (drop (i * (ep - 1)) p)"
  using assms
proof (induction i arbitrary: h p)
  case (Suc i)
  have p: "ep - 1 \<le> length p" "i * (ep - 1) \<le> length (drop (ep - 1) p)"
    using Suc.prems by simp_all
  have "length (h # take (ep - 1) p) = ep"
    using Suc.prems(1) p(1) by simp
  then have "drop (Suc i * ep) (framed ep cmd [h] p) = drop (i * ep) (framed ep cmd [cmd] (drop (ep - 1) p))"
    unfolding framed_chunk [OF Suc.prems(1) p(1), of cmd h] by (simp only: mult_Suc drop_append) simp
  then show ?case
    using Suc.IH [OF Suc.prems(1) p(2), of cmd] by (simp add: add.commute)
qed simp

subsection \<open>The loop writes the stream\<close>

text \<open>Packet \<open>i\<close> in the stream: its header byte and at most \<open>ep - 1\<close> bytes.\<close>

lemma framed_packet:
  assumes "1 < ep" "i * (ep - 1) \<le> length p"
  shows "take (i * ep + 1 + length (take (ep - 1) (drop (i * (ep - 1)) p))) (framed ep cmd [h] p)
    = take (i * ep) (framed ep cmd [h] p) @ (if i = 0 then h else cmd) # take (ep - 1) (drop (i * (ep - 1)) p)"
proof -
  let ?F = "framed ep cmd [h] p" and ?r = "drop (i * (ep - 1)) p" and ?h = "if i = 0 then h else cmd"
  have "take (1 + length (take (ep - 1) ?r)) (framed ep cmd [?h] ?r) = ?h # take (ep - 1) ?r"
  proof (cases "ep - 1 \<le> length ?r")
    case True
    show ?thesis
      unfolding framed_chunk [OF assms(1) True, of cmd ?h] using True by simp
  next
    case False
    then have "framed ep cmd [?h] ?r = [?h] @ ?r"
      by (intro framed_short) simp
    then show ?thesis
      using False by simp
  qed
  then show ?thesis
    unfolding framed_from [OF assms, of cmd h, symmetric] by (simp only: add.assoc take_add)
qed

lemma length_framed1: "1 < ep \<Longrightarrow> length (framed ep cmd [h] p) = 1 + length p + length p div (ep - 1)"
  using length_framed [of "[h]" ep cmd p] by (simp add: Let_def)

lemma take_buf_put_eq:
  assumes "at + length bs \<le> length buf" "take at buf = take at F" "take (at + length bs) F = take at F @ bs"
  shows "take (at + length bs) (buf_put at bs buf) = take (at + length bs) F"
  using assms take_buf_put by metis

text \<open>The arithmetic of the class, in range.\<close>

definition mps_ok :: "int \<Rightarrow> nat \<Rightarrow> bool" where
  "mps_ok m ep \<longleftrightarrow> m = int ep \<and> 1 < ep \<and> ep < 2 ^ 31"

lemma mps_conv: "mps_ok m ep \<Longrightarrow> size_t (c_int (m - 1)) = ep - 1 \<and> size_t m = ep"
  by (simp add: mps_ok_def c_int_id size_t_def nat_diff_distrib' flip: of_nat_diff)

lemma packetCount_ok:
  assumes "mps_ok m ep" "1 \<le> n" "n < 2 ^ 62"
  shows "packetCount m n = Inr ((n - 1) div (ep - 1) + 1)"
proof -
  have ep: "0 < ep - 1" "ep < 2 ^ 31" "1 < ep"
    using assms(1) by (simp_all add: mps_ok_def)
  have "sz (sz_sub n 1 + ep) = n - 1 + ep"
    using assms(2,3) ep by (simp add: sz_def sz_sub_def)
  moreover have "sz_sub (n - 1 + ep) 1 = n - 1 + (ep - 1)"
    using ep by (simp add: sz_sub_def)
  ultimately have "sz_sub (sz (sz_sub n 1 + ep)) 1 div (ep - 1) = (n - 1) div (ep - 1) + 1"
    using ep(1) by (simp only: div_add_self2)
  then show ?thesis
    using mps_conv [OF assms(1)] ep(1) by (simp only: packetCount_def Let_def) simp
qed

lemma write_packet_ok:
  fixes c :: u8
  assumes m: "mps_ok m ep" and i: "i * (ep - 1) \<le> length p" and p: "length p < 2 ^ 61"
    and F: "F = framed ep c [packet_header_byte dirty 0 c] p"
    and buf: "length buf = length F" "take (i * ep) buf = take (i * ep) F"
  shows "\<exists>buf'. write_packet m dirty (c # p) i buf = Inr buf' \<and> length buf' = length F
    \<and> take (i * ep + 1 + length (take (ep - 1) (drop (i * (ep - 1)) p))) buf'
      = take (i * ep + 1 + length (take (ep - 1) (drop (i * (ep - 1)) p))) F"
proof -
  have ep: "1 < ep" "ep < 2 ^ 31"
    using m by (simp_all add: mps_ok_def)
  let ?k = "ep - 1" and ?chunk = "take (ep - 1) (drop (i * (ep - 1)) p)"
  let ?h = "if i = 0 then packet_header_byte dirty 0 c else c"
  have header: "packet_header_byte dirty i c = ?h"
    by (simp add: packet_header_byte_def)
  note packet = framed_packet [OF ep(1) i, of c "packet_header_byte dirty 0 c", folded F]
  have "i * ep + 1 + length ?chunk \<le> length F"
  proof -
    have "length (take (i * ep + 1 + length ?chunk) F) = length (take (i * ep) F) + 1 + length ?chunk"
      unfolding packet by simp
    moreover have "i * ep \<le> length F"
    proof -
      have "i \<le> length p div ?k"
        using i ep(1) by (simp add: less_eq_div_iff_mult_less_eq)
      then have "i * ?k + i \<le> length p + length p div ?k"
        using i by (intro add_mono) simp_all
      moreover have "i * ep = i * ?k + i"
        using ep(1) by (cases ep) simp_all
      ultimately show ?thesis
        unfolding F length_framed1 [OF ep(1)] by linarith
    qed
    ultimately show ?thesis
      by (simp add: min_def split: if_splits)
  qed
  note fits = this
  have "i \<le> length p"
    using i ep(1) by (metis One_nat_def Suc_diff_Suc add_leD1 diff_zero le_trans mult_Suc_right)
  have "length F \<le> 1 + length p + length p"
    unfolding F length_framed1 [OF ep(1)] by simp
  then have "i * ep \<le> 1 + length p + length p"
    using fits by linarith
  then have small: "i * ep < 2 ^ 63" "i * ?k + 1 < 2 ^ 63"
    using p i by simp_all
  then have sizes: "sz (i * ep) = i * ep" "sz (sz (i * ?k) + 1) = i * ?k + 1"
    by (simp_all add: sz_def)
  have left: "sz_sub (length (c # p)) (i * ?k + 1) = length p - i * ?k"
    using i by (simp add: sz_sub_def)
  let ?n = "if ?k > length p - i * ?k then length p - i * ?k else ?k"
  have peek: "buf_peek (i * ?k + 1) ?n (c # p) = Inr ?chunk"
    using i by (auto simp: buf_peek_def)
  let ?b1 = "buf_put (i * ep) [?h] buf" and ?b2 = "buf_put (i * ep + 1) ?chunk (buf_put (i * ep) [?h] buf)"
  have "write_packet m dirty (c # p) i buf = Inr ?b2"
    unfolding write_packet_def Let_def conjunct1 [OF mps_conv [OF m]] conjunct2 [OF mps_conv [OF m]] sizes left peek
    using fits buf(1) header by (simp add: buf_peek_def [of 0] buf_poke_def)
  moreover have "?b2 = buf_put (i * ep) (?h # ?chunk) buf"
    using buf_put_append [of "i * ep" "[?h]" ?chunk buf] fits buf(1) by simp
  moreover have "take (i * ep + length (?h # ?chunk)) (buf_put (i * ep) (?h # ?chunk) buf) = take (i * ep + length (?h # ?chunk)) F"
    by (rule take_buf_put_eq) (use fits buf packet in simp_all)
  ultimately show ?thesis
    using fits buf(1) by simp
qed

lemma write_packets_from:
  fixes c :: u8
  assumes "mps_ok m ep" "length p < 2 ^ 61" "F = framed ep c [packet_header_byte dirty 0 c] p"
    and "i + n = length p div (ep - 1) + 1" "0 < n" "length buf = length F" "take (i * ep) buf = take (i * ep) F"
  shows "write_packets m dirty (c # p) [i..<i + n] buf = Inr F"
  using assms(4-7)
proof (induction n arbitrary: i buf)
  case (Suc n)
  have ep: "1 < ep"
    using assms(1) by (simp add: mps_ok_def)
  have "i \<le> length p div (ep - 1)"
    using Suc.prems(1) by simp
  then have i: "i * (ep - 1) \<le> length p"
    using ep by (simp only: less_eq_div_iff_mult_less_eq zero_less_diff)
  let ?chunk = "take (ep - 1) (drop (i * (ep - 1)) p)"
  obtain buf' where buf': "write_packet m dirty (c # p) i buf = Inr buf'" "length buf' = length F"
    "take (i * ep + 1 + length ?chunk) buf' = take (i * ep + 1 + length ?chunk) F"
    using write_packet_ok [OF assms(1) i assms(2,3) Suc.prems(3,4)] by blast
  have upt: "[i..<i + Suc n] = i # [Suc i..<Suc i + n]"
    by (simp add: upt_conv_Cons)
  show ?case
  proof (cases "n = 0")
    case True
    have "i * ep + 1 + length ?chunk = length F"
    proof -
      have "i = length p div (ep - 1)"
        using True Suc.prems(1) by simp
      then have "length ?chunk = length p - i * (ep - 1)"
        using ep by (simp add: min_def minus_div_mult_eq_mod)
      moreover have "i * ep = i * (ep - 1) + i"
        using ep by (cases ep) simp_all
      ultimately show ?thesis
        unfolding assms(3) length_framed1 [OF ep] using i \<open>i = _\<close> by simp
    qed
    then have "buf' = F"
      using buf'(2,3) by simp
    then show ?thesis
      using buf'(1) True by simp
  next
    case False
    have "(i + 1) * (ep - 1) \<le> length p"
    proof -
      have "i + 1 \<le> length p div (ep - 1)"
        using False Suc.prems(1) by simp
      then show ?thesis
        using ep by (simp only: less_eq_div_iff_mult_less_eq zero_less_diff)
    qed
    then have "i * (ep - 1) + (ep - 1) \<le> length p"
      by (simp only: add_mult_distrib mult_1)
    then have "length ?chunk = ep - 1"
      by simp
    then have "i * ep + 1 + length ?chunk = Suc i * ep"
      using ep by simp
    then have "take (Suc i * ep) buf' = take (Suc i * ep) F"
      using buf'(3) by metis
    moreover have "Suc i + n = length p div (ep - 1) + 1" "0 < n"
      using Suc.prems(1) False by simp_all
    ultimately have "write_packets m dirty (c # p) [Suc i..<Suc i + n] buf' = Inr F"
      by (intro Suc.IH buf'(2))
    then show ?thesis
      unfolding upt using buf'(1) by simp
  qed
qed simp

text \<open>
  The transfer buffer that the SDK fills is the packet stream of the kernel driver: the flags in the
  first header byte, the bare command in the others.
\<close>

lemma write_packets_framed:
  fixes c :: u8
  assumes "mps_ok m ep" "length p < 2 ^ 61" "length buf = 1 + length p + length p div (ep - 1)"
  shows "write_packets m dirty (c # p) [0..<length p div (ep - 1) + 1] buf
    = Inr (framed ep c [packet_header_byte dirty 0 c] p)"
  using write_packets_from [OF assms(1,2) refl, where i = 0 and n = "length p div (ep - 1) + 1" and buf = buf
    and dirty = dirty and c = c] assms
  by (simp add: length_framed1 mps_ok_def)

end
