(* ===== verification/Sdk_Rle.thy ===== *)
theory Sdk_Rle
  imports Rle_Encoder
begin

text \<open>
  The run-length compressor of the user-mode SDK, \<^verbatim>\<open>rpusbdisp-drv/src/rle.cc\<close>. It
  writes into one output array through two pointers: \<open>encodingPos\<close>, the end of what is
  written, and \<open>sectionHeader\<close>, the header byte of the section that is open. A pixel is the
  memory image of its \<^verbatim>\<open>_u16\<close>, since the code only copies and compares pixels.
\<close>

subsection \<open>The output array\<close>

record rle_out =
  outputBuffer :: "u8 list"
  encodingPos :: nat
  sectionHeader :: nat
  lastPixelValue :: pixel_le

definition poke :: "nat \<Rightarrow> u8 list \<Rightarrow> rle_out \<Rightarrow> fault + rle_out" where
  "poke at bs c =
     (if at + length bs \<le> length (outputBuffer c)
      then Inr (c\<lparr>outputBuffer := buf_put at bs (outputBuffer c)\<rparr>) else Inl OutOfBounds)"

definition section_byte :: "rle_out \<Rightarrow> u8" where
  "section_byte c = outputBuffer c ! sectionHeader c"

definition start_section :: "u8 \<Rightarrow> pixel_le \<Rightarrow> rle_out \<Rightarrow> fault + rle_out" where
  "start_section h px c =
     (let c = c\<lparr>sectionHeader := encodingPos c, encodingPos := encodingPos c + 1\<rparr>
      in kbind (poke (sectionHeader c) [h] c) (\<lambda>c.
         kbind (poke (encodingPos c) px c) (\<lambda>c.
         Inr (c\<lparr>encodingPos := encodingPos c + 2\<rparr>))))"

definition push_pixel :: "pixel_le \<Rightarrow> rle_out \<Rightarrow> fault + rle_out" where
  "push_pixel px c =
     kbind (poke (encodingPos c) px c) (\<lambda>c. Inr (c\<lparr>encodingPos := encodingPos c + 2\<rparr>))"

subsection \<open>The two inner loops\<close>

text \<open>Each returns the pixels that are left when it breaks off or runs out of them.\<close>

fun common_run :: "pixel_le list \<Rightarrow> rle_out \<Rightarrow> fault + (pixel_le list \<times> rle_out)" where
  "common_run [] c = Inr ([], c)"
| "common_run (px # pxs) c =
     (if px = lastPixelValue c then
        if section_byte c = 0x7f OR 0x80 then kbind (start_section 0x80 px c) (common_run pxs)
        else kbind (poke (sectionHeader c) [section_byte c + 1] c) (common_run pxs)
      else kbind (start_section 0 px c) (\<lambda>c. Inr (pxs, c\<lparr>lastPixelValue := px\<rparr>)))"

fun plain_run :: "pixel_le list \<Rightarrow> rle_out \<Rightarrow> fault + (pixel_le list \<times> rle_out)" where
  "plain_run [] c = Inr ([], c)"
| "plain_run (px # pxs) c =
     (if px = lastPixelValue c then
        if section_byte c = 0 then
          kbind (poke (sectionHeader c) [section_byte c + 1] c) (\<lambda>c.
          kbind (poke (sectionHeader c) [section_byte c OR 0x80] c) (\<lambda>c. Inr (pxs, c)))
        else
          kbind (poke (sectionHeader c) [section_byte c - 1] c) (\<lambda>c.
          kbind (start_section (0x80 + 1) px (c\<lparr>encodingPos := encodingPos c - 2\<rparr>)) (\<lambda>c. Inr (pxs, c)))
      else
        kbind (if section_byte c = 0x7f then
                 poke (encodingPos c) [0] (c\<lparr>sectionHeader := encodingPos c, encodingPos := encodingPos c + 1\<rparr>)
               else poke (sectionHeader c) [section_byte c + 1] c) (\<lambda>c.
        kbind (push_pixel px c) (\<lambda>c. plain_run pxs (c\<lparr>lastPixelValue := px\<rparr>))))"

lemma common_run_shorter: "common_run pxs c = Inr (rest, c') \<Longrightarrow> length rest \<le> length pxs - 1"
  by (induction pxs c rule: common_run.induct) (fastforce simp: fault_simps split: if_splits)+

lemma plain_run_shorter: "plain_run pxs c = Inr (rest, c') \<Longrightarrow> length rest \<le> length pxs - 1"
  by (induction pxs c rule: plain_run.induct) (fastforce simp: fault_simps split: if_splits)+

subsection \<open>The compressor\<close>

function compress_loop :: "pixel_le list \<Rightarrow> rle_out \<Rightarrow> fault + rle_out" where
  "compress_loop pxs c =
     (if pxs = [] then Inr c
      else kbind (if section_byte c AND 0x80 \<noteq> 0 then common_run pxs c else plain_run pxs c)
        (\<lambda>(rest, c). compress_loop rest c))"
  by pat_completeness auto

termination compress_loop
proof (relation "measure (length \<circ> fst)")
  fix pxs :: "pixel_le list" and c x rest c'
  assume "pxs \<noteq> []" and run: "(if section_byte c AND 0x80 \<noteq> 0 then common_run pxs c else plain_run pxs c) = Inr x"
    and "(rest, c') = x"
  then have "length rest \<le> length pxs - 1"
    using common_run_shorter plain_run_shorter by (auto split: if_splits)
  then show "((rest, c'), pxs, c) \<in> measure (length \<circ> fst)"
    using \<open>pxs \<noteq> []\<close> by (cases pxs) auto
qed simp

declare compress_loop.simps [simp del]

fun pixels_of :: "u8 list \<Rightarrow> pixel_le list" where
  "pixels_of (b0 # b1 # bs) = [b0, b1] # pixels_of bs"
| "pixels_of _ = []"

definition estBufferSize :: "nat \<Rightarrow> nat" where
  "estBufferSize n = sz (n + drop_bit 7 (sz (drop_bit 1 n + 0x7f)))"

text \<open>\<open>array\<close> is the new output array, of \<open>estBufferSize\<close> bytes that nothing has written yet.\<close>

definition compress :: "u8 list \<Rightarrow> u8 list \<Rightarrow> fault + u8 list" where
  "compress array buffer =
     (let pixelData = pixels_of buffer;
          c = \<lparr>outputBuffer = array, encodingPos = 1, sectionHeader = 0, lastPixelValue = []\<rparr>
      in kbind (poke (sectionHeader c) [0] c) (\<lambda>c.
         if pixelData = [] then Inl OutOfBounds
         else let c = c\<lparr>lastPixelValue := hd pixelData\<rparr>
              in kbind (push_pixel (lastPixelValue c) c) (\<lambda>c.
                 kbind (compress_loop (tl pixelData) c) (\<lambda>c.
                 Inr (take (encodingPos c) (outputBuffer c))))))"

subsection \<open>The sections it writes\<close>

text \<open>
  Like \<open>next_section\<close> of the kernel's encoder, but when a run is full, an equal pixel opens a
  run of one.
\<close>

fun sdk_next :: "pixel_le \<Rightarrow> rle_section \<Rightarrow> rle_section \<times> rle_section" where
  "sdk_next px (Common q n) =
     (if px \<noteq> q then (Common q n, Literal [px])
      else if n = 128 then (Common q n, Common px 1) else (Literal [], Common q (n + 1)))"
| "sdk_next px (Literal pxs) =
     (if last pxs = px then (Literal (butlast pxs), Common px 2)
      else if length pxs = 128 then (Literal pxs, Literal [px])
      else (Literal [], Literal (pxs @ [px])))"

fun sdk_sections :: "rle_section \<Rightarrow> pixel_le list \<Rightarrow> rle_section list" where
  "sdk_sections sec [] = [sec]"
| "sdk_sections sec (px # pxs) = (case sdk_next px sec of (out, sec') \<Rightarrow> out # sdk_sections sec' pxs)"

definition sdk_stream :: "rle_section \<Rightarrow> pixel_le list \<Rightarrow> u8 list" where
  "sdk_stream sec pxs = concat (map section_bytes (sdk_sections sec pxs))"

lemma sdk_stream_Nil [simp]: "sdk_stream sec [] = section_bytes sec"
  by (simp add: sdk_stream_def)

lemma sdk_stream_Cons: "sdk_next px sec = (out, sec') \<Longrightarrow> sdk_stream sec (px # pxs) = section_bytes out @ sdk_stream sec' pxs"
  by (simp add: sdk_stream_def)

text \<open>The open section: never empty, of pixels of two bytes, no larger than its header can say.\<close>

fun open_ok :: "rle_section \<Rightarrow> bool" where
  "open_ok (Literal pxs) \<longleftrightarrow> pxs \<noteq> [] \<and> length pxs \<le> 128 \<and> (\<forall>px \<in> set pxs. length px = 2)"
| "open_ok (Common px n) \<longleftrightarrow> 1 \<le> n \<and> n \<le> 128 \<and> length px = 2"

fun closed_ok :: "rle_section \<Rightarrow> bool" where
  "closed_ok (Literal pxs) \<longleftrightarrow> length pxs \<le> 128 \<and> (\<forall>px \<in> set pxs. length px = 2)"
| "closed_ok (Common px n) \<longleftrightarrow> 1 \<le> n \<and> n \<le> 128 \<and> length px = 2"

lemma open_closed: "open_ok sec \<Longrightarrow> closed_ok sec"
  by (cases sec) simp_all

lemma closed_decodable: "closed_ok sec \<Longrightarrow> decodable sec \<and> (\<forall>px \<in> set (section_pixels sec). length px = 2)"
  by (cases sec) auto

lemma sdk_next_ok:
  "open_ok sec \<Longrightarrow> length px = 2 \<Longrightarrow> sdk_next px sec = (out, sec') \<Longrightarrow> closed_ok out \<and> open_ok sec'"
proof (cases sec)
  case (Literal pxs)
  assume "open_ok sec" "length px = 2" "sdk_next px sec = (out, sec')"
  moreover have "\<forall>px \<in> set (butlast pxs). length px = 2"
    using \<open>open_ok sec\<close> Literal by (auto dest: in_set_butlastD)
  moreover have "length (butlast pxs) \<le> length pxs"
    by simp
  ultimately show ?thesis
    using Literal by (auto split: if_splits simp del: length_butlast)
qed (auto split: if_splits)

lemma sdk_next_pixels:
  "open_ok sec \<Longrightarrow> sdk_next px sec = (out, sec') \<Longrightarrow>
   section_pixels out @ section_pixels sec' = section_pixels sec @ [px]"
proof (cases sec)
  case (Literal pxs)
  assume ok: "open_ok sec" and step: "sdk_next px sec = (out, sec')"
  have "butlast pxs @ [last pxs] = pxs"
    using ok Literal by simp
  then have "butlast pxs @ [last pxs, px] = pxs @ [px]"
    by (metis append.assoc append_Cons append_Nil)
  then show ?thesis
    using step Literal by (auto split: if_splits simp: numeral_2_eq_2)
next
  case (Common q n)
  assume "sdk_next px sec = (out, sec')"
  then show ?thesis
    using Common by (auto split: if_splits simp: replicate_append_same)
qed

lemma sdk_sections_ok:
  assumes "open_ok sec" "\<forall>px \<in> set pxs. length px = 2"
  shows "(\<forall>s \<in> set (sdk_sections sec pxs). closed_ok s)
    \<and> concat (map section_pixels (sdk_sections sec pxs)) = section_pixels sec @ pxs"
  using assms
proof (induction pxs arbitrary: sec)
  case (Cons px pxs)
  obtain out sec' where step: "sdk_next px sec = (out, sec')"
    by (cases "sdk_next px sec")
  have two: "length px = 2" "\<forall>px \<in> set pxs. length px = 2"
    using Cons.prems(2) by simp_all
  have ok: "closed_ok out" "open_ok sec'"
    using sdk_next_ok [OF Cons.prems(1) two(1) step] by simp_all
  have "section_pixels out @ section_pixels sec' @ pxs = section_pixels sec @ px # pxs"
    using sdk_next_pixels [OF Cons.prems(1) step] by (metis append.assoc append_Cons append_Nil)
  then show ?case
    using Cons.IH [OF ok(2) two(2)] ok(1) step by simp
qed (simp add: open_closed)

lemma sdk_stream_decodes:
  assumes "\<forall>px \<in> set (px # pxs). length px = 2" "length (sdk_stream (Literal [px]) pxs) \<le> fuel"
  shows "rle_decode fuel (sdk_stream (Literal [px]) pxs) = px # pxs"
proof -
  have ok: "open_ok (Literal [px])" "\<forall>px \<in> set pxs. length px = 2"
    using assms(1) by simp_all
  have "\<forall>s \<in> set (sdk_sections (Literal [px]) pxs). decodable s \<and> (\<forall>px \<in> set (section_pixels s). length px = 2)"
    using sdk_sections_ok [OF ok] closed_decodable by blast
  then show ?thesis
    using rle_decode_sections assms(2) sdk_sections_ok [OF ok] by (simp add: sdk_stream_def)
qed

subsection \<open>The size of the stream\<close>

fun sdk_bound :: "nat \<Rightarrow> rle_section \<Rightarrow> int" where
  "sdk_bound k (Literal pxs) = int (2 * (k - length pxs) + (k - length pxs) div 128)"
| "sdk_bound k (Common px n) =
     (if n = 1 then int (2 * k + k div 128) - 3 else int (2 * (k - n) + (k - n) div 128 + 1))"

lemma length_open: "open_ok sec \<Longrightarrow> length (section_bytes sec) =
    (case sec of Literal pxs \<Rightarrow> 1 + 2 * length pxs | Common px n \<Rightarrow> 3)"
  by (cases sec) (auto simp: section_bytes_def length_concat_2)

lemma length_closed: "closed_ok sec \<Longrightarrow> length (section_bytes sec) =
    (case sec of Literal pxs \<Rightarrow> if pxs = [] then 0 else 1 + 2 * length pxs | Common px n \<Rightarrow> 3)"
  by (cases sec) (auto simp: section_bytes_def length_concat_2)

lemma sdk_next_bound:
  assumes ok: "open_ok sec" "length px = 2" and k: "length (section_pixels sec) \<le> k"
    and step: "sdk_next px sec = (out, sec')"
  shows "sdk_bound k sec + int (length (section_bytes out)) \<le> sdk_bound (k + 1) sec'"
proof -
  have out: "closed_ok out"
    using sdk_next_ok [OF ok step] by simp
  show ?thesis
  proof (cases sec)
    case (Common q n)
    then have n: "1 \<le> n" "n \<le> k" "n \<le> 128"
      using ok k by simp_all
    have down: "(k - n) div 128 \<le> k div 128"
      by (intro div_le_mono) simp
    have up: "Suc k div 128 \<le> (k - 1) div 128 + 1" "k div 128 \<le> (k - 1) div 128 + 1" "k div 128 \<le> Suc k div 128"
      by linarith+
    show ?thesis
      using step Common n down up length_closed [OF out]
      by (auto split: if_splits simp: of_nat_diff)
  next
    case (Literal pxs)
    let ?l = "length pxs"
    have l: "1 \<le> ?l" "?l \<le> 128" "?l \<le> k" "pxs \<noteq> []"
      using ok k Literal by (cases pxs; simp)+
    have down: "(k - ?l) div 128 \<le> (k - 1) div 128"
      using l(1) by (intro div_le_mono diff_le_mono2)
    have full: "k div 128 = (k - 128) div 128 + 1" if "?l = 128"
      using that l(3) by (simp add: le_div_geq)
    show ?thesis
      using step Literal l down full length_closed [OF out]
      by (auto split: if_splits simp: of_nat_diff)
  qed
qed

lemma sdk_stream_bound:
  assumes "open_ok sec" "\<forall>px \<in> set pxs. length px = 2" "length (section_pixels sec) \<le> k"
  shows "sdk_bound k sec + int (length (sdk_stream sec pxs)) \<le> int (2 * (k + length pxs) + (k + length pxs + 127) div 128)"
  using assms
proof (induction pxs arbitrary: sec k)
  case Nil
  show ?case
  proof (cases sec)
    case (Literal pxs)
    have "(k - length pxs) div 128 + 1 = (k - length pxs + 128) div 128"
      by simp
    also have "\<dots> \<le> (k + 127) div 128"
      using Nil Literal by (intro div_le_mono) (cases pxs; simp)
    finally show ?thesis
      using Nil Literal length_open [OF Nil.prems(1)] by (simp add: of_nat_diff)
  next
    case (Common q n)
    have "(k - n) div 128 \<le> (k + 127) div 128" "k div 128 \<le> (k + 127) div 128"
      by (intro div_le_mono; simp)+
    then show ?thesis
      using Nil Common length_open [OF Nil.prems(1)] by (auto simp: of_nat_diff)
  qed
next
  case (Cons px pxs)
  obtain out sec' where step: "sdk_next px sec = (out, sec')"
    by (cases "sdk_next px sec")
  have two: "length px = 2" "\<forall>px \<in> set pxs. length px = 2"
    using Cons.prems(2) by simp_all
  have sec': "open_ok sec'"
    using sdk_next_ok [OF Cons.prems(1) two(1) step] by simp
  have k': "length (section_pixels sec') \<le> k + 1"
    using arg_cong [OF sdk_next_pixels [OF Cons.prems(1) step], of length] Cons.prems(3) by simp
  show ?case
    using sdk_next_bound [OF Cons.prems(1) two(1) Cons.prems(3) step] Cons.IH [OF sec' two(2) k']
    by (simp add: sdk_stream_Cons [OF step])
qed

lemma length_sdk_stream:
  assumes "\<forall>px \<in> set (px # pxs). length px = 2"
  shows "length (sdk_stream (Literal [px]) pxs) \<le> 2 * length (px # pxs) + (length (px # pxs) + 127) div 128"
  using sdk_stream_bound [of "Literal [px]" pxs 1] assms by simp

text \<open>The stream only grows, so every position the loop writes to lies in the final stream.\<close>

lemma sdk_stream_grows:
  assumes "open_ok sec" "\<forall>px \<in> set pxs. length px = 2"
  shows "length (section_bytes sec) \<le> length (sdk_stream sec pxs)"
  using assms
proof (induction pxs arbitrary: sec)
  case (Cons px pxs)
  obtain out sec' where step: "sdk_next px sec = (out, sec')"
    by (cases "sdk_next px sec")
  have two: "length px = 2" "\<forall>px \<in> set pxs. length px = 2"
    using Cons.prems(2) by simp_all
  have ok: "closed_ok out" "open_ok sec'"
    using sdk_next_ok [OF Cons.prems(1) two(1) step] by simp_all
  have "length (section_bytes sec) \<le> length (section_bytes out) + length (section_bytes sec')"
  proof (cases sec)
    case (Literal pxs)
    then have "1 \<le> length pxs" "butlast pxs = [] \<longleftrightarrow> length pxs = 1"
      using Cons.prems(1) by (cases pxs; simp)+
    then show ?thesis
      using Literal step Cons.prems(1) length_open [OF Cons.prems(1)] length_open [OF ok(2)] length_closed [OF ok(1)]
      by (auto split: if_splits)
  next
    case (Common q n)
    then show ?thesis
      using step Cons.prems(1) length_open [OF Cons.prems(1)] length_open [OF ok(2)] length_closed [OF ok(1)]
      by (auto split: if_splits)
  qed
  then show ?case
    using Cons.IH [OF ok(2) two(2)] by (simp add: sdk_stream_Cons [OF step])
qed simp

subsection \<open>The header byte\<close>

lemma small_header:
  assumes "1 \<le> n" "n \<le> 128"
  shows "section_header False n = word_of_nat (n - 1)" "section_header True n = word_of_nat (n - 1 + 128)"
proof -
  define m where "m = n - 1"
  have m: "m < 128"
    using assms by (simp add: m_def)
  define w :: u8 where "w = word_of_nat m"
  have "take_bit 7 w = w"
    unfolding w_def using m by (simp only: take_bit_of_nat) (simp add: take_bit_nat_eq_self)
  then have w: "w AND 0x7f = w"
    using take_bit_eq_mask [of 7 w] by (simp add: mask_eq_exp_minus_1)
  then show "section_header False n = word_of_nat (n - 1)"
    by (simp add: section_header_def RPUSBDISP_RLE_BLOCKFLAG_SIZE_BIT_def w_def m_def)
  have small: "word_of_nat (n - 1) AND 0x7f = w"
    using w by (simp add: w_def m_def)
  have "w AND 0x80 = (w AND 0x7f) AND 0x80"
    by (simp only: w)
  also have "\<dots> = 0"
    by (simp only: and.assoc) simp
  finally have "w OR 0x80 = w + 0x80"
    using word_plus_and_or [of w "0x80"] by simp
  also have "\<dots> = word_of_nat (m + 128)"
    by (simp add: w_def)
  finally show "section_header True n = word_of_nat (n - 1 + 128)"
    unfolding section_header_def RPUSBDISP_RLE_BLOCKFLAG_SIZE_BIT_def RPUSBDISP_RLE_BLOCKFLAG_COMMON_BIT_def
      Let_def small if_True by (simp only: m_def)
qed

lemma byte_eq: "m < 256 \<Longrightarrow> k < 256 \<Longrightarrow> (word_of_nat m :: u8) = word_of_nat k \<longleftrightarrow> m = k"
proof -
  assume "m < 256" "k < 256"
  then have "unat (word_of_nat m :: u8) = m" "unat (word_of_nat k :: u8) = k"
    by (simp_all add: unat_of_nat)
  then show ?thesis
    by metis
qed

lemma header_facts:
  assumes "1 \<le> n" "n \<le> 128"
  shows "section_header False n = 0 \<longleftrightarrow> n = 1" "section_header False n = 0x7f \<longleftrightarrow> n = 128"
    "section_header True n = 0xFF \<longleftrightarrow> n = 128"
    "n < 128 \<Longrightarrow> section_header c n + 1 = section_header c (n + 1)"
    "1 < n \<Longrightarrow> section_header False n - 1 = section_header False (n - 1)"
    "section_header c n AND 0x80 \<noteq> 0 \<longleftrightarrow> c"
proof -
  note small = small_header [OF assms]
  show "section_header False n = 0 \<longleftrightarrow> n = 1"
    using byte_eq [of "n - 1" 0] assms by (simp add: small le_Suc_eq)
  show "section_header False n = 0x7f \<longleftrightarrow> n = 128"
    using byte_eq [of "n - 1" 127] assms by (auto simp: small)
  show "section_header True n = 0xFF \<longleftrightarrow> n = 128"
    using byte_eq [of "n - 1 + 128" 255] assms by (auto simp: small)
  show "section_header c n + 1 = section_header c (n + 1)" if "n < 128"
  proof -
    obtain m where m: "n = Suc m"
      using assms by (cases n) auto
    show ?thesis
      using that assms small_header [of "n + 1"] small by (cases c) (simp_all add: m)
  qed
  show "section_header False n - 1 = section_header False (n - 1)" if "1 < n"
  proof -
    have "n - 1 = Suc (n - 1 - 1)"
      using that by simp
    then have "(word_of_nat (n - 1) :: u8) = word_of_nat (n - 1 - 1) + 1"
      by (metis of_nat_Suc add.commute)
    then show ?thesis
      using that assms small_header [of "n - 1"] by (simp add: small)
  qed
  show "section_header c n AND 0x80 \<noteq> 0 \<longleftrightarrow> c"
    using section_header_bits(2) [OF assms] by (simp add: RPUSBDISP_RLE_BLOCKFLAG_COMMON_BIT_def)
qed

subsection \<open>The array during the loop\<close>

text \<open>The array holds the bytes \<open>out\<close> of the finished sections, then those of the open one.\<close>

definition layout :: "rle_out \<Rightarrow> u8 list \<Rightarrow> u8 list \<Rightarrow> bool" where
  "layout c out bs \<longleftrightarrow> bs \<noteq> [] \<and> sectionHeader c = length out \<and> encodingPos c = length out + length bs
     \<and> encodingPos c \<le> length (outputBuffer c) \<and> take (encodingPos c) (outputBuffer c) = out @ bs"

text \<open>A call that keeps the size of the array and the last pixel, and leaves a new layout.\<close>

definition lays :: "(fault + rle_out) \<Rightarrow> rle_out \<Rightarrow> u8 list \<Rightarrow> u8 list \<Rightarrow> bool" where
  "lays m c out bs \<longleftrightarrow> (\<exists>c'. m = Inr c' \<and> layout c' out bs \<and> lastPixelValue c' = lastPixelValue c
     \<and> length (outputBuffer c') = length (outputBuffer c))"

lemma lays_bind:
  assumes "lays m c out bs"
    and "\<And>c'. layout c' out bs \<Longrightarrow> lastPixelValue c' = lastPixelValue c
      \<Longrightarrow> length (outputBuffer c') = length (outputBuffer c) \<Longrightarrow> lays (f c') c' out' bs'"
  shows "lays (kbind m f) c out' bs'"
  using assms unfolding lays_def by fastforce

lemma layout_byte: "layout c out bs \<Longrightarrow> section_byte c = hd bs"
proof -
  assume l: "layout c out bs"
  then have "section_byte c = (out @ bs) ! length out"
    unfolding section_byte_def layout_def by (metis nth_take less_add_same_cancel1 length_greater_0_conv)
  then show ?thesis
    using l by (simp add: nth_append layout_def hd_conv_nth)
qed

lemma layout_set_header:
  assumes "layout c out (b # bs)"
  shows "lays (poke (sectionHeader c) [h] c) c out (h # bs)"
proof -
  let ?buf = "outputBuffer c"
  have l: "sectionHeader c = length out" "length out + 1 + length bs \<le> length ?buf" "encodingPos c = length out + 1 + length bs"
    and pre: "take (length out + 1 + length bs) ?buf = out @ b # bs"
    using assms unfolding layout_def by auto
  have out: "take (length out) ?buf = out"
    using arg_cong [OF pre, of "take (length out)"] by simp
  have rest: "take (length bs) (drop (length out + 1) ?buf) = bs"
    using arg_cong [OF pre, of "drop (length out + 1)"] by (simp add: drop_take)
  have "take (length out + 1 + length bs) (buf_put (length out) [h] ?buf) = out @ h # bs"
    using l(2) out rest by (simp add: buf_put_def)
  then show ?thesis
    using l by (simp add: lays_def poke_def layout_def)
qed

lemma layout_fits: "layout c out bs \<Longrightarrow> take (length out + length bs) (outputBuffer c) = out @ bs \<and> sectionHeader c = length out \<and> encodingPos c = length out + length bs"
  unfolding layout_def by auto

lemma layout_start_header:
  assumes "layout c out bs" "length out + length bs + 1 \<le> length (outputBuffer c)"
  shows "lays (poke (encodingPos c) [h] (c\<lparr>sectionHeader := encodingPos c, encodingPos := encodingPos c + 1\<rparr>)) c (out @ bs) [h]"
  using assms take_buf_put [of "length out + length bs" "[h]" "outputBuffer c"] layout_fits [OF assms(1)]
  by (simp add: lays_def poke_def layout_def)

lemma layout_push:
  assumes "layout c out bs" "length px = 2" "length out + length bs + 2 \<le> length (outputBuffer c)"
  shows "lays (push_pixel px c) c out (bs @ px)"
  using assms take_buf_put [of "length out + length bs" px "outputBuffer c"] layout_fits [OF assms(1)]
  by (simp add: lays_def poke_def push_pixel_def layout_def)

lemma layout_start:
  assumes "layout c out bs" "length px = 2" "length out + length bs + 3 \<le> length (outputBuffer c)"
  shows "lays (start_section h px c) c (out @ bs) (h # px)"
proof -
  have "start_section h px c = kbind (poke (encodingPos c) [h]
      (c\<lparr>sectionHeader := encodingPos c, encodingPos := encodingPos c + 1\<rparr>)) (push_pixel px)"
    by (simp add: start_section_def push_pixel_def [abs_def] Let_def)
  also have "lays \<dots> c (out @ bs) (h # px)"
    by (rule lays_bind [OF layout_start_header [OF assms(1)]]) (use assms layout_push [of _ "out @ bs" "[h]" px] in auto)
  finally show ?thesis .
qed

lemma layout_pop:
  assumes "layout c out (bs @ px)" "length px = 2" "bs \<noteq> []"
  shows "layout (c\<lparr>encodingPos := encodingPos c - 2\<rparr>) out bs"
proof -
  have "take (length out + length bs) (outputBuffer c) = out @ bs"
    using arg_cong [OF conjunct1 [OF layout_fits [OF assms(1)]], of "take (length out + length bs)"] assms(2)
    by (simp add: min_def)
  then show ?thesis
    using assms by (simp add: layout_def)
qed

subsection \<open>The loops write the stream\<close>

definition sdk_open :: "rle_out \<Rightarrow> u8 list \<Rightarrow> rle_section \<Rightarrow> bool" where
  "sdk_open c out sec \<longleftrightarrow> open_ok sec \<and> layout c out (section_bytes sec) \<and> lastPixelValue c = last (section_pixels sec)"

text \<open>
  A loop that stops with the pixels \<open>rest\<close> left has neither lost nor added anything: what is
  written and what the rest will give is \<open>whole\<close>.
\<close>

definition run_ok :: "u8 list \<Rightarrow> rle_out \<Rightarrow> (fault + (pixel_le list \<times> rle_out)) \<Rightarrow> bool" where
  "run_ok whole c m \<longleftrightarrow> (\<exists>rest c' out sec. m = Inr (rest, c') \<and> sdk_open c' out sec
     \<and> out @ sdk_stream sec rest = whole \<and> (\<forall>px \<in> set rest. length px = 2)
     \<and> length (outputBuffer c') = length (outputBuffer c))"

lemma run_okI:
  "sdk_open c' out sec \<Longrightarrow> out @ sdk_stream sec rest = whole \<Longrightarrow> \<forall>px \<in> set rest. length px = 2 \<Longrightarrow>
   length (outputBuffer c') = length (outputBuffer c) \<Longrightarrow> run_ok whole c (Inr (rest, c'))"
  unfolding run_ok_def by blast

lemma run_ok_bind:
  assumes "lays m c out bs"
    and "\<And>c'. layout c' out bs \<Longrightarrow> lastPixelValue c' = lastPixelValue c
      \<Longrightarrow> length (outputBuffer c') = length (outputBuffer c) \<Longrightarrow> run_ok whole c' (f c')"
  shows "run_ok whole c (kbind m f)"
  using assms unfolding lays_def run_ok_def by fastforce

lemma open_bytes:
  "section_bytes (Common px n) = section_header True n # px"
  "pxs \<noteq> [] \<Longrightarrow> section_bytes (Literal pxs) = section_header False (length pxs) # concat pxs"
  by (simp_all add: section_bytes_def)

lemma first_headers: "section_header False (Suc 0) = 0" "section_header True (Suc 0) = 0x80" "section_header True 2 = 0x81"
  using small_header [of 1] small_header [of 2] by simp_all

lemma layout_last: "layout (c\<lparr>lastPixelValue := px\<rparr>) out bs = layout c out bs"
  by (simp add: layout_def)

text \<open>A step of the loop: the position reached stays inside the final stream.\<close>

lemma sdk_step_fits:
  assumes "open_ok sec" "\<forall>p \<in> set (px # pxs). length p = 2" "sdk_next px sec = (out', sec')"
    and "length (out @ sdk_stream sec (px # pxs)) \<le> n"
  shows "length out + length (section_bytes out') + length (section_bytes sec') \<le> n"
    and "(out @ section_bytes out') @ sdk_stream sec' pxs = out @ sdk_stream sec (px # pxs)"
proof -
  have "open_ok sec'"
    using sdk_next_ok [OF assms(1) _ assms(3)] assms(2) by simp
  then have "length (section_bytes sec') \<le> length (sdk_stream sec' pxs)"
    using sdk_stream_grows assms(2) by simp
  then show "length out + length (section_bytes out') + length (section_bytes sec') \<le> n"
    using assms(4) by (simp add: sdk_stream_Cons [OF assms(3)])
qed (simp add: sdk_stream_Cons [OF assms(3)])

lemma common_run_ok:
  assumes "sdk_open c out (Common q n)" "\<forall>px \<in> set pxs. length px = 2"
    and "length (out @ sdk_stream (Common q n) pxs) \<le> length (outputBuffer c)"
  shows "run_ok (out @ sdk_stream (Common q n) pxs) c (common_run pxs c)"
  using assms
proof (induction pxs arbitrary: c out n)
  case Nil
  then show ?case
    by (simp add: run_okI)
next
  case (Cons px pxs)
  let ?whole = "out @ sdk_stream (Common q n) (px # pxs)"
  have ok: "open_ok (Common q n)" and n: "1 \<le> n" "n \<le> 128" and two: "length px = 2" "length q = 2" "\<forall>px \<in> set pxs. length px = 2"
    and lay: "layout c out (section_header True n # q)" and last: "lastPixelValue c = q"
    using Cons.prems(1,2) by (auto simp: sdk_open_def open_bytes)
  note fits = sdk_step_fits [OF ok Cons.prems(2) _ Cons.prems(3)]
  have byte: "section_byte c = section_header True n"
    using layout_byte [OF lay] by simp
  consider "px = q" "n = 128" | "px = q" "n < 128" | "px \<noteq> q"
    using n by linarith
  then show ?case
  proof cases
    case 1
    then have step: "sdk_next px (Common q n) = (Common q n, Common px 1)"
      by simp
    have start: "lays (start_section 0x80 px c) c (out @ section_header True n # q) (0x80 # px)"
      by (rule layout_start [OF lay two(1)]) (use fits(1) [OF step] two in \<open>simp add: open_bytes\<close>)
    have "common_run (px # pxs) c = kbind (start_section 0x80 px c) (common_run pxs)"
      using 1 n byte last by (simp add: header_facts(3))
    also have "run_ok ?whole c \<dots>"
    proof (rule run_ok_bind [OF start])
      fix c' assume c': "layout c' (out @ section_header True n # q) (0x80 # px)"
        "lastPixelValue c' = lastPixelValue c" "length (outputBuffer c') = length (outputBuffer c)"
      have "sdk_open c' (out @ section_header True n # q) (Common q 1)"
        using c'(1,2) 1 two last by (simp add: sdk_open_def open_bytes first_headers)
      have whole: "(out @ section_header True n # q) @ sdk_stream (Common q 1) pxs = ?whole"
        using fits(2) [OF step] 1 by (simp only: open_bytes)
      from Cons.IH [OF \<open>sdk_open c' _ _\<close> two(3)] show "run_ok ?whole c' (common_run pxs c')"
        unfolding whole using Cons.prems(3) c'(3) by simp
    qed
    finally show ?thesis .
  next
    case 2
    then have step: "sdk_next px (Common q n) = (Literal [], Common q (n + 1))"
      by simp
    have "common_run (px # pxs) c = kbind (poke (sectionHeader c) [section_byte c + 1] c) (common_run pxs)"
      using 2 n byte last by (simp add: header_facts(3))
    also have "run_ok ?whole c \<dots>"
    proof (rule run_ok_bind [OF layout_set_header [OF lay]])
      fix c' assume c': "layout c' out ((section_byte c + 1) # q)"
        "lastPixelValue c' = lastPixelValue c" "length (outputBuffer c') = length (outputBuffer c)"
      have "sdk_open c' out (Common q (n + 1))"
        using c'(1,2) 2 two last n header_facts(4) [OF n, of True] by (simp add: sdk_open_def open_bytes byte)
      from Cons.IH [OF this two(3)] show "run_ok ?whole c' (common_run pxs c')"
        using fits(2) [OF step] Cons.prems(3) c'(3) by (simp add: section_bytes_def)
    qed
    finally show ?thesis .
  next
    case 3
    then have step: "sdk_next px (Common q n) = (Common q n, Literal [px])"
      by simp
    have start: "lays (start_section 0 px c) c (out @ section_header True n # q) (0 # px)"
      by (rule layout_start [OF lay two(1)]) (use fits(1) [OF step] two in \<open>simp add: open_bytes\<close>)
    have "common_run (px # pxs) c = kbind (start_section 0 px c) (\<lambda>c. Inr (pxs, c\<lparr>lastPixelValue := px\<rparr>))"
      using 3 last by simp
    also have "run_ok ?whole c \<dots>"
    proof (rule run_ok_bind [OF start])
      fix c' assume c': "layout c' (out @ section_header True n # q) (0 # px)"
        "lastPixelValue c' = lastPixelValue c" "length (outputBuffer c') = length (outputBuffer c)"
      have "sdk_open (c'\<lparr>lastPixelValue := px\<rparr>) (out @ section_header True n # q) (Literal [px])"
        using c'(1) two first_headers by (simp add: sdk_open_def open_bytes layout_last)
      then show "run_ok ?whole c' (Inr (pxs, c'\<lparr>lastPixelValue := px\<rparr>))"
        by (rule run_okI) (use fits(2) [OF step] two c'(3) in \<open>simp_all add: open_bytes\<close>)
    qed
    finally show ?thesis .
  qed
qed

lemma plain_run_ok:
  assumes "sdk_open c out (Literal qs)" "\<forall>px \<in> set pxs. length px = 2"
    and "length (out @ sdk_stream (Literal qs) pxs) \<le> length (outputBuffer c)"
  shows "run_ok (out @ sdk_stream (Literal qs) pxs) c (plain_run pxs c)"
  using assms
proof (induction pxs arbitrary: c out qs)
  case Nil
  then show ?case
    by (simp add: run_okI)
next
  case (Cons px pxs)
  let ?whole = "out @ sdk_stream (Literal qs) (px # pxs)"
  let ?h = "section_header False (length qs)"
  have ok: "open_ok (Literal qs)" and qs: "qs \<noteq> []" "1 \<le> length qs" "length qs \<le> 128"
    and two: "length px = 2" "\<forall>q \<in> set qs. length q = 2" "\<forall>px \<in> set pxs. length px = 2"
    and lay: "layout c out (?h # concat qs)" and last: "lastPixelValue c = last qs"
    using Cons.prems(1,2) by (auto simp: sdk_open_def open_bytes Suc_le_eq)
  note fits = sdk_step_fits [OF ok Cons.prems(2) _ Cons.prems(3)]
  note header = header_facts [OF qs(2,3)]
  have byte: "section_byte c = ?h"
    using layout_byte [OF lay] by simp
  have size: "length (concat qs) = 2 * length qs"
    using two by (simp add: length_concat_2)
  consider (first) "px = last qs" "length qs = 1" | (pair) "px = last qs" "1 < length qs"
    | (full) "px \<noteq> last qs" "length qs = 128" | (more) "px \<noteq> last qs" "length qs < 128"
    using qs by linarith
  then show ?case
  proof cases
    case first
    then obtain q where q: "qs = [q]"
      by (cases qs) auto
    have step: "sdk_next px (Literal qs) = (Literal [], Common px 2)"
      using first q by simp
    have "plain_run (px # pxs) c = kbind (poke (sectionHeader c) [section_byte c + 1] c) (\<lambda>c.
        kbind (poke (sectionHeader c) [section_byte c OR 0x80] c) (\<lambda>c. Inr (pxs, c)))"
      using first byte last header(1) by simp
    also have "run_ok ?whole c \<dots>"
    proof (rule run_ok_bind [OF layout_set_header [OF lay]])
      fix c' assume c': "layout c' out ((section_byte c + 1) # concat qs)"
        "lastPixelValue c' = lastPixelValue c" "length (outputBuffer c') = length (outputBuffer c)"
      have "section_byte c' = 1"
        using layout_byte [OF c'(1)] byte first header(1) by simp
      then have run: "lays (poke (sectionHeader c') [section_byte c' OR 0x80] c') c' out (0x81 # concat qs)"
        using layout_set_header [OF c'(1), of "0x81"] by simp
      show "run_ok ?whole c' (kbind (poke (sectionHeader c') [section_byte c' OR 0x80] c') (\<lambda>c. Inr (pxs, c)))"
      proof (rule run_ok_bind [OF run])
        fix d assume d: "layout d out (0x81 # concat qs)" "lastPixelValue d = lastPixelValue c'"
        have "sdk_open d out (Common px 2)"
          using d c'(2) last first q two first_headers by (simp add: sdk_open_def open_bytes)
        then show "run_ok ?whole d (Inr (pxs, d))"
          by (rule run_okI) (use fits(2) [OF step] two in \<open>simp_all add: section_bytes_def\<close>)
      qed
    qed
    finally show ?thesis .
  next
    case pair
    then have step: "sdk_next px (Literal qs) = (Literal (butlast qs), Common px 2)"
      by simp
    have split: "concat qs = concat (butlast qs) @ px"
      using qs(1) pair(1) by (metis append_butlast_last_id append_Nil2 concat.simps concat_append)
    have rest: "butlast qs \<noteq> []" "length (butlast qs) = length qs - 1"
      using pair(2) by (cases qs; simp)+
    have bytes: "section_bytes (Literal (butlast qs)) = (?h - 1) # concat (butlast qs)"
      using rest header(5) pair(2) by (simp add: open_bytes)
    have "plain_run (px # pxs) c = kbind (poke (sectionHeader c) [section_byte c - 1] c) (\<lambda>c.
        kbind (start_section (0x80 + 1) px (c\<lparr>encodingPos := encodingPos c - 2\<rparr>)) (\<lambda>c. Inr (pxs, c)))"
      using pair byte last header(1) by simp
    also have "run_ok ?whole c \<dots>"
    proof (rule run_ok_bind [OF layout_set_header [OF lay]])
      fix c' assume c': "layout c' out ((section_byte c - 1) # concat qs)"
        "lastPixelValue c' = lastPixelValue c" "length (outputBuffer c') = length (outputBuffer c)"
      let ?d = "c'\<lparr>encodingPos := encodingPos c' - 2\<rparr>"
      have d: "layout ?d out (section_bytes (Literal (butlast qs)))"
        using layout_pop [of c' out "(?h - 1) # concat (butlast qs)" px] c'(1) two(1) byte by (simp add: split bytes)
      have start: "lays (start_section (0x80 + 1) px ?d) ?d (out @ section_bytes (Literal (butlast qs))) ((0x80 + 1) # px)"
        by (rule layout_start [OF d two(1)]) (use fits(1) [OF step] two(1) c'(3) in \<open>simp add: open_bytes\<close>)
      have "run_ok ?whole ?d (kbind (start_section (0x80 + 1) px ?d) (\<lambda>c. Inr (pxs, c)))"
      proof (rule run_ok_bind [OF start])
        fix e assume e: "layout e (out @ section_bytes (Literal (butlast qs))) ((0x80 + 1) # px)"
          "lastPixelValue e = lastPixelValue ?d"
        have "sdk_open e (out @ section_bytes (Literal (butlast qs))) (Common px 2)"
          using e c'(2) last pair two first_headers by (simp add: sdk_open_def open_bytes)
        then show "run_ok ?whole e (Inr (pxs, e))"
          by (rule run_okI) (use fits(2) [OF step] two in simp_all)
      qed
      then show "run_ok ?whole c' (kbind (start_section (0x80 + 1) px ?d) (\<lambda>c. Inr (pxs, c)))"
        by (simp add: run_ok_def)
    qed
    finally show ?thesis .
  next
    case full
    then have step: "sdk_next px (Literal qs) = (Literal qs, Literal [px])"
      by simp
    let ?out = "out @ section_bytes (Literal qs)"
    have lay': "layout c out (section_bytes (Literal qs))"
      using lay qs(1) by (simp add: open_bytes)
    have room: "length out + length (section_bytes (Literal qs)) + 3 \<le> length (outputBuffer c)"
      using fits(1) [OF step] two(1) by (simp add: open_bytes)
    let ?m = "poke (encodingPos c) [0] (c\<lparr>sectionHeader := encodingPos c, encodingPos := encodingPos c + 1\<rparr>)"
    have "plain_run (px # pxs) c = kbind ?m (\<lambda>c. kbind (push_pixel px c) (\<lambda>c. plain_run pxs (c\<lparr>lastPixelValue := px\<rparr>)))"
      using full byte last header(1,2) by simp
    also have "run_ok ?whole c \<dots>"
    proof (rule run_ok_bind)
      show "lays ?m c ?out [0]"
        by (rule layout_start_header [OF lay']) (use room in simp)
      fix c' assume c': "layout c' ?out [0]" "length (outputBuffer c') = length (outputBuffer c)"
      show "run_ok ?whole c' (kbind (push_pixel px c') (\<lambda>c. plain_run pxs (c\<lparr>lastPixelValue := px\<rparr>)))"
      proof (rule run_ok_bind)
        show "lays (push_pixel px c') c' ?out ([0] @ px)"
          by (rule layout_push [OF c'(1) two(1)]) (use room c'(2) in simp)
        fix d assume d: "layout d ?out ([0] @ px)" "length (outputBuffer d) = length (outputBuffer c')"
        have "sdk_open (d\<lparr>lastPixelValue := px\<rparr>) ?out (Literal [px])"
          using d(1) two first_headers by (simp add: sdk_open_def open_bytes layout_last)
        from Cons.IH [OF this two(3)] show "run_ok ?whole d (plain_run pxs (d\<lparr>lastPixelValue := px\<rparr>))"
          unfolding fits(2) [OF step] using Cons.prems(3) c'(2) d(2) by (simp add: run_ok_def)
      qed
    qed
    finally show ?thesis .
  next
    case more
    then have step: "sdk_next px (Literal qs) = (Literal [], Literal (qs @ [px]))"
      by simp
    have "plain_run (px # pxs) c = kbind (poke (sectionHeader c) [section_byte c + 1] c)
        (\<lambda>c. kbind (push_pixel px c) (\<lambda>c. plain_run pxs (c\<lparr>lastPixelValue := px\<rparr>)))"
      using more byte last header(2) by simp
    also have "run_ok ?whole c \<dots>"
    proof (rule run_ok_bind [OF layout_set_header [OF lay]])
      fix c' assume c': "layout c' out ((section_byte c + 1) # concat qs)" "length (outputBuffer c') = length (outputBuffer c)"
      have next_h: "section_byte c + 1 = section_header False (length (qs @ [px]))"
        using byte header(4) more(2) by simp
      show "run_ok ?whole c' (kbind (push_pixel px c') (\<lambda>c. plain_run pxs (c\<lparr>lastPixelValue := px\<rparr>)))"
      proof (rule run_ok_bind)
        show "lays (push_pixel px c') c' out (((section_byte c + 1) # concat qs) @ px)"
          by (rule layout_push [OF c'(1) two(1)])
            (use fits(1) [OF step] c'(2) two size in \<open>simp add: open_bytes section_bytes_def\<close>)
        fix d assume d: "layout d out (((section_byte c + 1) # concat qs) @ px)" "length (outputBuffer d) = length (outputBuffer c')"
        have "sdk_open (d\<lparr>lastPixelValue := px\<rparr>) out (Literal (qs @ [px]))"
          using d(1) two qs more(2) next_h by (auto simp: sdk_open_def open_bytes layout_last)
        from Cons.IH [OF this two(3)] show "run_ok ?whole d (plain_run pxs (d\<lparr>lastPixelValue := px\<rparr>))"
          using fits(2) [OF step] Cons.prems(3) c'(2) d(2) by (simp add: run_ok_def section_bytes_def)
      qed
    qed
    finally show ?thesis .
  qed
qed

lemma compress_loop_ok:
  assumes "sdk_open c out sec" "\<forall>px \<in> set pxs. length px = 2"
    and "length (out @ sdk_stream sec pxs) \<le> length (outputBuffer c)"
  shows "\<exists>c'. compress_loop pxs c = Inr c' \<and> take (encodingPos c') (outputBuffer c') = out @ sdk_stream sec pxs"
  using assms
proof (induction "length pxs" arbitrary: c out sec pxs rule: less_induct)
  case less
  show ?case
  proof (cases "pxs = []")
    case True
    then show ?thesis
      using less.prems(1) by (auto simp: compress_loop.simps [of "[]"] sdk_open_def layout_def)
  next
    case False
    let ?m = "if section_byte c AND 0x80 \<noteq> 0 then common_run pxs c else plain_run pxs c"
    have "run_ok (out @ sdk_stream sec pxs) c ?m"
    proof (cases sec)
      case (Common q n)
      then have "section_byte c AND 0x80 \<noteq> 0"
        using less.prems(1) layout_byte header_facts(6) [of n True] by (auto simp: sdk_open_def open_bytes)
      then show ?thesis
        using common_run_ok less.prems unfolding Common by presburger
    next
      case (Literal qs)
      then have "qs \<noteq> []" "length qs \<le> 128" "layout c out (section_header False (length qs) # concat qs)"
        using less.prems(1) by (auto simp: sdk_open_def open_bytes)
      then have "section_byte c AND 0x80 = 0"
        using layout_byte header_facts(6) [of "length qs" False] by (simp add: Suc_le_eq)
      then show ?thesis
        using plain_run_ok less.prems unfolding Literal by presburger
    qed
    then obtain rest c' out' sec' where run: "?m = Inr (rest, c')" "sdk_open c' out' sec'"
      "out' @ sdk_stream sec' rest = out @ sdk_stream sec pxs" "\<forall>px \<in> set rest. length px = 2"
      "length (outputBuffer c') = length (outputBuffer c)"
      unfolding run_ok_def by blast
    have "length rest < length pxs"
      using run(1) common_run_shorter [of pxs c rest c'] plain_run_shorter [of pxs c rest c'] False
      by (cases pxs) (auto split: if_splits)
    from less.hyps [OF this run(2,4)] show ?thesis
      using run(1,3,5) less.prems(3) False by (simp add: compress_loop.simps [of pxs])
  qed
qed

text \<open>An array of the estimated size takes any image of at least one pixel.\<close>

lemma pixels_of_two: "\<forall>px \<in> set (pixels_of bs). length px = 2"
  by (induction bs rule: pixels_of.induct) simp_all

lemma length_pixels_of: "length (pixels_of bs) = length bs div 2"
  by (induction bs rule: pixels_of.induct) simp_all

lemma estBufferSize: "length bs < 2 ^ 62 \<Longrightarrow> estBufferSize (length bs) = length bs + (length bs div 2 + 127) div 128"
  by (simp add: estBufferSize_def drop_bit_eq_div sz_def)

lemma compress_ok:
  assumes "even (length bs)" "bs \<noteq> []" "length bs < 2 ^ 62" "length array = estBufferSize (length bs)"
  shows "\<exists>px pxs. pixels_of bs = px # pxs \<and> compress array bs = Inr (sdk_stream (Literal [px]) pxs)
    \<and> length (sdk_stream (Literal [px]) pxs) \<le> length array"
proof -
  obtain px pxs where pixels: "pixels_of bs = px # pxs"
    using assms(1,2) by (cases bs rule: pixels_of.cases) auto
  have two: "\<forall>px \<in> set (px # pxs). length px = 2"
    using pixels_of_two [of bs] pixels by simp
  have count: "length bs = 2 * length (px # pxs)"
    using length_pixels_of [of bs] assms(1) pixels by simp
  have fits: "length (sdk_stream (Literal [px]) pxs) \<le> length array"
    using length_sdk_stream [OF two] estBufferSize [OF assms(3)] count assms(4) by simp
  have three: "3 \<le> length array"
    using sdk_stream_grows [of "Literal [px]" pxs] two fits by (simp add: section_bytes_def)
  let ?c = "\<lparr>outputBuffer = buf_put 0 [0] array, encodingPos = 1, sectionHeader = 0, lastPixelValue = px\<rparr>"
  have "layout ?c [] [0]"
    using three take_buf_put [of 0 "[0]" array] by (simp add: layout_def)
  from layout_push [OF this, of px] obtain c where c: "push_pixel px ?c = Inr c" "layout c [] ([0] @ px)"
      "lastPixelValue c = px" "length (outputBuffer c) = length array"
    using two three by (auto simp: lays_def)
  have "sdk_open c [] (Literal [px])"
    using c two by (simp add: sdk_open_def open_bytes first_headers)
  from compress_loop_ok [OF this, of pxs] obtain c' where
    "compress_loop pxs c = Inr c'" "take (encodingPos c') (outputBuffer c') = sdk_stream (Literal [px]) pxs"
    using two fits c(4) by auto
  then show ?thesis
    using c(1) three pixels fits by (simp add: compress_def poke_def)
qed

text \<open>
  C27. The compressor of the SDK and the encoder of the kernel driver agree: for a non-empty buffer of
  whole pixels, the compressor never writes outside the array it sized by its estimate, and a
  receiver reads the same pixels from its output as from the kernel's, namely those of the buffer.
\<close>

theorem sdk_rle_equivalent:
  assumes "even (length bs)" "bs \<noteq> []" "length bs < 2 ^ 62" "length array = estBufferSize (length bs)"
  shows "\<exists>out. compress array bs = Inr out \<and> length out \<le> length bs + (length bs div 2 + 127) div 128
    \<and> rle_decode (length out) out = pixels_of bs
    \<and> rle_decode (length out) out = rle_decode (length (rle_bytes (pixels_of bs))) (rle_bytes (pixels_of bs))"
proof -
  obtain px pxs where ok: "pixels_of bs = px # pxs" "compress array bs = Inr (sdk_stream (Literal [px]) pxs)"
    "length (sdk_stream (Literal [px]) pxs) \<le> length array"
    using compress_ok [OF assms] by blast
  have two: "\<forall>px \<in> set (px # pxs). length px = 2"
    using pixels_of_two [of bs] ok(1) by simp
  show ?thesis
    using ok sdk_stream_decodes [OF two order.refl] rle_round_trip [OF two order.refl] assms(4) estBufferSize [OF assms(3)]
    by simp
qed

theorem sdk_rle_equivalent_witness:
  "\<exists>out. compress (replicate 9 0) [1, 2, 1, 2, 1, 2, 3, 4] = Inr out
    \<and> rle_decode (length out) out = [[1, 2], [1, 2], [1, 2], [3, 4]]"
proof -
  have "length (replicate 9 (0 :: u8)) = estBufferSize (length [1, 2, 1, 2, 1, 2, 3, 4 :: u8])"
    by (simp add: estBufferSize_def drop_bit_eq_div sz_def)
  then show ?thesis
    using sdk_rle_equivalent [of "[1, 2, 1, 2, 1, 2, 3, 4]" "replicate 9 0"] by auto
qed

end
