(* ===== verification/Sdk_Usb.thy ===== *)
theory Sdk_Usb
  imports Sdk_Util
begin

text \<open>
  The wrapper of libusb, \<^verbatim>\<open>usermode-sdk/deps-wraps/libusbx_wrap\<close>: devices, handles,
  transfers and the pipeline whose thread handles libusb's events. libusb itself is a parameter: its
  answers are functions of everything that was asked of it before. The state counts what the wrapper
  holds of it: the references to devices, and the transfers.
\<close>

subsection \<open>libusb\<close>

datatype libusb_status =
    LIBUSB_TRANSFER_COMPLETED | LIBUSB_TRANSFER_ERROR | LIBUSB_TRANSFER_TIMED_OUT
  | LIBUSB_TRANSFER_CANCELLED | LIBUSB_TRANSFER_STALL | LIBUSB_TRANSFER_NO_DEVICE
  | LIBUSB_TRANSFER_OVERFLOW | LIBUSB_TRANSFER_OTHER int

record libusb_transfer =
  xf_endpoint :: u8
  xf_type :: u8
  xf_buffer :: "nat option"
  xf_length :: int
  xf_status :: libusb_status
  xf_user_data :: bool

record libusb_device_descriptor =
  idVendor :: u16
  idProduct :: u16
  bcdDevice :: u16
  iProduct :: u8
  iSerialNumber :: u8

datatype usb_event =
    Submitted u8 u8 "u8 list" int
  | Completed libusb_status "u8 list"
  | ClearHalt u8 int
  | Claimed int int
  | Released int int
  | Opened nat int
  | Closed nat

type_synonym usb_log = "usb_event list"

text \<open>
  A completion is a status and, for an IN endpoint, the bytes that arrived; \<open>None\<close> is a
  transfer that never completes.
\<close>

record sdk_env = malloc_env +
  lib_alloc :: "usb_log \<Rightarrow> bool"
  lib_submit :: "usb_log \<Rightarrow> libusb_transfer \<Rightarrow> u8 list \<Rightarrow> int"
  lib_complete :: "usb_log \<Rightarrow> libusb_transfer \<Rightarrow> (libusb_status \<times> u8 list) option"
  lib_clear_halt :: "usb_log \<Rightarrow> u8 \<Rightarrow> int"
  lib_claim :: "usb_log \<Rightarrow> int \<Rightarrow> int"
  lib_release :: "usb_log \<Rightarrow> int \<Rightarrow> int"
  lib_init :: int
  lib_devices :: "usb_log \<Rightarrow> int + nat list"
  lib_descriptor :: "nat \<Rightarrow> int \<times> libusb_device_descriptor"
  lib_max_packet_size :: "nat \<Rightarrow> u8 \<Rightarrow> int"
  lib_open :: "usb_log \<Rightarrow> nat \<Rightarrow> int"
  lib_string :: "u8 \<Rightarrow> int \<times> string"

text \<open>
  The pipeline is the one object that \<^verbatim>\<open>ContextImpl\<close> keeps a weak pointer to:
  \<open>pl_refs\<close> counts the shared ones.
\<close>

record PipelineImpl =
  pl_working :: bool
  pl_thread :: bool
  pl_refs :: nat

record usb_state = util_state +
  usb_events :: usb_log
  default_context :: bool
  pipeline :: "PipelineImpl option"
  dev_refs :: "nat \<Rightarrow> int"
  live_transfers :: int

type_synonym ('z, 'a) usb_act = "('z usb_state_scheme, 'a) act"

definition log_event :: "usb_event \<Rightarrow> 'z usb_state_scheme \<Rightarrow> 'z usb_state_scheme" where
  "log_event e s = s\<lparr>usb_events := usb_events s @ [e]\<rparr>"

text \<open>A call of libusb that answers 0 or an error code, which the wrapper throws.\<close>

definition checked :: "(usb_log \<Rightarrow> int) \<Rightarrow> (int \<Rightarrow> usb_event) \<Rightarrow> ('z, unit) usb_act" where
  "checked answer event s =
     (let result = answer (usb_events s); s = log_event (event result) s
      in if result \<noteq> 0 then throw (Exception result [] []) s else (Inr (), s))"

subsection \<open>Enumerations\<close>

datatype EndpointDirection = EndpointDirectionIn | EndpointDirectionOut

datatype EndpointTransferType =
    EndpointTransferTypeControl | EndpointTransferTypeIsochronous
  | EndpointTransferTypeBulk | EndpointTransferTypeInterrupt

fun transfer_type_code :: "EndpointTransferType \<Rightarrow> u8" where
  "transfer_type_code EndpointTransferTypeControl = 0"
| "transfer_type_code EndpointTransferTypeIsochronous = 1"
| "transfer_type_code EndpointTransferTypeBulk = 2"
| "transfer_type_code EndpointTransferTypeInterrupt = 3"

datatype TransferStatus =
    TransferStatusUnknown | TransferStatusCompleted | TransferStatusCancelled | TransferStatusError
  | TransferStatusTimeout | TransferStatusStall | TransferStatusDeviceError | TransferStatusOverflow

fun status_code :: "TransferStatus \<Rightarrow> int" where
  "status_code TransferStatusUnknown = 0"
| "status_code TransferStatusCompleted = 1"
| "status_code TransferStatusCancelled = 2"
| "status_code TransferStatusError = 3"
| "status_code TransferStatusTimeout = 4"
| "status_code TransferStatusStall = 5"
| "status_code TransferStatusDeviceError = 6"
| "status_code TransferStatusOverflow = 7"

subsection \<open>Devices\<close>

text \<open>
  A \<^verbatim>\<open>Device\<close> is the number libusb lists it under. Each such object holds one
  reference to it, from its constructor to its destructor.
\<close>

definition Device_new :: "nat \<Rightarrow> ('z, unit) usb_act" where
  "Device_new device = act_put (dev_refs_update (\<lambda>r. r(device := r device + 1)))"

definition Device_destroy :: "nat \<Rightarrow> ('z, unit) usb_act" where
  "Device_destroy device = act_put (dev_refs_update (\<lambda>r. r(device := r device - 1)))"

definition getDescriptor :: "'e sdk_env_scheme \<Rightarrow> nat \<Rightarrow> ('z, libusb_device_descriptor) usb_act" where
  "getDescriptor env device =
     (case lib_descriptor env device of (result, descriptor) \<Rightarrow>
        if result \<noteq> 0 then throw (Exception result [] []) else act_return descriptor)"

definition getVid :: "'e sdk_env_scheme \<Rightarrow> nat \<Rightarrow> ('z, u16) usb_act" where
  "getVid env device = act_bind (getDescriptor env device) (\<lambda>d. act_return (idVendor d))"

definition getPid :: "'e sdk_env_scheme \<Rightarrow> nat \<Rightarrow> ('z, u16) usb_act" where
  "getPid env device = act_bind (getDescriptor env device) (\<lambda>d. act_return (idProduct d))"

definition getNameIndex :: "'e sdk_env_scheme \<Rightarrow> nat \<Rightarrow> ('z, u8) usb_act" where
  "getNameIndex env device = act_bind (getDescriptor env device) (\<lambda>d. act_return (iProduct d))"

definition getSerialNumberIndex :: "'e sdk_env_scheme \<Rightarrow> nat \<Rightarrow> ('z, u8) usb_act" where
  "getSerialNumberIndex env device = act_bind (getDescriptor env device) (\<lambda>d. act_return (iSerialNumber d))"

definition getFirmwareVersion :: "'e sdk_env_scheme \<Rightarrow> nat \<Rightarrow> ('z, u16) usb_act" where
  "getFirmwareVersion env device = act_bind (getDescriptor env device) (\<lambda>d. act_return (bcdDevice d))"

definition getMaxPacketSize :: "'e sdk_env_scheme \<Rightarrow> nat \<Rightarrow> u8 \<Rightarrow> ('z, int) usb_act" where
  "getMaxPacketSize env device endpoint = act_return (lib_max_packet_size env device endpoint)"

text \<open>
  A \<^verbatim>\<open>DeviceHandle\<close> is represented by its device, which it keeps: the destructor closes
  the handle, then the device goes.
\<close>

definition Device_open :: "'e sdk_env_scheme \<Rightarrow> nat \<Rightarrow> ('z, nat) usb_act" where
  "Device_open env device s =
     (let result = lib_open env (usb_events s) device; s = log_event (Opened device result) s
      in if result < 0 then throw (Exception result [] []) s else (Inr device, s))"

definition DeviceHandle_destroy :: "nat \<Rightarrow> ('z, unit) usb_act" where
  "DeviceHandle_destroy handle = act_bind (act_put (log_event (Closed handle))) (\<lambda>u. Device_destroy handle)"

text \<open>
  \<^verbatim>\<open>char[256]\<close> takes what libusb wrote and the terminating 0; the answer is read up
  to the first 0.
\<close>

definition getStringDescriptorAscii :: "'e sdk_env_scheme \<Rightarrow> u8 \<Rightarrow> ('z, string) usb_act" where
  "getStringDescriptorAscii env index =
     (case lib_string env index of (n, text) \<Rightarrow>
        if n < 0 then throw (Exception n [] [])
        else if n \<ge> 256 then act_stop (Crash OutOfBounds)
        else act_return (takeWhile (\<lambda>c. c \<noteq> CHR 0x00) (take (nat n) text)))"

definition getName :: "'e sdk_env_scheme \<Rightarrow> nat \<Rightarrow> ('z, string) usb_act" where
  "getName env device = act_bind (getNameIndex env device) (getStringDescriptorAscii env)"

definition getSerialNumber :: "'e sdk_env_scheme \<Rightarrow> nat \<Rightarrow> ('z, string) usb_act" where
  "getSerialNumber env device = act_bind (getSerialNumberIndex env device) (getStringDescriptorAscii env)"

definition claimInterface :: "'e sdk_env_scheme \<Rightarrow> int \<Rightarrow> ('z, unit) usb_act" where
  "claimInterface env i = checked (\<lambda>l. lib_claim env l i) (Claimed i)"

definition releaseInterface :: "'e sdk_env_scheme \<Rightarrow> int \<Rightarrow> ('z, unit) usb_act" where
  "releaseInterface env i = checked (\<lambda>l. lib_release env l i) (Released i)"

definition clearEndpointHalt :: "'e sdk_env_scheme \<Rightarrow> u8 \<Rightarrow> ('z, unit) usb_act" where
  "clearEndpointHalt env endpoint = checked (\<lambda>l. lib_clear_halt env l endpoint) (ClearHalt endpoint)"

text \<open>
  \<^verbatim>\<open>InterfaceScope\<close>: the interface is claimed for as long as the object lives. An exception
  from the destructor terminates the program.
\<close>

definition InterfaceScope_new :: "'e sdk_env_scheme \<Rightarrow> int \<Rightarrow> ('z, unit) usb_act" where
  "InterfaceScope_new env usbInterface = claimInterface env usbInterface"

definition InterfaceScope_destroy :: "'e sdk_env_scheme \<Rightarrow> int \<Rightarrow> ('z, unit) usb_act" where
  "InterfaceScope_destroy env usbInterface =
     act_catch (releaseInterface env usbInterface) (\<lambda>e. act_stop Terminate)"

subsection \<open>The list of devices\<close>

text \<open>
  libusb answers a list with a reference to each device of it; the list is freed together with
  these references.
\<close>

record DeviceListImpl =
  list_size :: nat
  list_devices :: "nat list"

definition Context_getDeviceList :: "'e sdk_env_scheme \<Rightarrow> ('z, DeviceListImpl) usb_act" where
  "Context_getDeviceList env s =
     (case lib_devices env (usb_events s) of
        Inl n \<Rightarrow> throw (Exception n [] []) s
      | Inr devices \<Rightarrow> (Inr \<lparr>list_size = length devices, list_devices = devices\<rparr>,
          dev_refs_update (\<lambda>r d. r d + int (count_list devices d)) s))"

definition DeviceList_destroy :: "DeviceListImpl \<Rightarrow> ('z, unit) usb_act" where
  "DeviceList_destroy devices =
     act_put (dev_refs_update (\<lambda>r d. r d - int (count_list (list_devices devices) d)))"

definition DeviceList_getDevice :: "DeviceListImpl \<Rightarrow> nat \<Rightarrow> ('z, nat option) usb_act" where
  "DeviceList_getDevice devices i =
     (if i \<ge> list_size devices then act_return None
      else let device = list_devices devices ! i
           in act_bind (Device_new device) (\<lambda>u. act_return (Some device)))"

definition DeviceList_count :: "DeviceListImpl \<Rightarrow> nat" where
  "DeviceList_count devices = list_size devices"

fun Devices_destroy :: "nat list \<Rightarrow> ('z, unit) usb_act" where
  "Devices_destroy [] = act_return ()"
| "Devices_destroy (d # ds) = act_bind (Device_destroy d) (\<lambda>u. Devices_destroy ds)"

text \<open>Whether a device has the two identifiers: the second is only asked for if the first matches.\<close>

definition has_ids :: "'e sdk_env_scheme \<Rightarrow> u16 \<Rightarrow> u16 \<Rightarrow> nat \<Rightarrow> ('z, bool) usb_act" where
  "has_ids env vid pid device =
     act_bind (getVid env device) (\<lambda>v.
     if v = vid then act_bind (getPid env device) (\<lambda>p. act_return (p = pid)) else act_return False)"

text \<open>
  The loop over the list from an index on; a null device is dereferenced. A device that does not
  match goes at the end of its round, and so does everything if a descriptor cannot be read.
\<close>

function lookup_from :: "'e sdk_env_scheme \<Rightarrow> u16 \<Rightarrow> u16 \<Rightarrow> DeviceListImpl \<Rightarrow> nat \<Rightarrow> nat list
    \<Rightarrow> ('z, nat list) usb_act" where
  "lookup_from env vid pid devices i out =
     (if i < DeviceList_count devices then
        act_bind (DeviceList_getDevice devices i) (\<lambda>entry.
        case entry of
          None \<Rightarrow> act_stop (Crash NullDeref)
        | Some device \<Rightarrow>
            act_bind (on_throw (has_ids env vid pid device)
                        (act_bind (Device_destroy device) (\<lambda>u. Devices_destroy out))) (\<lambda>ok.
            act_bind (if ok then act_return () else Device_destroy device) (\<lambda>u.
            lookup_from env vid pid devices (Suc i) (if ok then out @ [device] else out))))
      else act_return out)"
  by pat_completeness auto
termination
  by (relation "measure (\<lambda>(env, vid, pid, devices, i, out). DeviceList_count devices - i)") auto

declare lookup_from.simps [simp del]

definition lookupDevices :: "'e sdk_env_scheme \<Rightarrow> u16 \<Rightarrow> u16 \<Rightarrow> ('z, nat list) usb_act" where
  "lookupDevices env vid pid =
     act_bind (Context_getDeviceList env) (\<lambda>devices.
     act_finally (lookup_from env vid pid devices 0 []) (DeviceList_destroy devices))"

subsection \<open>The pipeline\<close>

definition defaultContext :: "'e sdk_env_scheme \<Rightarrow> ('z, unit) usb_act" where
  "defaultContext env s =
     (if default_context s then (Inr (), s)
      else if lib_init env \<noteq> 0 then throw (Exception (lib_init env) [] []) s
      else (Inr (), s\<lparr>default_context := True\<rparr>))"

definition summonPipeline :: "('z, unit) usb_act" where
  "summonPipeline s =
     (case pipeline s of
        None \<Rightarrow> (Inr (), s\<lparr>pipeline := Some \<lparr>pl_working = False, pl_thread = False, pl_refs = 1\<rparr>\<rparr>)
      | Some p \<Rightarrow> (Inr (), s\<lparr>pipeline := Some (p\<lparr>pl_refs := pl_refs p + 1\<rparr>)\<rparr>))"

definition Pipeline_start :: "('z, unit) usb_act" where
  "Pipeline_start s = (Inr (), s\<lparr>pipeline := map_option (\<lambda>p. p\<lparr>pl_working := True, pl_thread := True\<rparr>) (pipeline s)\<rparr>)"

text \<open>A shared pointer goes: the last one stops the loop of the thread and joins it.\<close>

definition Pipeline_release :: "('z, unit) usb_act" where
  "Pipeline_release s =
     (Inr (), s\<lparr>pipeline := (case pipeline s of None \<Rightarrow> None
        | Some p \<Rightarrow> if pl_refs p \<le> 1 then None else Some (p\<lparr>pl_refs := pl_refs p - 1\<rparr>))\<rparr>)"

text \<open>The thread of the pipeline runs: \<^verbatim>\<open>poll\<close> handles the events of libusb.\<close>

definition polling :: "'z usb_state_scheme \<Rightarrow> bool" where
  "polling s \<longleftrightarrow> (case pipeline s of None \<Rightarrow> False | Some p \<Rightarrow> pl_working p \<and> pl_thread p)"

subsection \<open>Transfers\<close>

record TransferImpl =
  completion :: bool
  transferBuffer :: "nat option"
  handle :: libusb_transfer

definition DeviceHandle_allocTransfer :: "'e sdk_env_scheme \<Rightarrow> EndpointDirection \<Rightarrow> EndpointTransferType \<Rightarrow> u8
    \<Rightarrow> ('z, libusb_transfer) usb_act" where
  "DeviceHandle_allocTransfer env dir type endpoint s =
     (if \<not> lib_alloc env (usb_events s) then throw (Exception (-1) [] []) s
      else (Inr \<lparr>xf_endpoint = (if dir = EndpointDirectionIn then endpoint OR 0x80 else endpoint AND 0x0f),
                 xf_type = transfer_type_code type, xf_buffer = None, xf_length = 0,
                 xf_status = LIBUSB_TRANSFER_COMPLETED, xf_user_data = False\<rparr>,
            live_transfers_update (\<lambda>n. n + 1) s))"

definition TransferImpl_new :: "libusb_transfer \<Rightarrow> TransferImpl" where
  "TransferImpl_new transfer =
     \<lparr>completion = False, transferBuffer = None, handle = transfer\<lparr>xf_user_data := False\<rparr>\<rparr>"

definition allocTransfer :: "'e sdk_env_scheme \<Rightarrow> EndpointDirection \<Rightarrow> EndpointTransferType \<Rightarrow> u8
    \<Rightarrow> ('z, TransferImpl) usb_act" where
  "allocTransfer env dir type endpoint =
     act_bind (DeviceHandle_allocTransfer env dir type endpoint) (\<lambda>t. act_return (TransferImpl_new t))"

definition releaseTransferBuffer :: "TransferImpl \<Rightarrow> ('z, TransferImpl) usb_act" where
  "releaseTransferBuffer t =
     (case transferBuffer t of
        None \<Rightarrow> act_return t
      | Some b \<Rightarrow>
          (case xf_buffer (handle t) of
             None \<Rightarrow> throw (Exception (-1) ''Unlocking wrong naked buffer'' [])
           | Some address \<Rightarrow>
               act_bind (Buffer_unlock b address) (\<lambda>u.
               act_bind (Buffer_unref b) (\<lambda>u.
               act_return (t\<lparr>transferBuffer := None, handle := (handle t)\<lparr>xf_buffer := None, xf_length := 0\<rparr>\<rparr>)))))"

definition setTransferBuffer :: "nat \<Rightarrow> TransferImpl \<Rightarrow> ('z, TransferImpl) usb_act" where
  "setTransferBuffer b t =
     act_bind (releaseTransferBuffer t) (\<lambda>t.
     act_bind (Buffer_ref b) (\<lambda>u.
     act_bind (Buffer_lock b) (\<lambda>address.
     act_bind (Buffer_size b) (\<lambda>size.
     act_return (t\<lparr>transferBuffer := Some b,
                   handle := (handle t)\<lparr>xf_buffer := Some address, xf_length := c_int (int size)\<rparr>\<rparr>)))))"

text \<open>What libusb sends: the bytes behind the address of the transfer.\<close>

definition xf_bytes :: "libusb_transfer \<Rightarrow> 'z util_state_scheme \<Rightarrow> u8 list" where
  "xf_bytes t s = (case xf_buffer t of None \<Rightarrow> [] | Some address \<Rightarrow> nakedBuffer (bufs s ! address))"

definition submit :: "'e sdk_env_scheme \<Rightarrow> TransferImpl \<Rightarrow> ('z, TransferImpl) usb_act" where
  "submit env t s =
     (let t = t\<lparr>handle := (handle t)\<lparr>xf_user_data := True\<rparr>\<rparr>;
          bytes = take (nat (xf_length (handle t))) (xf_bytes (handle t) s);
          result = lib_submit env (usb_events s) (handle t) bytes;
          s = log_event (Submitted (xf_endpoint (handle t)) (xf_type (handle t)) bytes result) s
      in if result \<noteq> 0 then throw (Exception result [] []) s else (Inr t, s))"

definition transferCallback :: "TransferImpl \<Rightarrow> TransferImpl" where
  "transferCallback t = (if xf_user_data (handle t) then t\<lparr>completion := True\<rparr> else t)"

text \<open>
  While a thread waits, the thread of the pipeline completes the transfer: the status and, for an IN
  endpoint, the bytes are stored, and the callback sets the flag the condition variable is about.
\<close>

definition complete_transfer :: "libusb_status \<Rightarrow> u8 list \<Rightarrow> TransferImpl \<Rightarrow> 'z usb_state_scheme
    \<Rightarrow> TransferImpl \<times> 'z usb_state_scheme" where
  "complete_transfer status data t s =
     (let s = log_event (Completed status data) s;
          s = (case xf_buffer (handle t) of
                 Some address \<Rightarrow>
                   if xf_endpoint (handle t) AND 0x80 \<noteq> 0
                   then set_buf address (nakedBuffer_update (buf_put 0 (take (nat (xf_length (handle t))) data))) s else s
               | None \<Rightarrow> s)
      in (transferCallback (t\<lparr>handle := (handle t)\<lparr>xf_status := status\<rparr>\<rparr>), s))"

definition waitForCompletion :: "'e sdk_env_scheme \<Rightarrow> TransferImpl \<Rightarrow> ('z, TransferImpl) usb_act" where
  "waitForCompletion env t s =
     (if completion t then (Inr (t\<lparr>completion := False\<rparr>), s)
      else if \<not> polling s then (Inl Hang, s)
      else case lib_complete env (usb_events s) (handle t) of
             None \<Rightarrow> (Inl Hang, s)
           | Some (status, data) \<Rightarrow>
               (case complete_transfer status data t s of (t, s) \<Rightarrow>
                  if completion t then (Inr (t\<lparr>completion := False\<rparr>), s) else (Inl Hang, s)))"

definition getStatus :: "TransferImpl \<Rightarrow> TransferStatus" where
  "getStatus t = (case xf_status (handle t) of
     LIBUSB_TRANSFER_COMPLETED \<Rightarrow> TransferStatusCompleted
   | LIBUSB_TRANSFER_CANCELLED \<Rightarrow> TransferStatusCancelled
   | LIBUSB_TRANSFER_ERROR \<Rightarrow> TransferStatusError
   | LIBUSB_TRANSFER_TIMED_OUT \<Rightarrow> TransferStatusTimeout
   | LIBUSB_TRANSFER_STALL \<Rightarrow> TransferStatusStall
   | LIBUSB_TRANSFER_NO_DEVICE \<Rightarrow> TransferStatusDeviceError
   | LIBUSB_TRANSFER_OVERFLOW \<Rightarrow> TransferStatusOverflow
   | LIBUSB_TRANSFER_OTHER n \<Rightarrow> TransferStatusUnknown)"

definition Transfer_destroy :: "TransferImpl \<Rightarrow> ('z, unit) usb_act" where
  "Transfer_destroy t =
     act_bind (releaseTransferBuffer t) (\<lambda>t. act_put (live_transfers_update (\<lambda>n. n - 1)))"

text \<open>\<^verbatim>\<open>decodeAs\<close>: the first bytes of a copy of the transfer's buffer.\<close>

definition decodeAs :: "'e sdk_env_scheme \<Rightarrow> nat \<Rightarrow> TransferImpl \<Rightarrow> ('z, u8 list) usb_act" where
  "decodeAs env n t =
     (case transferBuffer t of
        None \<Rightarrow> act_stop (Crash NullDeref)
      | Some b \<Rightarrow>
          act_bind (Buffer_clone env b) (\<lambda>copy.
          shared_buffer copy (BufferLockScope copy (\<lambda>address. mem_read address 0 n))))"

end
