(* ===== verification/Sdk_Driver.thy ===== *)
theory Sdk_Driver
  imports Sdk_Packets Sdk_Rle Sdk_Usb
begin

text \<open>
  The display class of the user-mode SDK, \<^verbatim>\<open>rpusbdisp-drv/src/rpusbdisp.cc\<close>: opening
  a device, the drawing commands, the thread that fetches the status.
\<close>

subsection \<open>The object\<close>

definition UsbDeviceVendorId :: u16 where "UsbDeviceVendorId = 0xFCCF"
definition UsbDeviceProductId :: u16 where "UsbDeviceProductId = 0xA001"
definition UsbDeviceStatusEndpoint :: u8 where "UsbDeviceStatusEndpoint = 0x82"
definition UsbDeviceDisplayEndpoint :: u8 where "UsbDeviceDisplayEndpoint = 0x01"
definition ScreenWidth :: int where "ScreenWidth = 320"
definition ScreenHeight :: int where "ScreenHeight = 240"

definition MIN_VERSION_FILL :: u16 where "MIN_VERSION_FILL = 0x0104"
definition MIN_VERSION_BITBLT_RLE :: u16 where "MIN_VERSION_BITBLT_RLE = 0x0104"
definition MIN_VERSION_COPY_AREA_BUG_FIX :: u16 where "MIN_VERSION_COPY_AREA_BUG_FIX = 0x0104"

lemmas sdk_versions = MIN_VERSION_FILL_def MIN_VERSION_BITBLT_RLE_def MIN_VERSION_COPY_AREA_BUG_FIX_def

datatype RoboPeakUsbDisplayBitOperation =
    RoboPeakUsbDisplayBitOperationCopy | RoboPeakUsbDisplayBitOperationXor
  | RoboPeakUsbDisplayBitOperationOr | RoboPeakUsbDisplayBitOperationAnd

fun bit_operation_code :: "RoboPeakUsbDisplayBitOperation \<Rightarrow> u8" where
  "bit_operation_code RoboPeakUsbDisplayBitOperationCopy = 0"
| "bit_operation_code RoboPeakUsbDisplayBitOperationXor = 1"
| "bit_operation_code RoboPeakUsbDisplayBitOperationOr = 2"
| "bit_operation_code RoboPeakUsbDisplayBitOperationAnd = 3"

text \<open>
  \<open>statusCallback\<close> says whether a callback is set; the callback is the client's code, so
  \<open>callback_log\<close> keeps what it was called with. \<open>status_started\<close> is the once flag of
  the status thread.
\<close>

record RoboPeakUsbDisplayDeviceImpl =
  status :: rpusbdisp_status_normal_packet_t
  statusCallback :: bool
  working :: bool
  status_started :: bool
  device :: nat
  own_pipeline :: bool
  maxPacketSize :: int

record disp_state = usb_state +
  impl :: RoboPeakUsbDisplayDeviceImpl
  callback_log :: "rpusbdisp_status_normal_packet_t list"
  slept_ms :: nat

record disp_env = sdk_env +
  big_endian :: bool

type_synonym ('z, 'a) disp_act = "('z disp_state_scheme, 'a) act"

definition set_impl :: "(RoboPeakUsbDisplayDeviceImpl \<Rightarrow> RoboPeakUsbDisplayDeviceImpl)
    \<Rightarrow> ('z, unit) disp_act" where
  "set_impl f = act_put (\<lambda>s. s\<lparr>impl := f (impl s)\<rparr>)"

text \<open>The packet type of the initial status is not set by the constructor.\<close>

definition DeviceImpl_new :: "'e disp_env_scheme \<Rightarrow> nat \<Rightarrow> ('z, unit) disp_act" where
  "DeviceImpl_new env d =
     act_bind (InterfaceScope_new env 0) (\<lambda>u.
     act_bind (getMaxPacketSize env d UsbDeviceDisplayEndpoint) (\<lambda>n.
     set_impl (\<lambda>i. \<lparr>status = \<lparr>packet_type = hd (fresh_bytes env 1), display_status = 0x80, touch_status = 0,
                              touch_x = 0, touch_y = 0\<rparr>,
                    statusCallback = False, working = False, status_started = False, device = d,
                    own_pipeline = False, maxPacketSize = n\<rparr>)))"

text \<open>
  The destructor joins the status thread, which ends when its transfer does
  (\<open>thread_ends\<close>); then the members go.
\<close>

definition DeviceImpl_destroy :: "'e disp_env_scheme \<Rightarrow> bool \<Rightarrow> ('z, unit) disp_act" where
  "DeviceImpl_destroy env thread_ends =
     act_bind (set_impl (working_update (\<lambda>_. False))) (\<lambda>u.
     act_bind (act_get impl) (\<lambda>i.
     if status_started i \<and> \<not> thread_ends then act_stop Hang
     else act_bind (if own_pipeline i then Pipeline_release else act_return ()) (\<lambda>u.
          act_bind (InterfaceScope_destroy env 0) (\<lambda>u. DeviceHandle_destroy (device i)))))"

definition setStatusUpdatedCallback :: "('z, unit) disp_act" where
  "setStatusUpdatedCallback = set_impl (statusCallback_update (\<lambda>_. True))"

definition Impl_getStatus :: "('z, rpusbdisp_status_normal_packet_t) disp_act" where
  "Impl_getStatus = act_get (\<lambda>s. status (impl s))"

definition getWidth :: int where "getWidth = ScreenWidth"

definition getHeight :: int where "getHeight = ScreenHeight"

definition isAlive :: "('z, bool) disp_act" where
  "isAlive = act_get (\<lambda>s. working (impl s))"

definition Impl_getDevice :: "('z, nat) disp_act" where
  "Impl_getDevice = act_get (\<lambda>s. device (impl s))"

definition firmware :: "'e disp_env_scheme \<Rightarrow> ('z, u16) disp_act" where
  "firmware env = act_bind Impl_getDevice (getFirmwareVersion env)"

subsection \<open>Sending\<close>

text \<open>The submission of a prepared transfer, the wait and the check of its status.\<close>

definition transfer_now :: "'e disp_env_scheme \<Rightarrow> TransferImpl \<Rightarrow> ('z, unit) disp_act" where
  "transfer_now env t =
     act_bind (submit env t) (\<lambda>t.
     act_bind (waitForCompletion env t) (\<lambda>t.
     case getStatus t of
       TransferStatusCompleted \<Rightarrow> act_return ()
     | st \<Rightarrow> throw (Exception (status_code st) [] [])))"

definition send_transfer :: "'e disp_env_scheme \<Rightarrow> nat \<Rightarrow> ('z, unit) disp_act" where
  "send_transfer env b =
     act_bind (allocTransfer env EndpointDirectionOut EndpointTransferTypeBulk UsbDeviceDisplayEndpoint) (\<lambda>t.
     act_bind (setTransferBuffer b t) (\<lambda>t.
     act_finally (transfer_now env t) (Transfer_destroy t)))"

text \<open>
  Like a command, but with a pipeline of its own for the time of the call. The source returns the
  transfer, whose status is then looked at.
\<close>

definition sendDataToDisplayEndpoint :: "'e disp_env_scheme \<Rightarrow> nat \<Rightarrow> ('z, unit) disp_act" where
  "sendDataToDisplayEndpoint env b =
     act_bind (allocTransfer env EndpointDirectionOut EndpointTransferTypeBulk 0x01) (\<lambda>t.
     act_bind (setTransferBuffer b t) (\<lambda>t.
     act_finally
       (act_bind (defaultContext env) (\<lambda>u.
        act_bind summonPipeline (\<lambda>u.
        act_finally (act_bind Pipeline_start (\<lambda>u. transfer_now env t)) Pipeline_release)))
       (Transfer_destroy t)))"

text \<open>The first part of a command: the packet and its payload, one after the other.\<close>

definition gather :: "u8 list \<Rightarrow> nat option \<Rightarrow> nat \<Rightarrow> ('z, unit) disp_act" where
  "gather packet payload scoped =
     act_bind (mem_write scoped 0 packet) (\<lambda>u.
     case payload of
       None \<Rightarrow> act_return ()
     | Some b \<Rightarrow>
         BufferLockScope b (\<lambda>p.
           act_bind (Buffer_size b) (\<lambda>n.
           act_bind (mem_read p 0 n) (mem_write scoped (length packet)))))"

text \<open>Filling the locked transfer buffer.\<close>

definition fill_packets :: "nat \<Rightarrow> nat \<Rightarrow> nat \<Rightarrow> ('z, unit) disp_act" where
  "fill_packets packet_count scoped naked s =
     (case write_packets (maxPacketSize (impl s))
            (display_status (status (impl s)) AND RPUSBDISP_DISPLAY_STATUS_DIRTY_FLAG \<noteq> 0)
            (nakedBuffer (bufs s ! scoped)) [0..<packet_count] (nakedBuffer (bufs s ! naked)) of
        Inl ft \<Rightarrow> act_stop (Crash ft) s
      | Inr bytes \<Rightarrow> (Inr (), set_buf naked (nakedBuffer_update (\<lambda>_. bytes)) s))"

definition sendCommandToDisplayEndpoint :: "'e disp_env_scheme \<Rightarrow> u8 list \<Rightarrow> nat option
    \<Rightarrow> ('z, unit) disp_act" where
  "sendCommandToDisplayEndpoint env packet payload =
     act_bind (case payload of None \<Rightarrow> act_return 0 | Some b \<Rightarrow> Buffer_size b) (\<lambda>n.
     act_bind (act_get (\<lambda>s. maxPacketSize (impl s))) (\<lambda>mps.
     let totalSize = sz (length packet + n)
     in act_bind (act_lift (packetCount mps totalSize)) (\<lambda>packet_count.
        act_bind (Buffer_new env totalSize) (\<lambda>overallBuffer.
        shared_buffer overallBuffer (BufferLockScope overallBuffer (\<lambda>scoped.
          act_bind (gather packet payload scoped) (\<lambda>u.
          act_bind (Buffer_new env (sz_sub (sz (totalSize + packet_count)) 1)) (\<lambda>tb.
          shared_buffer tb
            (act_bind (BufferLockScope tb (fill_packets packet_count scoped)) (\<lambda>u.
             send_transfer env tb))))))))))"

subsection \<open>Commands\<close>

text \<open>The packets in memory: the fields in the order of the host.\<close>

definition sdk_fill_bytes :: "bool \<Rightarrow> rpusbdisp_disp_fill_packet_t \<Rightarrow> u8 list" where
  "sdk_fill_bytes big p = header_bytes (fill_header p) @ host16 big (fill_color_565 p)"

definition sdk_bitblt_bytes :: "bool \<Rightarrow> rpusbdisp_disp_bitblt_packet_t \<Rightarrow> u8 list" where
  "sdk_bitblt_bytes big p = header_bytes (bitblt_header p) @ host16 big (bitblt_x p)
     @ host16 big (bitblt_y p) @ host16 big (bitblt_width p) @ host16 big (bitblt_height p)
     @ [bitblt_operation p]"

definition sdk_fillrect_bytes :: "bool \<Rightarrow> rpusbdisp_disp_fillrect_packet_t \<Rightarrow> u8 list" where
  "sdk_fillrect_bytes big p = header_bytes (fillrect_header p) @ host16 big (fillrect_left p)
     @ host16 big (fillrect_top p) @ host16 big (fillrect_right p) @ host16 big (fillrect_bottom p)
     @ host16 big (fillrect_color_565 p) @ [fillrect_operation p]"

definition sdk_copyarea_bytes :: "bool \<Rightarrow> rpusbdisp_disp_copyarea_packet_t \<Rightarrow> u8 list" where
  "sdk_copyarea_bytes big p = header_bytes (copyarea_header p) @ host16 big (copyarea_sx p)
     @ host16 big (copyarea_sy p) @ host16 big (copyarea_dx p) @ host16 big (copyarea_dy p)
     @ host16 big (copyarea_width p) @ host16 big (copyarea_height p)"

definition sdk_fillrect :: "'e disp_env_scheme \<Rightarrow> u16 \<Rightarrow> u16 \<Rightarrow> u16 \<Rightarrow> u16 \<Rightarrow> u16
    \<Rightarrow> RoboPeakUsbDisplayBitOperation \<Rightarrow> ('z, unit) disp_act" where
  "sdk_fillrect env left' top' right' bottom' color bitOperation =
     (let le = sdk_cpu_to_le16 (big_endian env)
      in sendCommandToDisplayEndpoint env (sdk_fillrect_bytes (big_endian env)
           \<lparr>fillrect_header = \<lparr>cmd_flag = RPUSBDISP_DISPCMD_RECT\<rparr>, fillrect_left = le left',
            fillrect_top = le top', fillrect_right = le right', fillrect_bottom = le bottom',
            fillrect_color_565 = color, fillrect_operation = bit_operation_code bitOperation\<rparr>) None)"

definition sdk_fill :: "'e disp_env_scheme \<Rightarrow> u16 \<Rightarrow> ('z, unit) disp_act" where
  "sdk_fill env color =
     act_bind (firmware env) (\<lambda>version.
     if version < MIN_VERSION_FILL
     then sdk_fillrect env 0 0 (word_of_int (getWidth - 1)) (word_of_int (getHeight - 1)) color
            RoboPeakUsbDisplayBitOperationCopy
     else sendCommandToDisplayEndpoint env (sdk_fill_bytes (big_endian env)
            \<lparr>fill_header = \<lparr>cmd_flag = RPUSBDISP_DISPCMD_FILL\<rparr>,
             fill_color_565 = sdk_cpu_to_le16 (big_endian env) color\<rparr>) None)"

text \<open>
  \<^verbatim>\<open>rleCompress\<close> on a buffer: the array is not freed when the result cannot be
  allocated, which the model does not see.
\<close>

definition rleCompress :: "'e disp_env_scheme \<Rightarrow> nat \<Rightarrow> ('z, nat) disp_act" where
  "rleCompress env b =
     act_bind (Buffer_size b) (\<lambda>n.
     if odd n then throw (Exception (-1) ''Rle should align in 2 bytes'' [])
     else BufferLockScope b (\<lambda>address.
       act_bind (mem_read address 0 n) (\<lambda>bytes.
       act_bind (act_lift (compress (fresh_bytes env (estBufferSize n)) bytes)) (\<lambda>out.
       act_bind (Buffer_new env (length out)) (\<lambda>outputTransferBuffer.
       BufferLockScope outputTransferBuffer (\<lambda>naked.
         act_bind (mem_write naked 0 out) (\<lambda>u. act_return outputTransferBuffer)))))))"

text \<open>
  \<open>pixels\<close> is what the client's pointer points to. The size is computed as an
  \<^verbatim>\<open>int\<close>. The compressed payload replaces the other one, which goes.
\<close>

definition payload_size :: "u16 \<Rightarrow> u16 \<Rightarrow> nat" where
  "payload_size width height = size_t (c_int (c_int (uint width * uint height) * 2))"

definition sdk_bitblt :: "'e disp_env_scheme \<Rightarrow> u16 \<Rightarrow> u16 \<Rightarrow> u16 \<Rightarrow> u16 \<Rightarrow> RoboPeakUsbDisplayBitOperation
    \<Rightarrow> u8 list \<Rightarrow> ('z, unit) disp_act" where
  "sdk_bitblt env x y width height bitOperation pixels =
     (let n = payload_size width height; le = sdk_cpu_to_le16 (big_endian env)
      in act_bind (Buffer_new env n) (\<lambda>payload.
         act_bind (on_throw
             (act_bind (BufferLockScope payload (\<lambda>naked.
                if length pixels < n then act_stop (Crash OutOfBounds) else mem_write naked 0 (take n pixels))) (\<lambda>u.
              act_bind (firmware env) (\<lambda>version.
              if version < MIN_VERSION_BITBLT_RLE then act_return (RPUSBDISP_DISPCMD_BITBLT, payload)
              else act_bind (rleCompress env payload) (\<lambda>b.
                   act_bind (Buffer_unref payload) (\<lambda>u. act_return (RPUSBDISP_DISPCMD_BITBLT_RLE, b))))))
             (Buffer_unref payload))
           (\<lambda>(cmd, payload).
         shared_buffer payload (sendCommandToDisplayEndpoint env (sdk_bitblt_bytes (big_endian env)
           \<lparr>bitblt_header = \<lparr>cmd_flag = cmd\<rparr>, bitblt_x = le x, bitblt_y = le y, bitblt_width = le width,
            bitblt_height = le height, bitblt_operation = bit_operation_code bitOperation\<rparr>) (Some payload)))))"

definition sdk_copyArea :: "'e disp_env_scheme \<Rightarrow> u16 \<Rightarrow> u16 \<Rightarrow> u16 \<Rightarrow> u16 \<Rightarrow> u16 \<Rightarrow> u16
    \<Rightarrow> ('z, unit) disp_act" where
  "sdk_copyArea env srcX srcY destX destY width height =
     (let le = sdk_cpu_to_le16 (big_endian env);
          packet = sdk_copyarea_bytes (big_endian env)
            \<lparr>copyarea_header = \<lparr>cmd_flag = RPUSBDISP_DISPCMD_COPY_AREA\<rparr>, copyarea_sx = le srcX,
             copyarea_sy = le srcY, copyarea_dx = le destX, copyarea_dy = le destY,
             copyarea_width = le width, copyarea_height = le height\<rparr>
      in act_bind (firmware env) (\<lambda>version.
         if version < MIN_VERSION_COPY_AREA_BUG_FIX
         then act_bind (Buffer_new env 1) (\<lambda>b.
              shared_buffer b (sendCommandToDisplayEndpoint env packet (Some b)))
         else sendCommandToDisplayEndpoint env packet None))"

subsection \<open>Enabling and the status thread\<close>

definition doEnable :: "'e disp_env_scheme \<Rightarrow> ('z, unit) disp_act" where
  "doEnable env =
     act_bind (defaultContext env) (\<lambda>u.
     act_bind summonPipeline (\<lambda>u.
     act_bind Pipeline_start (\<lambda>u.
     set_impl (\<lambda>i. i\<lparr>own_pipeline := True, working := True, status_started := True\<rparr>))))"

definition sdk_enable :: "'e disp_env_scheme \<Rightarrow> ('z, unit) disp_act" where
  "sdk_enable env =
     act_bind (act_get (\<lambda>s. status_started (impl s))) (\<lambda>started.
     act_bind (if started then act_return () else doEnable env) (\<lambda>u.
     act_bind (sdk_fill env 0xcb20) (\<lambda>u.
     act_bind (act_put (slept_ms_update (\<lambda>n. n + 200))) (\<lambda>u.
     sdk_fill env 0xcb20))))"

text \<open>A status packet in the memory of the host, then its coordinates converted.\<close>

definition parse_host_status :: "bool \<Rightarrow> u8 list \<Rightarrow> rpusbdisp_status_normal_packet_t" where
  "parse_host_status big bs =
     \<lparr>packet_type = bs ! 0, display_status = bs ! 1, touch_status = bs ! 2,
      touch_x = read_host32 big (bs ! 3) (bs ! 4) (bs ! 5) (bs ! 6),
      touch_y = read_host32 big (bs ! 7) (bs ! 8) (bs ! 9) (bs ! 10)\<rparr>"

definition update_status :: "'e disp_env_scheme \<Rightarrow> TransferImpl \<Rightarrow> ('z, unit) disp_act" where
  "update_status env t =
     act_bind (decodeAs env 11 t) (\<lambda>bs.
     let st = parse_host_status (big_endian env) bs;
         st = st\<lparr>touch_x := sdk_le32_to_cpu (big_endian env) (touch_x st),
                 touch_y := sdk_le32_to_cpu (big_endian env) (touch_y st)\<rparr>
     in act_bind (set_impl (status_update (\<lambda>_. st))) (\<lambda>u.
        act_put (\<lambda>s. if statusCallback (impl s) then s\<lparr>callback_log := callback_log s @ [st]\<rparr> else s)))"

text \<open>
  One round of the loop of the status thread; the value says whether the loop goes on. An exception
  that is not caught leaves the thread.
\<close>

definition status_round :: "'e disp_env_scheme \<Rightarrow> TransferImpl \<Rightarrow> ('z, TransferImpl option) disp_act" where
  "status_round env t =
     act_bind
       (act_catch
         (act_bind (submit env t) (\<lambda>t. act_bind (waitForCompletion env t) (\<lambda>t. act_return (Some t))))
         (\<lambda>e. act_bind (printToConsole e) (\<lambda>u.
              act_bind (set_impl (working_update (\<lambda>_. False))) (\<lambda>u. act_return None))))
       (\<lambda>r. case r of
          None \<Rightarrow> act_return None
        | Some t \<Rightarrow>
            act_bind
              (case getStatus t of
                 TransferStatusCompleted \<Rightarrow> act_catch (update_status env t) (\<lambda>e. act_stop Terminate)
               | TransferStatusStall \<Rightarrow>
                   act_catch (clearEndpointHalt env UsbDeviceStatusEndpoint) (\<lambda>e. act_stop Terminate)
               | st \<Rightarrow> act_put (\<lambda>s. s\<lparr>console := console s @ [''Unexpcected status: 0x'' @ hex8 (status_code st)]\<rparr>))
              (\<lambda>u. act_return (Some t)))"

text \<open>The loop, for at most \<open>fuel\<close> rounds; the value says whether it ended.\<close>

fun status_loop :: "'e disp_env_scheme \<Rightarrow> nat \<Rightarrow> TransferImpl \<Rightarrow> ('z, bool) disp_act" where
  "status_loop env 0 t = act_return False"
| "status_loop env (Suc fuel) t =
     act_bind isAlive (\<lambda>alive.
     if \<not> alive then act_return True
     else act_bind (status_round env t) (\<lambda>r.
          case r of None \<Rightarrow> act_return True | Some t \<Rightarrow> status_loop env fuel t))"

text \<open>The transfer goes when the thread ends.\<close>

definition statusFetchingWorker :: "'e disp_env_scheme \<Rightarrow> nat \<Rightarrow> ('z, bool) disp_act" where
  "statusFetchingWorker env fuel =
     act_catch
       (act_bind (allocTransfer env EndpointDirectionIn EndpointTransferTypeInterrupt UsbDeviceStatusEndpoint) (\<lambda>t.
        act_bind (Buffer_new env 32) (\<lambda>b.
        act_bind (setTransferBuffer b t) (\<lambda>t.
        act_bind (Buffer_unref b) (\<lambda>u.
        act_bind (status_loop env fuel t) (\<lambda>ended.
        act_bind (if ended then Transfer_destroy t else act_return ()) (\<lambda>u. act_return ended)))))))
       (\<lambda>e. act_stop Terminate)"

subsection \<open>Finding a device\<close>

definition enumDevices :: "'e disp_env_scheme \<Rightarrow> ('z, nat list) disp_act" where
  "enumDevices env =
     act_bind (defaultContext env) (\<lambda>u. lookupDevices env UsbDeviceVendorId UsbDeviceProductId)"

function find_from :: "'e disp_env_scheme \<Rightarrow> DeviceListImpl \<Rightarrow> nat \<Rightarrow> ('z, nat option) disp_act" where
  "find_from env devices i =
     (if i < DeviceList_count devices then
        act_bind (DeviceList_getDevice devices i) (\<lambda>entry.
        case entry of
          None \<Rightarrow> act_stop (Crash NullDeref)
        | Some d \<Rightarrow>
            act_bind (on_throw (has_ids env UsbDeviceVendorId UsbDeviceProductId d) (Device_destroy d)) (\<lambda>ok.
            if ok then act_return (Some d)
            else act_bind (Device_destroy d) (\<lambda>u. find_from env devices (Suc i))))
      else act_return None)"
  by pat_completeness auto
termination
  by (relation "measure (\<lambda>(env, devices, i). DeviceList_count devices - i)") auto

declare find_from.simps [simp del]

definition findFirstDevice :: "'e disp_env_scheme \<Rightarrow> ('z, nat option) disp_act" where
  "findFirstDevice env =
     act_bind (defaultContext env) (\<lambda>u.
     act_bind (Context_getDeviceList env) (\<lambda>devices.
     act_finally (find_from env devices 0) (DeviceList_destroy devices)))"

text \<open>
  If the device cannot be opened, it goes; the handle keeps it otherwise, and goes with it if the
  constructor of the display throws.
\<close>

definition openFirstDevice :: "'e disp_env_scheme \<Rightarrow> ('z, bool) disp_act" where
  "openFirstDevice env =
     act_bind (findFirstDevice env) (\<lambda>d.
     case d of
       None \<Rightarrow> act_return False
     | Some d \<Rightarrow>
         act_bind (on_throw (Device_open env d) (Device_destroy d)) (\<lambda>h.
         act_bind (on_throw (DeviceImpl_new env h) (DeviceHandle_destroy h)) (\<lambda>u. act_return True)))"

end
