(* ===== verification/Sdk_Properties.thy ===== *)
theory Sdk_Properties
  imports Sdk_Driver Receiver
begin

text \<open>
  What the commands of the user-mode SDK do: the one transfer they send, whatever libusb answers, and
  the rectangle a device decodes from a bitblt.
\<close>

subsection \<open>Scopes and buffers\<close>

lemmas sdk_defs = act_bind_def act_return_def act_stop_def act_get_def act_put_def act_lift_def throw_def

definition unwinds :: "stop + 'a \<Rightarrow> bool" where
  "unwinds r \<longleftrightarrow> (case r of Inr x \<Rightarrow> True | Inl (Throws e) \<Rightarrow> True | _ \<Rightarrow> False)"

lemma unwinds_simps [simp]:
  "unwinds (Inr x)" "unwinds (Inl (Throws e))" "\<not> unwinds (Inl Hang)" "\<not> unwinds (Inl (Crash ft))" "\<not> unwinds (Inl Terminate)"
  by (simp_all add: unwinds_def)

lemma finally_eq:
  assumes "body s = (r, s1)" "leave s1 = (Inr u, s2)"
  shows "act_finally body leave s = (r, if unwinds r then s2 else s1)"
  using assms unfolding act_finally_def unwinds_def by (auto split: sum.splits stop.splits)

lemma set_buf_simps [simp]:
  "usb_events (set_buf b f s) = usb_events s" "impl (set_buf b f d) = impl d" "polling (set_buf b f s) = polling s"
  "bufs (set_buf b f u) = (bufs u)[b := f (bufs u ! b)]" "pipeline (set_buf b f s) = pipeline s"
  by (simp_all add: set_buf_def polling_def)

lemma set_buf_same: "f (bufs s ! b) = bufs s ! b \<Longrightarrow> set_buf b f s = s"
  by (simp add: set_buf_def)

lemma set_buf_twice:
  "b < length (bufs s) \<Longrightarrow> set_buf b g (set_buf b f s) = set_buf b (\<lambda>x. g (f x)) s"
  by (simp add: set_buf_def)

lemma log_event_simps [simp]:
  "bufs (log_event e s) = bufs s" "polling (log_event e s) = polling s"
  "usb_events (log_event e s) = usb_events s @ [e]" "impl (log_event e d) = impl d"
  "set_buf b f (log_event e s) = log_event e (set_buf b f s)"
  by (simp_all add: log_event_def polling_def set_buf_def)

text \<open>A buffer inside a lock scope, and after it.\<close>

definition held :: "BufferImpl \<Rightarrow> BufferImpl" where
  "held x = x\<lparr>buf_locked := True, buf_refs := buf_refs x + 1\<rparr>"

definition dropped :: "BufferImpl \<Rightarrow> BufferImpl" where
  "dropped x = x\<lparr>buf_locked := False, buf_refs := buf_refs x - 1\<rparr>"

lemma held_simps [simp]:
  "nakedBuffer (held x) = nakedBuffer x" "buf_locked (held x)" "buf_refs (held x) = buf_refs x + 1"
  "nakedBuffer (dropped x) = nakedBuffer x" "\<not> buf_locked (dropped x)" "buf_refs (dropped x) = buf_refs x - 1"
  "held \<lparr>nakedBuffer = bs, buf_locked = k, buf_refs = n\<rparr> = \<lparr>nakedBuffer = bs, buf_locked = True, buf_refs = n + 1\<rparr>"
  "dropped \<lparr>nakedBuffer = bs, buf_locked = k, buf_refs = n\<rparr> = \<lparr>nakedBuffer = bs, buf_locked = False, buf_refs = n - 1\<rparr>"
  by (simp_all add: held_def dropped_def)

lemma held_steps:
  "(\<lambda>x. buf_locked_update (\<lambda>_. True) (buf_refs_update (\<lambda>n. n + 1) x)) = held"
  "(\<lambda>x. buf_refs_update (\<lambda>n. n - 1) (buf_locked_update (\<lambda>_. False) x)) = dropped"
  by (rule ext, case_tac x, simp)+

lemma dropped_held [simp]: "\<not> buf_locked x \<Longrightarrow> dropped (held x) = x"
  by (cases x) simp

lemma on_buffer_alive [simp]: "buf_alive b s \<Longrightarrow> on_buffer b m s = m s"
  by (simp add: on_buffer_def)

lemma buf_alive_update:
  "b < length (bufs s) \<Longrightarrow> buf_refs (f (bufs s ! b)) = 0 \<longleftrightarrow> buf_refs (bufs s ! b) = 0
    \<Longrightarrow> buf_alive i (set_buf b f s) \<longleftrightarrow> buf_alive i s"
  by (cases "i = b") (simp_all add: buf_alive_def)

lemma buf_alive_simps [simp]:
  "buf_alive b s \<Longrightarrow> buf_alive i (set_buf b held s) \<longleftrightarrow> buf_alive i s"
  "buf_alive b s \<Longrightarrow> buf_alive i (set_buf b (nakedBuffer_update f) s) \<longleftrightarrow> buf_alive i s"
  "buf_alive b s \<Longrightarrow> buf_alive i (set_buf b (buf_locked_update g) s) \<longleftrightarrow> buf_alive i s"
  by (rule buf_alive_update, simp add: buf_alive_def, simp add: buf_alive_def)+

lemma buf_alive_log [simp]: "buf_alive i (log_event e w) \<longleftrightarrow> buf_alive i w"
  by (simp add: buf_alive_def log_event_def)

lemma buf_alive_less: "buf_alive b s \<Longrightarrow> b < length (bufs s)"
  by (simp add: buf_alive_def)

lemma lock_again:
  assumes "buf_alive b s" "\<not> buf_locked (bufs s ! b)"
  shows "act_bind (Buffer_ref b) (\<lambda>u. Buffer_lock b) s = (Inr b, set_buf b held s)"
proof -
  have "Buffer_ref b s = (Inr (), set_buf b (buf_refs_update (\<lambda>n. n + 1)) s)"
    using assms(1) by (simp add: Buffer_ref_def)
  moreover have "buf_alive b (set_buf b (buf_refs_update (\<lambda>n. n + 1)) s)"
    using assms(1) by (simp add: buf_alive_def)
  moreover have "set_buf b (buf_locked_update (\<lambda>_. True)) (set_buf b (buf_refs_update (\<lambda>n. n + 1)) s) = set_buf b held s"
    using buf_alive_less [OF assms(1)] by (simp only: set_buf_twice held_steps)
  ultimately show ?thesis
    using assms buf_alive_less [OF assms(1)] by (simp add: Buffer_lock_def)
qed

lemma drop_again:
  assumes "buf_alive b s"
  shows "act_bind (Buffer_unlock b b) (\<lambda>u. Buffer_unref b) s = (Inr (), set_buf b dropped s)"
proof -
  have "Buffer_unlock b b s = (Inr (), set_buf b (buf_locked_update (\<lambda>_. False)) s)"
    using assms by (simp add: Buffer_unlock_def)
  moreover have "set_buf b (buf_refs_update (\<lambda>n. n - 1)) (set_buf b (buf_locked_update (\<lambda>_. False)) s) = set_buf b dropped s"
    using buf_alive_less [OF assms] by (simp only: set_buf_twice held_steps)
  ultimately show ?thesis
    using assms buf_alive_less [OF assms] by (simp add: Buffer_unref_def)
qed

lemma scope_eq:
  assumes "buf_alive b s" "\<not> buf_locked (bufs s ! b)" "body b (set_buf b held s) = (r, s1)" "unwinds r \<Longrightarrow> buf_alive b s1"
  shows "BufferLockScope b body s = (r, if unwinds r then set_buf b dropped s1 else s1)"
proof -
  have "BufferLockScope b body s = act_bind (act_bind (Buffer_ref b) (\<lambda>u. Buffer_lock b))
      (\<lambda>address. act_finally (body address) (act_bind (Buffer_unlock b address) (\<lambda>u. Buffer_unref b))) s"
    by (simp add: BufferLockScope_def act_bind_def split: prod.splits sum.splits)
  also have "\<dots> = act_finally (body b) (act_bind (Buffer_unlock b b) (\<lambda>u. Buffer_unref b)) (set_buf b held s)"
    using lock_again [OF assms(1,2)] by simp
  also have "\<dots> = (r, if unwinds r then set_buf b dropped s1 else s1)"
  proof (cases "unwinds r")
    case True
    then show ?thesis
      using finally_eq [where body = "body b" and leave = "act_bind (Buffer_unlock b b) (\<lambda>u. Buffer_unref b)", OF assms(3) drop_again [OF assms(4) [OF True]]] by simp
  next
    case False
    then show ?thesis
      using assms(3) by (auto simp: act_finally_def unwinds_def split: sum.splits stop.splits)
  qed
  finally show ?thesis .
qed

text \<open>A local shared pointer that is not the one that locks the buffer.\<close>

definition unshared :: "BufferImpl \<Rightarrow> BufferImpl" where
  "unshared x = x\<lparr>buf_refs := buf_refs x - 1\<rparr>"

lemma unshared_step: "buf_refs_update (\<lambda>n. n - 1) = unshared"
  by (rule ext, case_tac x, simp add: unshared_def)

lemma unshared_simps [simp]:
  "unshared \<lparr>nakedBuffer = bs, buf_locked = k, buf_refs = n\<rparr> = \<lparr>nakedBuffer = bs, buf_locked = k, buf_refs = n - 1\<rparr>"
  by (simp add: unshared_def)

lemma shared_eq:
  assumes "body s = (r, s1)" "unwinds r \<Longrightarrow> buf_alive b s1 \<and> \<not> buf_locked (bufs s1 ! b)"
  shows "shared_buffer b body s = (r, if unwinds r then set_buf b unshared s1 else s1)"
proof (cases "unwinds r")
  case True
  then have "Buffer_unref b s1 = (Inr (), set_buf b unshared s1)"
    using assms(2) by (simp add: Buffer_unref_def unshared_step [simplified])
  then show ?thesis
    using True finally_eq [where body = body, OF assms(1)] by (simp add: shared_buffer_def)
next
  case False
  then show ?thesis
    using assms(1) by (auto simp: shared_buffer_def act_finally_def unwinds_def split: sum.splits stop.splits)
qed

subsection \<open>One transfer\<close>

text \<open>The transfer the SDK prepares for buffer \<open>b\<close> of \<open>n\<close> bytes.\<close>

definition out_transfer :: "nat \<Rightarrow> nat \<Rightarrow> libusb_transfer" where
  "out_transfer b n =
     \<lparr>xf_endpoint = UsbDeviceDisplayEndpoint, xf_type = 2, xf_buffer = Some b, xf_length = int n,
      xf_status = LIBUSB_TRANSFER_COMPLETED, xf_user_data = True\<rparr>"

fun transfer_result :: "libusb_status \<Rightarrow> stop + unit" where
  "transfer_result LIBUSB_TRANSFER_COMPLETED = Inr ()"
| "transfer_result LIBUSB_TRANSFER_CANCELLED = Inl (Throws (Exception 2 [] []))"
| "transfer_result LIBUSB_TRANSFER_ERROR = Inl (Throws (Exception 3 [] []))"
| "transfer_result LIBUSB_TRANSFER_TIMED_OUT = Inl (Throws (Exception 4 [] []))"
| "transfer_result LIBUSB_TRANSFER_STALL = Inl (Throws (Exception 5 [] []))"
| "transfer_result LIBUSB_TRANSFER_NO_DEVICE = Inl (Throws (Exception 6 [] []))"
| "transfer_result LIBUSB_TRANSFER_OVERFLOW = Inl (Throws (Exception 7 [] []))"
| "transfer_result (LIBUSB_TRANSFER_OTHER n) = Inl (Throws (Exception 0 [] []))"

text \<open>What comes of a transfer of \<open>bytes\<close>: the outcome and what libusb was asked.\<close>

definition attempt :: "'e sdk_env_scheme \<Rightarrow> libusb_transfer \<Rightarrow> u8 list \<Rightarrow> bool \<Rightarrow> usb_log
    \<Rightarrow> (stop + unit) \<times> usb_log" where
  "attempt env t bytes polled log =
     (let rc = lib_submit env log t bytes; log1 = log @ [Submitted (xf_endpoint t) (xf_type t) bytes rc]
      in if rc \<noteq> 0 then (Inl (Throws (Exception rc [] [])), log1)
         else if \<not> polled then (Inl Hang, log1)
         else case lib_complete env log1 t of
                None \<Rightarrow> (Inl Hang, log1)
              | Some (st, data) \<Rightarrow> (transfer_result st, log1 @ [Completed st data]))"

lemma send_transfer_eq:
  fixes s :: "'z disp_state_scheme"
  assumes alloc: "lib_alloc env (usb_events s)"
    and b: "buf_alive b s" "\<not> buf_locked (bufs s ! b)" "length (nakedBuffer (bufs s ! b)) < 2 ^ 31"
    and outcome: "attempt env (out_transfer b (length (nakedBuffer (bufs s ! b)))) (nakedBuffer (bufs s ! b))
        (polling s) (usb_events s) = (r, log)"
  shows "\<exists>s'. send_transfer env b s = (r, s') \<and> usb_events s' = log
    \<and> (unwinds r \<longrightarrow> s' = s\<lparr>usb_events := log\<rparr>)"
proof -
  let ?bytes = "nakedBuffer (bufs s ! b)"
  let ?raw = "\<lparr>xf_endpoint = UsbDeviceDisplayEndpoint, xf_type = 2, xf_buffer = None, xf_length = 0,
      xf_status = LIBUSB_TRANSFER_COMPLETED, xf_user_data = False\<rparr>"
  let ?h = "\<lparr>xf_endpoint = UsbDeviceDisplayEndpoint, xf_type = 2, xf_buffer = Some b, xf_length = int (length ?bytes),
      xf_status = LIBUSB_TRANSFER_COMPLETED, xf_user_data = False\<rparr>"
  let ?t = "\<lparr>completion = False, transferBuffer = Some b, handle = ?h\<rparr>"
  define s0 where "s0 = live_transfers_update (\<lambda>n. n + 1) s"
  let ?s = "set_buf b held s0"
  have s0: "buf_alive b s0" "\<not> buf_locked (bufs s0 ! b)" "bufs s0 = bufs s" "usb_events s0 = usb_events s" "polling s0 = polling s"
    using b by (simp_all add: s0_def buf_alive_def polling_def)
  note less = buf_alive_less [OF b(1)]
  have alloced: "allocTransfer env EndpointDirectionOut EndpointTransferTypeBulk UsbDeviceDisplayEndpoint s
      = (Inr (TransferImpl_new ?raw), s0)"
    using alloc by (simp add: allocTransfer_def DeviceHandle_allocTransfer_def UsbDeviceDisplayEndpoint_def s0_def)
  have prepared: "setTransferBuffer b (TransferImpl_new ?raw) s0 = (Inr ?t, ?s)"
  proof -
    have "setTransferBuffer b (TransferImpl_new ?raw) s0
      = act_bind (act_bind (Buffer_ref b) (\<lambda>u. Buffer_lock b)) (\<lambda>address. act_bind (Buffer_size b) (\<lambda>size.
          act_return ((TransferImpl_new ?raw)\<lparr>transferBuffer := Some b,
            handle := (handle (TransferImpl_new ?raw))\<lparr>xf_buffer := Some address, xf_length := c_int (int size)\<rparr>\<rparr>))) s0"
      by (simp add: setTransferBuffer_def releaseTransferBuffer_def TransferImpl_new_def act_bind_def act_return_def
        split: prod.splits sum.splits)
    also have "\<dots> = (Inr ?t, ?s)"
      using b s0 less lock_again [OF s0(1,2)] by (simp add: Buffer_size_def TransferImpl_new_def c_int_id)
    finally show ?thesis .
  qed
  have send: "send_transfer env b s = act_finally (transfer_now env ?t) (Transfer_destroy ?t) ?s"
    unfolding send_transfer_def by (simp add: alloced prepared)
  obtain s1 where run: "transfer_now env ?t ?s = (r, s1)" "usb_events s1 = log"
      "s1 = (?s\<lparr>usb_events := log\<rparr>)"
    using outcome b s0(3-5) less unfolding transfer_now_def attempt_def
    by (auto simp: submit_def waitForCompletion_def out_transfer_def complete_transfer_def transferCallback_def xf_bytes_def
        UsbDeviceDisplayEndpoint_def getStatus_def Let_def log_event_def polling_def set_buf_def act_bind_def
        split: if_splits option.splits prod.splits libusb_status.splits)
  have alive: "buf_alive b s1"
    using b(1) s0(1) less by (simp add: run(3) buf_alive_def)
  have destroy: "Transfer_destroy ?t s1 = (Inr (), live_transfers_update (\<lambda>n. n - 1) (set_buf b dropped s1))"
  proof -
    have "Transfer_destroy ?t s1 = act_bind (act_bind (Buffer_unlock b b) (\<lambda>u. Buffer_unref b))
        (\<lambda>u. act_put (live_transfers_update (\<lambda>n. n - 1))) s1"
      by (simp add: Transfer_destroy_def releaseTransferBuffer_def act_bind_def act_return_def split: prod.splits sum.splits)
    then show ?thesis
      using drop_again [OF alive] by simp
  qed
  have restored: "live_transfers_update (\<lambda>n. n - 1) (set_buf b dropped s1) = s\<lparr>usb_events := log\<rparr>"
    using run(3) less b(2) by (simp add: set_buf_def s0_def)
  show ?thesis
    unfolding send finally_eq [where body = "transfer_now env ?t" and leave = "Transfer_destroy ?t", OF run(1) destroy] restored using run(2) by auto
qed

subsection \<open>One command\<close>

text \<open>What \<^verbatim>\<open>malloc\<close> and \<^verbatim>\<open>libusb_alloc_transfer\<close> do when memory is there.\<close>

definition memory_ok :: "'e sdk_env_scheme \<Rightarrow> bool" where
  "memory_ok env \<longleftrightarrow> (\<forall>n. malloc_ok env n \<and> length (fresh_bytes env n) = n) \<and> (\<forall>l. lib_alloc env l)"

text \<open>The bytes of a payload, of a buffer that nobody holds.\<close>

definition payload_is :: "nat option \<Rightarrow> u8 list \<Rightarrow> 'z util_state_scheme \<Rightarrow> bool" where
  "payload_is payload data s \<longleftrightarrow> (case payload of
     None \<Rightarrow> data = []
   | Some b \<Rightarrow> buf_alive b s \<and> \<not> buf_locked (bufs s ! b) \<and> nakedBuffer (bufs s ! b) = data)"

definition command_stream :: "nat \<Rightarrow> u8 list \<Rightarrow> u8 list \<Rightarrow> 'z disp_state_scheme \<Rightarrow> u8 list" where
  "command_stream ep packet data s =
     framed ep (hd packet)
       [packet_header_byte (display_status (status (impl s)) AND RPUSBDISP_DISPLAY_STATUS_DIRTY_FLAG \<noteq> 0) 0 (hd packet)]
       (tl packet @ data)"

lemma nakedBuffer_put: "nakedBuffer_update (buf_put at bs) x = x\<lparr>nakedBuffer := buf_put at bs (nakedBuffer x)\<rparr>"
  by (cases x) simp

lemma buf_put_whole: "length bs = length buf \<Longrightarrow> buf_put 0 bs buf = bs"
  by (simp add: buf_put_def)

lemma update_other: "b \<noteq> i \<Longrightarrow> xs[i := v, b := xs ! b] = xs[i := v]"
  by (metis list_update_id nth_list_update_neq)

lemma gather_eq:
  fixes s :: "'z disp_state_scheme"
  assumes ov: "buf_alive ov s" "length (nakedBuffer (bufs s ! ov)) = length packet + length data"
    and payload: "payload_is payload data s" "payload \<noteq> Some ov"
  shows "gather packet payload ov s = (Inr (), set_buf ov (nakedBuffer_update (\<lambda>_. packet @ data)) s)"
proof (cases payload)
  case None
  then show ?thesis
    using ov payload(1) by (simp add: gather_def mem_write_def payload_is_def buf_put_whole set_buf_def nakedBuffer_put)
next
  case (Some b)
  let ?s1 = "set_buf ov (nakedBuffer_update (buf_put 0 packet)) s"
  let ?s2 = "set_buf b held ?s1"
  let ?s3 = "set_buf ov (nakedBuffer_update (buf_put (length packet) data)) ?s2"
  have b: "buf_alive b s" "\<not> buf_locked (bufs s ! b)" "nakedBuffer (bufs s ! b) = data" "b \<noteq> ov"
    using payload Some by (auto simp: payload_is_def)
  note less = buf_alive_less [OF ov(1)] buf_alive_less [OF b(1)]
  have first: "mem_write ov 0 packet s = (Inr (), ?s1)"
    using ov by (simp add: mem_write_def)
  let ?body = "\<lambda>p. act_bind (Buffer_size b) (\<lambda>n. act_bind (mem_read p 0 n) (mem_write ov (length packet)))"
  have body: "?body b ?s2 = (Inr (), ?s3)"
    using ov b less by (simp add: Buffer_size_def mem_read_def mem_write_def)
  have "BufferLockScope b ?body ?s1 = (Inr (), set_buf b dropped ?s3)"
    using scope_eq [where b = b and s = "?s1" and body = ?body and r = "Inr ()" and ?s1.0 = "?s3"] body b ov(1) less by simp
  moreover have "set_buf b dropped ?s3 = set_buf ov (nakedBuffer_update (\<lambda>_. packet @ data)) s"
  proof -
    have "buf_put (length packet) data (buf_put 0 packet (nakedBuffer (bufs s ! ov))) = packet @ data"
      using buf_put_append [of 0 packet data "nakedBuffer (bufs s ! ov)"] ov(2)
        buf_put_whole [of "packet @ data" "nakedBuffer (bufs s ! ov)"] by simp
    then show ?thesis
      using b less
      by (simp add: set_buf_def list_update_swap [of b ov] update_other nakedBuffer_put)
  qed
  ultimately show ?thesis
    using Some first by (simp add: gather_def)
qed

lemma fill_packets_eq:
  fixes s :: "'z disp_state_scheme"
  assumes "mps_ok (maxPacketSize (impl s)) ep" "nakedBuffer (bufs s ! sc) = packet @ data" "packet \<noteq> []"
    and "length (packet @ data) < 2 ^ 61"
    and "length (nakedBuffer (bufs s ! nk)) = length (packet @ data) + (length (packet @ data) - 1) div (ep - 1)"
  shows "fill_packets ((length (packet @ data) - 1) div (ep - 1) + 1) sc nk s
    = (Inr (), set_buf nk (nakedBuffer_update (\<lambda>_. command_stream ep packet data s)) s)"
proof -
  obtain c p where c: "packet @ data = c # p" "c = hd packet" "p = tl packet @ data"
    using assms(3) by (cases packet) auto
  have "write_packets (maxPacketSize (impl s)) (display_status (status (impl s)) AND RPUSBDISP_DISPLAY_STATUS_DIRTY_FLAG \<noteq> 0)
      (packet @ data) [0..<(length (packet @ data) - 1) div (ep - 1) + 1] (nakedBuffer (bufs s ! nk))
    = Inr (command_stream ep packet data s)"
    unfolding c(1) using write_packets_framed [OF assms(1), of p "nakedBuffer (bufs s ! nk)" _ c] assms(4,5)
    by (simp add: c command_stream_def)
  then show ?thesis
    unfolding fill_packets_def assms(2) by simp
qed

text \<open>
  A command whose bytes fit: the two buffers it makes are freed again, and the transfer is
  tried with the framed stream of packet and payload.
\<close>

definition command_buffers :: "nat \<Rightarrow> u8 list \<Rightarrow> u8 list \<Rightarrow> 'z disp_state_scheme \<Rightarrow> BufferImpl list" where
  "command_buffers ep packet data s =
     [\<lparr>nakedBuffer = packet @ data, buf_locked = False, buf_refs = 0\<rparr>,
      \<lparr>nakedBuffer = command_stream ep packet data s, buf_locked = False, buf_refs = 0\<rparr>]"

lemma send_command_eq:
  fixes s :: "'z disp_state_scheme"
  assumes mem: "memory_ok env" and mps: "mps_ok (maxPacketSize (impl s)) ep" and packet: "packet \<noteq> []"
    and payload: "payload_is payload data s" and size: "length (packet @ data) < 2 ^ 30"
    and outcome: "attempt env (out_transfer (length (bufs s) + 1) (length (command_stream ep packet data s)))
      (command_stream ep packet data s) (polling s) (usb_events s) = (r, log)"
  shows "\<exists>s'. sendCommandToDisplayEndpoint env packet payload s = (r, s') \<and> usb_events s' = log
    \<and> (unwinds r \<longrightarrow> s' = s\<lparr>bufs := bufs s @ command_buffers ep packet data s, usb_events := log\<rparr>)"
proof -
  let ?u = "command_stream ep packet data s"
  let ?n = "length (packet @ data)" and ?ov = "length (bufs s)" and ?tb = "Suc (length (bufs s))"
  let ?pc = "(?n - 1) div (ep - 1) + 1"
  let ?f1 = "fresh_bytes env ?n" and ?f2 = "fresh_bytes env (?n + ?pc - 1)"
  have ep: "1 < ep" "ep < 2 ^ 31"
    using mps by (simp_all add: mps_ok_def)
  have n: "1 \<le> ?n"
    using packet by (cases packet) simp_all
  have len_u: "length ?u = ?n + (?n - 1) div (ep - 1)"
    using length_framed1 [OF ep(1)] packet by (cases packet) (simp_all add: command_stream_def)
  have "(?n - 1) div (ep - 1) \<le> ?n - 1"
    by (rule div_le_dividend)
  then have "?n + ?pc \<le> ?n + ?n"
    using n by linarith
  also have "\<dots> < 2 ^ 31"
    using size by simp
  finally have small: "?n + ?pc < 2 ^ 31" .
  have mem': "malloc_ok env k" "length (fresh_bytes env k) = k" "lib_alloc env l" for k l
    using mem by (simp_all add: memory_ok_def)
  have psize: "(case payload of None \<Rightarrow> act_return 0 | Some b \<Rightarrow> Buffer_size b) s = (Inr (length data), s)"
    using payload by (cases payload) (simp_all add: payload_is_def Buffer_size_def)
  have total_size: "sz (length packet + length data) = ?n"
    using size by (simp add: sz_def)
  have pc: "packetCount (maxPacketSize (impl s)) ?n = Inr ?pc"
    using packetCount_ok [OF mps n] size by simp
  define s1 where "s1 = s\<lparr>bufs := bufs s @ [\<lparr>nakedBuffer = ?f1, buf_locked = False, buf_refs = 1\<rparr>]\<rparr>"
  define s2 where "s2 = set_buf ?ov held s1"
  define s3 where "s3 = s\<lparr>bufs := bufs s @ [\<lparr>nakedBuffer = packet @ data, buf_locked = True, buf_refs = 2\<rparr>]\<rparr>"
  define s4 where "s4 = s\<lparr>bufs := bufs s @ [\<lparr>nakedBuffer = packet @ data, buf_locked = True, buf_refs = 2\<rparr>, \<lparr>nakedBuffer = ?f2, buf_locked = False, buf_refs = 1\<rparr>]\<rparr>"
  define s5 where "s5 = s\<lparr>bufs := bufs s @ [\<lparr>nakedBuffer = packet @ data, buf_locked = True, buf_refs = 2\<rparr>, \<lparr>nakedBuffer = ?u, buf_locked = False, buf_refs = 1\<rparr>]\<rparr>"
  have new1: "Buffer_new env ?n s = (Inr ?ov, s1)"
    using mem' by (simp add: Buffer_new_def Buffer_add_def s1_def)
  have gathered: "gather packet payload ?ov s2 = (Inr (), s3)"
  proof -
    have "payload_is payload data s2" "payload \<noteq> Some ?ov"
      using payload by (auto simp: payload_is_def s2_def s1_def nth_append buf_alive_def split: option.splits)
    moreover have "bufs s2 ! ?ov = \<lparr>nakedBuffer = ?f1, buf_locked = True, buf_refs = 2\<rparr>" "buf_alive ?ov s2"
      by (simp_all add: s2_def s1_def buf_alive_def)
    ultimately show ?thesis
      using gather_eq [of ?ov s2 packet data payload] mem'
      by (simp add: s2_def s1_def s3_def set_buf_def)
  qed
  have new2: "Buffer_new env (sz_sub (sz (?n + ?pc)) 1) s3 = (Inr ?tb, s4)"
    using mem' small by (simp add: Buffer_new_def Buffer_add_def s3_def s4_def sz_def sz_sub_def)
  have locked: "set_buf ?tb held s4 = s\<lparr>bufs := bufs s @ [\<lparr>nakedBuffer = packet @ data, buf_locked = True, buf_refs = 2\<rparr>, \<lparr>nakedBuffer = ?f2, buf_locked = True, buf_refs = 2\<rparr>]\<rparr>"
    by (simp add: s4_def set_buf_def nth_append list_update_append)
  have filled: "BufferLockScope ?tb (fill_packets ?pc ?ov) s4 = (Inr (), s5)"
  proof -
    have "fill_packets ?pc ?ov ?tb (set_buf ?tb held s4)
      = (Inr (), set_buf ?tb (nakedBuffer_update (\<lambda>_. ?u)) (set_buf ?tb held s4))"
      unfolding locked
      by (subst fill_packets_eq [where ep = ep and packet = packet and data = data])
        (use mps packet size mem' in \<open>simp_all add: nth_append command_stream_def\<close>)
    then have "BufferLockScope ?tb (fill_packets ?pc ?ov) s4 = (Inr (), set_buf ?tb dropped
        (set_buf ?tb (nakedBuffer_update (\<lambda>_. ?u)) (set_buf ?tb held s4)))"
      using scope_eq [where b = ?tb and s = s4 and body = "fill_packets ?pc ?ov"] by (simp add: s4_def nth_append buf_alive_def)
    then show ?thesis
      by (simp add: s4_def s5_def set_buf_def nth_append list_update_append)
  qed
  have s5: "lib_alloc env (usb_events s5)" "buf_alive ?tb s5" "bufs s5 ! ?tb = \<lparr>nakedBuffer = ?u, buf_locked = False, buf_refs = 1\<rparr>"
    "polling s5 = polling s" "usb_events s5 = usb_events s"
    using mem' by (simp_all add: s5_def nth_append polling_def buf_alive_def)
  have "length ?u < 2 ^ 31"
    using small len_u by simp
  then obtain s6 where s6: "send_transfer env ?tb s5 = (r, s6)" "usb_events s6 = log"
      "unwinds r \<longrightarrow> s6 = s5\<lparr>usb_events := log\<rparr>"
    using send_transfer_eq [OF s5(1,2), of r log] s5(3-5) outcome by auto
  define s7 where "s7 = set_buf ?tb unshared s6"
  let ?inner = "\<lambda>scoped tb. act_bind (BufferLockScope tb (fill_packets ?pc scoped)) (\<lambda>u. send_transfer env tb)"
  have "?inner ?ov ?tb s4 = (r, s6)"
    using filled s6(1) by simp
  then have inner: "shared_buffer ?tb (?inner ?ov ?tb) s4 = (r, if unwinds r then s7 else s6)"
    using shared_eq [where b = ?tb and s = s4 and body = "?inner ?ov ?tb"] s6(3) s5(2,3) by (simp add: s7_def buf_alive_def)
  let ?body = "\<lambda>scoped. act_bind (gather packet payload scoped) (\<lambda>u.
      act_bind (Buffer_new env (sz_sub (sz (?n + ?pc)) 1)) (\<lambda>tb. shared_buffer tb (?inner scoped tb)))"
  have "?body ?ov s2 = (r, if unwinds r then s7 else s6)"
    using gathered new2 inner by simp
  then have "BufferLockScope ?ov ?body s1 = (r, if unwinds r then set_buf ?ov dropped s7 else s6)"
    using scope_eq [where b = ?ov and s = s1 and body = ?body] s6(3)
    by (auto simp: s2_def s1_def s5_def s7_def buf_alive_def nth_append)
  then have run: "shared_buffer ?ov (BufferLockScope ?ov ?body) s1
      = (r, if unwinds r then set_buf ?ov unshared (set_buf ?ov dropped s7) else s6)"
    using shared_eq [where b = ?ov and s = s1 and body = "BufferLockScope ?ov ?body"] s6(3)
    by (auto simp: s5_def s7_def buf_alive_def nth_append)
  have "sendCommandToDisplayEndpoint env packet payload s = shared_buffer ?ov (BufferLockScope ?ov ?body) s1"
    unfolding sendCommandToDisplayEndpoint_def
    using new1 by (simp add: Let_def psize total_size pc [unfolded length_append])
  then show ?thesis
    unfolding run using s6(2,3)
    by (auto simp: s5_def s7_def command_buffers_def set_buf_def nth_append list_update_append)
qed

end
