(* ===== verification/Sdk_Commands.thy ===== *)
theory Sdk_Commands
  imports Sdk_Properties
begin

text \<open>
  The drawing commands of the user-mode SDK from the call to what the device decodes.
\<close>

subsection \<open>A well-behaved libusb\<close>

text \<open>Memory is there, submissions are taken and complete, and the descriptor can be read.\<close>

definition usb_works :: "'e sdk_env_scheme \<Rightarrow> bool" where
  "usb_works env \<longleftrightarrow> (\<forall>l t bs. lib_submit env l t bs = 0)
     \<and> (\<forall>l t. \<exists>data. lib_complete env l t = Some (LIBUSB_TRANSFER_COMPLETED, data))"

definition sdk_ready :: "'e sdk_env_scheme \<Rightarrow> nat \<Rightarrow> 'z disp_state_scheme \<Rightarrow> bool" where
  "sdk_ready env ep s \<longleftrightarrow> memory_ok env \<and> usb_works env \<and> polling s \<and> mps_ok (maxPacketSize (impl s)) ep
     \<and> fst (lib_descriptor env (device (impl s))) = 0"

definition version_of :: "'e sdk_env_scheme \<Rightarrow> 'z disp_state_scheme \<Rightarrow> u16" where
  "version_of env s = bcdDevice (snd (lib_descriptor env (device (impl s))))"

text \<open>One transfer went out, and it completed; the object and the pipeline are as before.\<close>

definition sent :: "'z disp_state_scheme \<Rightarrow> 'z disp_state_scheme \<Rightarrow> u8 list \<Rightarrow> bool" where
  "sent s s' u \<longleftrightarrow> (\<exists>data. usb_events s' = usb_events s
     @ [Submitted UsbDeviceDisplayEndpoint 2 u 0, Completed LIBUSB_TRANSFER_COMPLETED data])
     \<and> impl s' = impl s \<and> pipeline s' = pipeline s \<and> slept_ms s' = slept_ms s"

definition dirty_reported :: "'z disp_state_scheme \<Rightarrow> bool" where
  "dirty_reported s \<longleftrightarrow> display_status (status (impl s)) AND RPUSBDISP_DISPLAY_STATUS_DIRTY_FLAG \<noteq> 0"

lemma command_sent:
  fixes s :: "'z disp_state_scheme"
  assumes ready: "sdk_ready env ep s" and packet: "packet = c # p" and payload: "payload_is payload data s"
    and size: "length (packet @ data) < 2 ^ 30"
  shows "\<exists>s' u. sendCommandToDisplayEndpoint env packet payload s = (Inr (), s') \<and> sent s s' u
    \<and> bufs s' = bufs s @ drop (length (bufs s)) (bufs s')
    \<and> device_payload ep [u] = p @ data
    \<and> hd (device_headers ep [u]) = packet_header_byte (dirty_reported s) 0 c"
proof -
  let ?u = "command_stream ep packet data s"
  let ?t = "out_transfer (length (bufs s) + 1) (length ?u)"
  have facts: "memory_ok env" "polling s" "mps_ok (maxPacketSize (impl s)) ep" "1 < ep"
    and works: "lib_submit env l t bs = 0" "\<exists>data. lib_complete env l t = Some (LIBUSB_TRANSFER_COMPLETED, data)" for l t bs
    using ready by (simp_all add: sdk_ready_def usb_works_def mps_ok_def)
  obtain d where "lib_complete env (usb_events s @ [Submitted UsbDeviceDisplayEndpoint 2 ?u 0]) ?t
      = Some (LIBUSB_TRANSFER_COMPLETED, d)"
    using works(2) by blast
  then have "attempt env ?t ?u (polling s) (usb_events s)
      = (Inr (), usb_events s @ [Submitted UsbDeviceDisplayEndpoint 2 ?u 0, Completed LIBUSB_TRANSFER_COMPLETED d])"
    using works(1) facts(2) by (simp add: attempt_def out_transfer_def Let_def)
  from send_command_eq [OF facts(1,3) _ payload size this]
  obtain s' where s': "sendCommandToDisplayEndpoint env packet payload s = (Inr (), s')"
    "usb_events s' = usb_events s @ [Submitted UsbDeviceDisplayEndpoint 2 ?u 0, Completed LIBUSB_TRANSFER_COMPLETED d]"
    "impl s' = impl s" "pipeline s' = pipeline s" "slept_ms s' = slept_ms s"
    "bufs s' = bufs s @ drop (length (bufs s)) (bufs s')"
    using packet by auto
  have u: "?u = framed ep c [packet_header_byte (dirty_reported s) 0 c] (p @ data)"
    by (simp add: command_stream_def packet dirty_reported_def)
  have "sent s s' ?u"
    using s'(2-5) by (auto simp: sent_def)
  moreover have "device_payload ep [?u] = p @ data"
    "hd (device_headers ep [?u]) = packet_header_byte (dirty_reported s) 0 c"
    using receive_framed [OF facts(4), of c "packet_header_byte (dirty_reported s) 0 c" "p @ data"] unfolding u by auto
  ultimately show ?thesis
    using s'(1,6) by blast
qed

text \<open>The same with a payload whose last pointer goes after the command.\<close>

lemma shared_command_sent:
  fixes s :: "'z disp_state_scheme"
  assumes "sdk_ready env ep s" "payload_is (Some b) data s" "length (c # p @ data) < 2 ^ 30"
  shows "\<exists>s' u. shared_buffer b (sendCommandToDisplayEndpoint env (c # p) (Some b)) s = (Inr (), s') \<and> sent s s' u
    \<and> device_payload ep [u] = p @ data
    \<and> hd (device_headers ep [u]) = packet_header_byte (dirty_reported s) 0 c"
proof -
  obtain s' u where s': "sendCommandToDisplayEndpoint env (c # p) (Some b) s = (Inr (), s')" "sent s s' u"
    "bufs s' = bufs s @ drop (length (bufs s)) (bufs s')" "device_payload ep [u] = p @ data"
    "hd (device_headers ep [u]) = packet_header_byte (dirty_reported s) 0 c"
    using command_sent [OF assms(1) refl assms(2), of c p] assms(3) by auto
  have b: "b < length (bufs s)" "buf_refs (bufs s ! b) \<noteq> 0" "\<not> buf_locked (bufs s ! b)"
    using assms(2) by (simp_all add: payload_is_def buf_alive_def)
  obtain more where "bufs s' = bufs s @ more"
    using s'(3) by metis
  then have "bufs s' ! b = bufs s ! b" "b < length (bufs s')"
    using b(1) by (simp_all add: nth_append)
  then have "shared_buffer b (sendCommandToDisplayEndpoint env (c # p) (Some b)) s = (Inr (), set_buf b unshared s')"
    using shared_eq [where b = b and s = s and body = "sendCommandToDisplayEndpoint env (c # p) (Some b)", OF s'(1)] b by (simp add: buf_alive_def)
  moreover have "sent s (set_buf b unshared s') u"
    using s'(2) by (simp add: sent_def set_buf_def)
  ultimately show ?thesis
    using s'(4,5) by blast
qed

subsection \<open>The packets in memory\<close>

lemma sdk_images:
  "sdk_fill_bytes big p = cmd_flag (fill_header p) # host16 big (fill_color_565 p)"
  "sdk_fillrect_bytes big \<lparr>fillrect_header = h, fillrect_left = sdk_cpu_to_le16 big l, fillrect_top = sdk_cpu_to_le16 big t,
     fillrect_right = sdk_cpu_to_le16 big r, fillrect_bottom = sdk_cpu_to_le16 big b, fillrect_color_565 = k, fillrect_operation = m\<rparr>
   = cmd_flag h # cpu_to_le16 l @ cpu_to_le16 t @ cpu_to_le16 r @ cpu_to_le16 b @ host16 big k @ [m]"
  "sdk_bitblt_bytes big \<lparr>bitblt_header = h, bitblt_x = sdk_cpu_to_le16 big x, bitblt_y = sdk_cpu_to_le16 big y,
     bitblt_width = sdk_cpu_to_le16 big w, bitblt_height = sdk_cpu_to_le16 big g, bitblt_operation = m\<rparr>
   = cmd_flag h # cpu_to_le16 x @ cpu_to_le16 y @ cpu_to_le16 w @ cpu_to_le16 g @ [m]"
  "sdk_copyarea_bytes big \<lparr>copyarea_header = h, copyarea_sx = sdk_cpu_to_le16 big sx, copyarea_sy = sdk_cpu_to_le16 big sy,
     copyarea_dx = sdk_cpu_to_le16 big dx, copyarea_dy = sdk_cpu_to_le16 big dy, copyarea_width = sdk_cpu_to_le16 big w,
     copyarea_height = sdk_cpu_to_le16 big g\<rparr>
   = cmd_flag h # cpu_to_le16 sx @ cpu_to_le16 sy @ cpu_to_le16 dx @ cpu_to_le16 dy @ cpu_to_le16 w @ cpu_to_le16 g"
  by (simp_all add: sdk_fill_bytes_def sdk_fillrect_bytes_def sdk_bitblt_bytes_def sdk_copyarea_bytes_def header_bytes_def)

lemma length_host16 [simp]: "length (host16 big v) = 2"
  by (simp add: host16_def)

lemma firmware_eq:
  "fst (lib_descriptor env (device (impl s))) = 0 \<Longrightarrow> firmware env s = (Inr (version_of env s), s)"
  by (cases "lib_descriptor env (device (impl s))")
    (simp add: firmware_def Impl_getDevice_def getFirmwareVersion_def getDescriptor_def version_of_def)

subsection \<open>Compressing a payload\<close>

lemma rleCompress_eq:
  fixes s :: "'z disp_state_scheme"
  assumes mem: "memory_ok env" and b: "buf_alive b s" "\<not> buf_locked (bufs s ! b)" "nakedBuffer (bufs s ! b) = bs"
    and bs: "even (length bs)" "bs \<noteq> []" "length bs < 2 ^ 62"
  shows "\<exists>out. rleCompress env b s = (Inr (length (bufs s)), s\<lparr>bufs := bufs s @ [\<lparr>nakedBuffer = out, buf_locked = False, buf_refs = 1\<rparr>]\<rparr>)
    \<and> rle_decode (length out) out = pixels_of bs \<and> length out \<le> length bs + (length bs div 2 + 127) div 128"
proof -
  have mem': "malloc_ok env k" "length (fresh_bytes env k) = k" for k
    using mem by (simp_all add: memory_ok_def)
  obtain px pxs where out: "pixels_of bs = px # pxs"
    "compress (fresh_bytes env (estBufferSize (length bs))) bs = Inr (sdk_stream (Literal [px]) pxs)"
    "length (sdk_stream (Literal [px]) pxs) \<le> estBufferSize (length bs)"
    using compress_ok [OF bs mem'(2)] mem'(2) by auto
  let ?out = "sdk_stream (Literal [px]) pxs" and ?i = "length (bufs s)"
  define s1 where "s1 = set_buf b held s"
  define s2 where "s2 = s1\<lparr>bufs := bufs s1 @ [\<lparr>nakedBuffer = fresh_bytes env (length ?out), buf_locked = False, buf_refs = 1\<rparr>]\<rparr>"
  define s3 where "s3 = s1\<lparr>bufs := bufs s1 @ [\<lparr>nakedBuffer = ?out, buf_locked = False, buf_refs = 1\<rparr>]\<rparr>"
  let ?wr = "\<lambda>naked. act_bind (mem_write naked 0 ?out) (\<lambda>u. act_return ?i)"
  let ?body = "\<lambda>address. act_bind (mem_read address 0 (length bs)) (\<lambda>bytes.
      act_bind (act_lift (compress (fresh_bytes env (estBufferSize (length bs))) bytes)) (\<lambda>out.
      act_bind (Buffer_new env (length out)) (\<lambda>o'.
      BufferLockScope o' (\<lambda>naked. act_bind (mem_write naked 0 out) (\<lambda>u. act_return o')))))"
  note less = buf_alive_less [OF b(1)]
  have i: "length (bufs s1) = ?i" "nakedBuffer (bufs s1 ! b) = bs" "buf_alive b s1"
    using b less by (simp_all add: s1_def)
  have read: "mem_read b 0 (length bs) s1 = (Inr bs, s1)"
    using i by (simp add: mem_read_def)
  have new: "Buffer_new env (length ?out) s1 = (Inr ?i, s2)"
    using mem' i(1) by (simp add: Buffer_new_def Buffer_add_def s2_def)
  have "?wr ?i (set_buf ?i held s2)
      = (Inr ?i, s1\<lparr>bufs := bufs s1 @ [\<lparr>nakedBuffer = ?out, buf_locked = True, buf_refs = 2\<rparr>]\<rparr>)"
    using mem' i(1) by (simp add: s2_def mem_write_def set_buf_def nth_append list_update_append buf_put_whole on_buffer_def buf_alive_def)
  then have "BufferLockScope ?i ?wr s2 = (Inr ?i, s3)"
    using scope_eq [where b = ?i and s = s2 and body = ?wr] i(1)
    by (simp add: s2_def s3_def set_buf_def nth_append list_update_append buf_alive_def)
  then have "?body b s1 = (Inr ?i, s3)"
    using read new out(2) by simp
  then have "BufferLockScope b ?body s = (Inr ?i, set_buf b dropped s3)"
    using scope_eq [where b = b and s = s and body = ?body] b i less
    by (simp add: s1_def [symmetric]) (simp add: s3_def s1_def buf_alive_def nth_append)
  moreover have "set_buf b dropped s3 = s\<lparr>bufs := bufs s @ [\<lparr>nakedBuffer = ?out, buf_locked = False, buf_refs = 1\<rparr>]\<rparr>"
    using less b(2) by (simp add: s3_def s1_def set_buf_def nth_append list_update_append)
  ultimately have "rleCompress env b s = (Inr ?i, s\<lparr>bufs := bufs s @ [\<lparr>nakedBuffer = ?out, buf_locked = False, buf_refs = 1\<rparr>]\<rparr>)"
    using bs(1) b by (simp add: rleCompress_def Buffer_size_def)
  moreover have "rle_decode (length ?out) ?out = pixels_of bs"
    using sdk_stream_decodes [of px pxs] pixels_of_two [of bs] out(1) by simp
  ultimately show ?thesis
    using out(3) estBufferSize [OF bs(3)] by (intro exI [of _ ?out]) simp
qed

subsection \<open>Bitblt\<close>

text \<open>What the device is to decode.\<close>

definition sdk_packet :: "bool \<Rightarrow> bool \<Rightarrow> u16 \<Rightarrow> u16 \<Rightarrow> u16 \<Rightarrow> u16 \<Rightarrow> RoboPeakUsbDisplayBitOperation
    \<Rightarrow> rpusbdisp_disp_bitblt_packet_t" where
  "sdk_packet dirty rle x y w h m =
     \<lparr>bitblt_header = \<lparr>cmd_flag = packet_header_byte dirty 0 (if rle then RPUSBDISP_DISPCMD_BITBLT_RLE else RPUSBDISP_DISPCMD_BITBLT)\<rparr>,
      bitblt_x = x, bitblt_y = y, bitblt_width = w, bitblt_height = h, bitblt_operation = bit_operation_code m\<rparr>"

lemma sdk_packet_rle:
  "cmd_flag (bitblt_header (sdk_packet dirty rle x y w h m)) AND RPUSBDISP_CMD_MASK = RPUSBDISP_DISPCMD_BITBLT_RLE \<longleftrightarrow> rle"
  by (simp add: sdk_packet_def packet_header_byte_def Let_def cmd_of_flags or.assoc) (simp add: cmd_defs)

lemma parse_pixels_of: "parse_pixels (concat (pixels_of bs)) = parse_pixels bs"
  by (induction bs rule: pixels_of.induct) simp_all

lemma payload_size_ok:
  assumes "unat w * unat h < 2 ^ 28"
  shows "payload_size w h = 2 * unat w * unat h"
proof -
  define n where "n = unat w * unat h"
  have n: "uint w * uint h = int n"
    unfolding n_def of_nat_mult by (simp only: uint_nat)
  have small: "n < 2 ^ 28"
    using assms by (simp only: n_def)
  have double: "c_int (c_int (int n) * 2) = int (2 * n)"
    using small by (simp add: c_int_id)
  have "payload_size w h = 2 * n"
    unfolding payload_size_def n double by (rule size_t_int) (use small in simp)
  then show ?thesis
    by (simp only: n_def mult.assoc)
qed

lemma bitblt_decoded:
  assumes "device_payload ep [u] = cpu_to_le16 x @ cpu_to_le16 y @ cpu_to_le16 w @ cpu_to_le16 h @ [bit_operation_code m] @ data"
    and "hd (device_headers ep [u]) = packet_header_byte dirty 0 (if rle then RPUSBDISP_DISPCMD_BITBLT_RLE else RPUSBDISP_DISPCMD_BITBLT)"
    and "if rle then rle_decode (length data) data = pixels_of bs else data = bs"
  shows "decode_bitblt ep [u] = Some (sdk_packet dirty rle x y w h m, parse_pixels bs)"
proof -
  have "hd (device_headers ep [u]) # device_payload ep [u] = bitblt_bytes (sdk_packet dirty rle x y w h m) @ data"
    using assms(1,2) by (simp add: bitblt_bytes_def header_bytes_def sdk_packet_def)
  then show ?thesis
    using assms(3) sdk_packet_rle [of dirty rle x y w h m] by (auto simp: decode_bitblt_def parse_pixels_of)
qed

text \<open>
  C26. A bitblt through the user-mode SDK arrives: with memory, a running pipeline and a libusb that
  takes and completes transfers, the call returns after one transfer, from which the device decodes
  the rectangle, the raster operation and exactly the pixels of the client's buffer, compressed or
  not as its firmware allows; and the first header asks it to clear its dirty flag if and only if it
  had reported one.
\<close>

theorem sdk_bitblt_delivers:
  assumes ready: "sdk_ready env ep s" and size: "0 < unat w" "0 < unat h" "unat w * unat h < 2 ^ 27"
    and pixels: "2 * unat w * unat h \<le> length pixels"
  shows "\<exists>s' u. sdk_bitblt env x y w h m pixels s = (Inr (), s') \<and> sent s s' u
    \<and> decode_bitblt ep [u] = Some (sdk_packet (dirty_reported s) (\<not> version_of env s < MIN_VERSION_BITBLT_RLE) x y w h m,
        parse_pixels (take (2 * unat w * unat h) pixels))"
proof -
  define n where "n = payload_size w h"
  define bs where "bs = take n pixels"
  let ?i = "length (bufs s)" and ?rle = "\<not> version_of env s < MIN_VERSION_BITBLT_RLE"
  let ?cmd = "if ?rle then RPUSBDISP_DISPCMD_BITBLT_RLE else RPUSBDISP_DISPCMD_BITBLT"
  have n: "n = 2 * unat w * unat h"
    unfolding n_def by (rule payload_size_ok) (use size(3) in simp)
  have small: "n < 2 ^ 28"
  proof -
    have "2 * (unat w * unat h) < 2 * 2 ^ 27"
      using size(3) by linarith
    then show ?thesis
      unfolding n mult.assoc by simp
  qed
  have "n \<noteq> 0" "even n"
    using size(1,2) by (simp_all add: n)
  then have bs: "length bs = n" "bs \<noteq> []" "even (length bs)" "length bs < 2 ^ 62"
    using pixels small by (auto simp: bs_def n)
  have mem: "memory_ok env" and mem': "malloc_ok env k" "length (fresh_bytes env k) = k" for k
    using ready by (simp_all add: sdk_ready_def memory_ok_def)
  define s1 where "s1 = s\<lparr>bufs := bufs s @ [\<lparr>nakedBuffer = fresh_bytes env n, buf_locked = False, buf_refs = 1\<rparr>]\<rparr>"
  define s2 where "s2 = s\<lparr>bufs := bufs s @ [\<lparr>nakedBuffer = bs, buf_locked = False, buf_refs = 1\<rparr>]\<rparr>"
  have new: "Buffer_new env n s = (Inr ?i, s1)"
    using mem' by (simp add: Buffer_new_def Buffer_add_def s1_def)
  let ?body = "\<lambda>naked. if length pixels < n then act_stop (Crash OutOfBounds) else mem_write naked 0 (take n pixels)"
  have "?body ?i (set_buf ?i held s1)
      = (Inr (), s\<lparr>bufs := bufs s @ [\<lparr>nakedBuffer = bs, buf_locked = True, buf_refs = 2\<rparr>]\<rparr>)"
    using bs(1) mem' pixels n by (simp add: s1_def bs_def mem_write_def set_buf_def nth_append list_update_append buf_put_whole on_buffer_def buf_alive_def)
  then have copied: "BufferLockScope ?i ?body s1 = (Inr (), s2)"
    using scope_eq [where b = ?i and s = s1 and body = ?body]
    by (simp add: s1_def s2_def set_buf_def nth_append list_update_append buf_alive_def)
  have ready2: "sdk_ready env ep s2" "version_of env s2 = version_of env s" "dirty_reported s2 = dirty_reported s"
    "usb_events s2 = usb_events s" "impl s2 = impl s" "pipeline s2 = pipeline s" "slept_ms s2 = slept_ms s"
    using ready by (simp_all add: s2_def sdk_ready_def version_of_def dirty_reported_def polling_def)
  have buf2: "buf_alive ?i s2" "\<not> buf_locked (bufs s2 ! ?i)" "nakedBuffer (bufs s2 ! ?i) = bs"
    by (simp_all add: s2_def buf_alive_def)
  let ?choose = "if version_of env s < MIN_VERSION_BITBLT_RLE then act_return (RPUSBDISP_DISPCMD_BITBLT, ?i)
      else act_bind (rleCompress env ?i) (\<lambda>b. act_bind (Buffer_unref ?i) (\<lambda>u. act_return (RPUSBDISP_DISPCMD_BITBLT_RLE, b)))"
  obtain b data s3 where prepared: "?choose s2 = (Inr (?cmd, b), s3)"
    and payload: "payload_is (Some b) data s3" "length data \<le> 2 * n"
    and s3: "sdk_ready env ep s3" "dirty_reported s3 = dirty_reported s" "usb_events s3 = usb_events s"
      "impl s3 = impl s" "pipeline s3 = pipeline s" "slept_ms s3 = slept_ms s"
    and decoded: "if ?rle then rle_decode (length data) data = pixels_of bs else data = bs"
  proof (cases ?rle)
    case True
    obtain out where out: "rleCompress env ?i s2 = (Inr (length (bufs s2)), s2\<lparr>bufs := bufs s2 @ [\<lparr>nakedBuffer = out, buf_locked = False, buf_refs = 1\<rparr>]\<rparr>)"
      "rle_decode (length out) out = pixels_of bs" "length out \<le> length bs + (length bs div 2 + 127) div 128"
      using rleCompress_eq [OF mem buf2 bs(3,2,4)] by blast
    have "(n div 2 + 127) div 128 \<le> n"
      using \<open>n \<noteq> 0\<close> by simp
    moreover define s3 where "s3 = s\<lparr>bufs := bufs s @ [\<lparr>nakedBuffer = bs, buf_locked = False, buf_refs = 0\<rparr>,
        \<lparr>nakedBuffer = out, buf_locked = False, buf_refs = 1\<rparr>]\<rparr>"
    moreover have "Buffer_unref ?i (s2\<lparr>bufs := bufs s2 @ [\<lparr>nakedBuffer = out, buf_locked = False, buf_refs = 1\<rparr>]\<rparr>) = (Inr (), s3)"
      by (simp add: Buffer_unref_def on_buffer_def buf_alive_def s2_def s3_def set_buf_def nth_append list_update_append)
    ultimately show ?thesis
      using True out bs(1) ready
      by (intro that [of "length (bufs s2)" s3 out])
        (simp_all add: s2_def payload_is_def sdk_ready_def dirty_reported_def polling_def buf_alive_def nth_append)
  next
    case False
    then show ?thesis
      using buf2 ready2 bs(1) by (intro that [of ?i s2 bs]) (simp_all add: payload_is_def)
  qed
  let ?packet = "?cmd # cpu_to_le16 x @ cpu_to_le16 y @ cpu_to_le16 w @ cpu_to_le16 h @ [bit_operation_code m]"
  have "length (?packet @ data) < 2 ^ 30"
    using payload(2) small by simp
  then have "length (?cmd # (cpu_to_le16 x @ cpu_to_le16 y @ cpu_to_le16 w @ cpu_to_le16 h @ [bit_operation_code m]) @ data) < 2 ^ 30"
    by simp
  from shared_command_sent [OF s3(1) payload(1) this]
  obtain s' u where send: "shared_buffer b (sendCommandToDisplayEndpoint env ?packet (Some b)) s3 = (Inr (), s')" "sent s3 s' u"
    "device_payload ep [u] = cpu_to_le16 x @ cpu_to_le16 y @ cpu_to_le16 w @ cpu_to_le16 h @ [bit_operation_code m] @ data"
    "hd (device_headers ep [u]) = packet_header_byte (dirty_reported s3) 0 ?cmd"
    by auto
  have "decode_bitblt ep [u] = Some (sdk_packet (dirty_reported s) ?rle x y w h m, parse_pixels bs)"
    using bitblt_decoded [OF send(3) _ decoded] send(4) s3(2) by simp
  moreover have "sdk_bitblt env x y w h m pixels s = (Inr (), s')"
  proof -
    have "firmware env s2 = (Inr (version_of env s), s2)"
      using firmware_eq [of env s2] ready2 by (simp add: sdk_ready_def)
    then have "on_throw (act_bind (BufferLockScope ?i ?body) (\<lambda>u. act_bind (firmware env) (\<lambda>version.
        if version < MIN_VERSION_BITBLT_RLE then act_return (RPUSBDISP_DISPCMD_BITBLT, ?i)
        else act_bind (rleCompress env ?i) (\<lambda>b. act_bind (Buffer_unref ?i) (\<lambda>u. act_return (RPUSBDISP_DISPCMD_BITBLT_RLE, b))))))
        (Buffer_unref ?i) s1 = (Inr (?cmd, b), s3)"
      using copied prepared by (simp add: on_throw_def)
    then show ?thesis
      using new send(1) unfolding sdk_bitblt_def n_def [symmetric] Let_def sdk_images by simp
  qed
  moreover have "sent s s' u"
    using send(2) s3(3-6) by (simp add: sent_def)
  ultimately show ?thesis
    unfolding bs_def n by blast
qed

text \<open>A libusb that takes and completes everything, and a device of 64-byte packets behind it.\<close>

definition working_env :: "u16 \<Rightarrow> disp_env" where
  "working_env version =
     \<lparr>malloc_ok = (\<lambda>_. True), fresh_bytes = (\<lambda>n. replicate n 0), lib_alloc = (\<lambda>_. True),
      lib_submit = (\<lambda>_ _ _. 0), lib_complete = (\<lambda>_ _. Some (LIBUSB_TRANSFER_COMPLETED, [])),
      lib_clear_halt = (\<lambda>_ _. 0), lib_claim = (\<lambda>_ _. 0), lib_release = (\<lambda>_ _. 0), lib_init = 0,
      lib_devices = (\<lambda>_. Inr [0]),
      lib_descriptor = (\<lambda>_. (0, \<lparr>idVendor = UsbDeviceVendorId, idProduct = UsbDeviceProductId, bcdDevice = version,
        iProduct = 1, iSerialNumber = 2\<rparr>)),
      lib_max_packet_size = (\<lambda>_ _. 64), lib_open = (\<lambda>_ _. 0), lib_string = (\<lambda>_. (0, [])), big_endian = False\<rparr>"

definition opened_state :: disp_state where
  "opened_state =
     \<lparr>bufs = [], console = [], usb_events = [], default_context = True,
      pipeline = Some \<lparr>pl_working = True, pl_thread = True, pl_refs = 1\<rparr>,
      dev_refs = (\<lambda>d. if d = 0 then 1 else 0), live_transfers = 0,
      impl = \<lparr>status = \<lparr>packet_type = 0, display_status = 0x80, touch_status = 0, touch_x = 0, touch_y = 0\<rparr>,
              statusCallback = False, working = True, status_started = True, device = 0, own_pipeline = True,
              maxPacketSize = 64\<rparr>,
      callback_log = [], slept_ms = 0\<rparr>"

lemma opened_ready: "sdk_ready (working_env v) 64 opened_state"
  by (simp add: sdk_ready_def memory_ok_def usb_works_def working_env_def opened_state_def polling_def mps_ok_def)

lemma opened_facts:
  "version_of (working_env v) opened_state = v" "dirty_reported opened_state" "usb_events opened_state = []"
  by (simp_all add: version_of_def working_env_def opened_state_def dirty_reported_def status_defs)

theorem sdk_bitblt_delivers_witness:
  "\<exists>s' u. sdk_bitblt (working_env 0x0104) 3 4 2 1 RoboPeakUsbDisplayBitOperationXor [1, 0, 2, 0] opened_state = (Inr (), s')
    \<and> sent opened_state s' u
    \<and> decode_bitblt 64 [u] = Some (sdk_packet True True 3 4 2 1 RoboPeakUsbDisplayBitOperationXor, [1, 2])"
  using sdk_bitblt_delivers [OF opened_ready [of "0x0104"], of 2 1 "[1, 0, 2, 0]" 3 4 RoboPeakUsbDisplayBitOperationXor]
  by (simp add: opened_facts sdk_versions le16_to_cpu_def)

subsection \<open>Fill, rectangle and copy\<close>

text \<open>The command as the device reads it: the first header byte, then everything else.\<close>

definition received :: "nat \<Rightarrow> u8 list \<Rightarrow> u8 list" where
  "received ep u = hd (device_headers ep [u]) # device_payload ep [u]"

text \<open>A call that returns after one transfer, and what the device reads from it.\<close>

definition sends :: "nat \<Rightarrow> (stop + unit) \<times> 'z disp_state_scheme \<Rightarrow> 'z disp_state_scheme \<Rightarrow> (u8 list \<Rightarrow> bool) \<Rightarrow> bool" where
  "sends ep result s P \<longleftrightarrow> (\<exists>s' u. result = (Inr (), s') \<and> sent s s' u \<and> P (received ep u))"

lemma command_sends:
  fixes s :: "'z disp_state_scheme"
  assumes "sdk_ready env ep s" "payload_is payload data s" "length (c # p @ data) < 2 ^ 30"
    "P (packet_header_byte (dirty_reported s) 0 c # p @ data)"
  shows "sends ep (sendCommandToDisplayEndpoint env (c # p) payload s) s P"
  using command_sent [OF assms(1) refl assms(2), of c p] assms(3,4) unfolding sends_def received_def by fastforce

lemma shared_command_sends:
  fixes s :: "'z disp_state_scheme"
  assumes "sdk_ready env ep s" "payload_is (Some b) data s" "length (c # p @ data) < 2 ^ 30"
    "P (packet_header_byte (dirty_reported s) 0 c # p @ data)"
  shows "sends ep (shared_buffer b (sendCommandToDisplayEndpoint env (c # p) (Some b)) s) s P"
  using shared_command_sent [OF assms(1-3)] assms(4) unfolding sends_def received_def by fastforce

lemma host16_image: "host16 big v = cpu_to_le16 (sdk_cpu_to_le16 big v)"
proof (cases big)
  case True
  have twice: "sdk_cpu_to_le16 True (sdk_cpu_to_le16 True v) = v"
    unfolding sdk_cpu_to_le16_def sdk_le16_to_cpu_def mask_byte
    by (rule bit_word_eqI) (auto simp: bit_simps)
  show ?thesis
    using host16_converted [of True "sdk_cpu_to_le16 True v"] True by (simp add: twice)
qed (simp add: host16_def sdk_cpu_to_le16_def sdk_le16_to_cpu_def)

lemma fillrect_sends:
  fixes s :: "'z disp_state_scheme"
  assumes "sdk_ready env ep s"
  shows "sends ep (sdk_fillrect env l t r b color m s) s (\<lambda>bs. parse_fillrect bs = Some
    (\<lparr>fillrect_header = \<lparr>cmd_flag = packet_header_byte (dirty_reported s) 0 RPUSBDISP_DISPCMD_RECT\<rparr>, fillrect_left = l,
      fillrect_top = t, fillrect_right = r, fillrect_bottom = b,
      fillrect_color_565 = sdk_cpu_to_le16 (big_endian env) color, fillrect_operation = bit_operation_code m\<rparr>, []))"
  unfolding sdk_fillrect_def Let_def sdk_images
  by (rule command_sends [OF assms, where data = "[]"])
    (simp_all add: payload_is_def host16_image cpu_to_le16_def)

lemma rect_commands:
  fixes s :: "'z disp_state_scheme"
  assumes "sdk_ready env ep s"
  shows "sends ep (sdk_fillrect env l t r b color m s) s (\<lambda>bs. parse_fillrect bs = Some
      (\<lparr>fillrect_header = \<lparr>cmd_flag = packet_header_byte (dirty_reported s) 0 RPUSBDISP_DISPCMD_RECT\<rparr>, fillrect_left = l,
        fillrect_top = t, fillrect_right = r, fillrect_bottom = b,
        fillrect_color_565 = sdk_cpu_to_le16 (big_endian env) color, fillrect_operation = bit_operation_code m\<rparr>, []))"
    (is ?rect)
    and "sends ep (sdk_fill env color s) s (\<lambda>bs.
      if version_of env s < MIN_VERSION_FILL then parse_fillrect bs = Some
        (\<lparr>fillrect_header = \<lparr>cmd_flag = packet_header_byte (dirty_reported s) 0 RPUSBDISP_DISPCMD_RECT\<rparr>, fillrect_left = 0,
          fillrect_top = 0, fillrect_right = 319, fillrect_bottom = 239,
          fillrect_color_565 = sdk_cpu_to_le16 (big_endian env) color, fillrect_operation = 0\<rparr>, [])
      else bs = packet_header_byte (dirty_reported s) 0 RPUSBDISP_DISPCMD_FILL # cpu_to_le16 color)"
    (is ?fill)
    and "sends ep (sdk_copyArea env sx sy dx dy w h s) s (\<lambda>bs. \<exists>pad. parse_copyarea bs = Some
      (\<lparr>copyarea_header = \<lparr>cmd_flag = packet_header_byte (dirty_reported s) 0 RPUSBDISP_DISPCMD_COPY_AREA\<rparr>, copyarea_sx = sx,
        copyarea_sy = sy, copyarea_dx = dx, copyarea_dy = dy, copyarea_width = w, copyarea_height = h\<rparr>, pad)
      \<and> length pad = (if version_of env s < MIN_VERSION_COPY_AREA_BUG_FIX then 1 else 0))"
    (is ?copy)
proof -
  have version: "firmware env s = (Inr (version_of env s), s)"
    by (rule firmware_eq) (use assms in \<open>simp add: sdk_ready_def\<close>)
  have none: "payload_is None [] s"
    by (simp add: payload_is_def)
  show ?rect
    by (rule fillrect_sends [OF assms])
  show ?fill
  proof (cases "version_of env s < MIN_VERSION_FILL")
    case True
    then have "sdk_fill env color s = sdk_fillrect env 0 0 319 239 color RoboPeakUsbDisplayBitOperationCopy s"
      using version by (simp add: sdk_fill_def getWidth_def getHeight_def ScreenWidth_def ScreenHeight_def)
    then show ?thesis
      using True fillrect_sends [OF assms, of 0 0 319 239 color RoboPeakUsbDisplayBitOperationCopy] by simp
  next
    case False
    then have "sdk_fill env color s = sendCommandToDisplayEndpoint env (RPUSBDISP_DISPCMD_FILL # cpu_to_le16 color) None s"
      using version by (simp add: sdk_fill_def sdk_images)
    then show ?thesis
      using False by (simp only: if_False) (rule command_sends [OF assms none], simp_all)
  qed
  let ?packet = "RPUSBDISP_DISPCMD_COPY_AREA # cpu_to_le16 sx @ cpu_to_le16 sy @ cpu_to_le16 dx @ cpu_to_le16 dy @ cpu_to_le16 w @ cpu_to_le16 h"
  show ?copy
  proof (cases "version_of env s < MIN_VERSION_COPY_AREA_BUG_FIX")
    case True
    have mem: "malloc_ok env k" "length (fresh_bytes env k) = k" for k
      using assms by (simp_all add: sdk_ready_def memory_ok_def)
    obtain x where x: "fresh_bytes env 1 = [x]"
      using mem(2) [of 1] by (cases "fresh_bytes env 1") auto
    define s1 where "s1 = s\<lparr>bufs := bufs s @ [\<lparr>nakedBuffer = [x], buf_locked = False, buf_refs = 1\<rparr>]\<rparr>"
    have "Buffer_new env 1 s = (Inr (length (bufs s)), s1)"
      using mem x by (simp add: Buffer_new_def Buffer_add_def s1_def)
    then have copy: "sdk_copyArea env sx sy dx dy w h s
        = shared_buffer (length (bufs s)) (sendCommandToDisplayEndpoint env ?packet (Some (length (bufs s)))) s1"
      using version True by (simp add: sdk_copyArea_def Let_def sdk_images)
    have s1: "sdk_ready env ep s1" "payload_is (Some (length (bufs s))) [x] s1" "dirty_reported s1 = dirty_reported s"
      "usb_events s1 = usb_events s" "impl s1 = impl s" "pipeline s1 = pipeline s" "slept_ms s1 = slept_ms s"
      using assms by (simp_all add: s1_def sdk_ready_def payload_is_def dirty_reported_def polling_def buf_alive_def)
    let ?P = "\<lambda>bs. \<exists>pad. parse_copyarea bs = Some
      (\<lparr>copyarea_header = \<lparr>cmd_flag = packet_header_byte (dirty_reported s) 0 RPUSBDISP_DISPCMD_COPY_AREA\<rparr>, copyarea_sx = sx,
        copyarea_sy = sy, copyarea_dx = dx, copyarea_dy = dy, copyarea_width = w, copyarea_height = h\<rparr>, pad) \<and> length pad = (1 :: nat)"
    have "sends ep (shared_buffer (length (bufs s)) (sendCommandToDisplayEndpoint env ?packet (Some (length (bufs s)))) s1) s1 ?P"
      by (rule shared_command_sends [OF s1(1,2)]) (simp_all add: cpu_to_le16_def s1(3))
    then have "sends ep (sdk_copyArea env sx sy dx dy w h s) s ?P"
      unfolding copy sends_def sent_def s1(4-7) .
    then show ?thesis
      using True by (simp only: if_True)
  next
    case False
    then have copy: "sdk_copyArea env sx sy dx dy w h s = sendCommandToDisplayEndpoint env ?packet None s"
      using version by (simp add: sdk_copyArea_def Let_def sdk_images)
    show ?thesis
      unfolding copy by (rule command_sends [OF assms none]) (use False in \<open>simp_all add: cpu_to_le16_def\<close>)
  qed
qed

text \<open>
  C29. The other commands arrive too. A rectangle is decoded as given, except for its colour, which
  is not converted to the byte order of the device, so that a big-endian host has its bytes swapped;
  a fill is one fill command, or on firmware before 1.04 a rectangle over the whole screen; a copy
  is decoded as given, with one byte of padding behind it on firmware before 1.04.
\<close>

theorem sdk_rect_commands:
  fixes s :: "'z disp_state_scheme"
  assumes "sdk_ready env ep s"
  shows "sends ep (sdk_fillrect env l t r b color m s) s (\<lambda>bs. parse_fillrect bs = Some
      (\<lparr>fillrect_header = \<lparr>cmd_flag = packet_header_byte (dirty_reported s) 0 RPUSBDISP_DISPCMD_RECT\<rparr>, fillrect_left = l,
        fillrect_top = t, fillrect_right = r, fillrect_bottom = b,
        fillrect_color_565 = sdk_cpu_to_le16 (big_endian env) color, fillrect_operation = bit_operation_code m\<rparr>, []))
    \<and> sends ep (sdk_fill env color s) s (\<lambda>bs.
      if version_of env s < MIN_VERSION_FILL then parse_fillrect bs = Some
        (\<lparr>fillrect_header = \<lparr>cmd_flag = packet_header_byte (dirty_reported s) 0 RPUSBDISP_DISPCMD_RECT\<rparr>, fillrect_left = 0,
          fillrect_top = 0, fillrect_right = 319, fillrect_bottom = 239,
          fillrect_color_565 = sdk_cpu_to_le16 (big_endian env) color, fillrect_operation = 0\<rparr>, [])
      else bs = packet_header_byte (dirty_reported s) 0 RPUSBDISP_DISPCMD_FILL # cpu_to_le16 color)
    \<and> sends ep (sdk_copyArea env sx sy dx dy w h s) s (\<lambda>bs. \<exists>pad. parse_copyarea bs = Some
      (\<lparr>copyarea_header = \<lparr>cmd_flag = packet_header_byte (dirty_reported s) 0 RPUSBDISP_DISPCMD_COPY_AREA\<rparr>, copyarea_sx = sx,
        copyarea_sy = sy, copyarea_dx = dx, copyarea_dy = dy, copyarea_width = w, copyarea_height = h\<rparr>, pad)
      \<and> length pad = (if version_of env s < MIN_VERSION_COPY_AREA_BUG_FIX then 1 else 0))"
  by (intro conjI rect_commands [OF assms])

theorem sdk_rect_commands_witness:
  "sends 64 (sdk_fill ((working_env 0x0103)\<lparr>big_endian := True\<rparr>) 0x00F8 opened_state) opened_state
     (\<lambda>bs. parse_fillrect bs = Some
        (\<lparr>fillrect_header = \<lparr>cmd_flag = packet_header_byte True 0 RPUSBDISP_DISPCMD_RECT\<rparr>, fillrect_left = 0,
          fillrect_top = 0, fillrect_right = 319, fillrect_bottom = 239, fillrect_color_565 = 0xF800,
          fillrect_operation = 0\<rparr>, []))"
proof -
  have ready: "sdk_ready ((working_env 0x0103)\<lparr>big_endian := True\<rparr>) 64 opened_state"
    using opened_ready [of "0x0103"] by (simp add: sdk_ready_def memory_ok_def usb_works_def)
  have "version_of ((working_env 0x0103)\<lparr>big_endian := True\<rparr>) opened_state = 0x0103"
    using opened_facts(1) [of "0x0103"] by (simp add: version_of_def)
  then show ?thesis
    using sdk_rect_commands [OF ready, where color = "0x00F8"] opened_facts(2)
    by (simp add: sdk_versions sdk_cpu_to_le16_def sdk_le16_to_cpu_def)
qed

text \<open>
  C28. A command tries exactly one transfer, which carries the framed stream of the packet and its
  payload, and its outcome is that of the transfer: the error code of a refused submission, the
  status of a failed one, no return at all if nobody handles the events of libusb or the transfer
  never completes. Unless it hangs, the two buffers it made are freed, and nothing else has changed.
\<close>

theorem sdk_command_outcome:
  fixes s :: "'z disp_state_scheme"
  assumes "memory_ok env" "mps_ok (maxPacketSize (impl s)) ep" "packet \<noteq> []" "payload_is payload data s"
    and "length (packet @ data) < 2 ^ 30"
    and "attempt env (out_transfer (length (bufs s) + 1) (length (command_stream ep packet data s)))
      (command_stream ep packet data s) (polling s) (usb_events s) = (r, log)"
  shows "\<exists>s'. sendCommandToDisplayEndpoint env packet payload s = (r, s') \<and> usb_events s' = log
    \<and> (unwinds r \<longrightarrow> s' = s\<lparr>bufs := bufs s @ command_buffers ep packet data s, usb_events := log\<rparr>)"
  by (rule send_command_eq [OF assms])

theorem sdk_command_outcome_witness:
  "\<exists>s'. sendCommandToDisplayEndpoint (working_env 0x0104) [1, 2, 3] None (opened_state\<lparr>pipeline := None\<rparr>) = (Inl Hang, s')"
proof -
  have "memory_ok (working_env 0x0104)" "mps_ok (maxPacketSize (impl (opened_state\<lparr>pipeline := None\<rparr>))) 64"
    using opened_ready [of "0x0104"] by (simp_all add: sdk_ready_def)
  moreover have "payload_is None [] (opened_state\<lparr>pipeline := None\<rparr>)"
    by (simp add: payload_is_def)
  ultimately show ?thesis
    using sdk_command_outcome [where env = "working_env 0x0104" and s = "opened_state\<lparr>pipeline := None\<rparr>" and ep = 64
      and packet = "[1, 2, 3]" and payload = None and data = "[]" and r = "Inl Hang"]
    by (auto simp: attempt_def working_env_def polling_def Let_def)
qed

end
