(* ===== verification/Sdk_Status.thy ===== *)
theory Sdk_Status
  imports Sdk_Commands
begin

text \<open>
  The status thread of the user-mode SDK, the enabling of a device and the search for one.
\<close>

subsection \<open>A round of the status thread\<close>

text \<open>The transfer of the status thread, between two rounds: it holds its buffer of 32 bytes.\<close>

definition status_transfer :: "TransferImpl \<Rightarrow> 'z util_state_scheme \<Rightarrow> bool" where
  "status_transfer t s \<longleftrightarrow> \<not> completion t \<and> (\<exists>b. transferBuffer t = Some b \<and> buf_alive b s
     \<and> length (nakedBuffer (bufs s ! b)) = 32 \<and> xf_buffer (handle t) = Some b \<and> xf_length (handle t) = 32
     \<and> xf_endpoint (handle t) = UsbDeviceStatusEndpoint)"

lemma parse_status:
  assumes "take 11 bs = status_bytes p"
  shows "(let st = parse_host_status big bs
    in st\<lparr>touch_x := sdk_le32_to_cpu big (touch_x st), touch_y := sdk_le32_to_cpu big (touch_y st)\<rparr>) = p"
proof -
  have "bs ! i = status_bytes p ! i" if "i < 11" for i
    using that nth_take [of i 11 bs] assms by simp
  then show ?thesis
    by (cases p) (simp add: parse_host_status_def read_host32_converted status_bytes_def cpu_to_le32_def Let_def)
qed

text \<open>What the transfer brings, given libusb's answers.\<close>

lemma round_answer:
  fixes s :: "'z disp_state_scheme"
  assumes t: "status_transfer t s" and sub: "\<And>l t bs. lib_submit env l t bs = 0" and polled: "polling s"
    and comp: "\<And>l t. lib_complete env l t = Some (st, data)"
  shows "\<exists>t' s'. act_bind (submit env t) (waitForCompletion env) s = (Inr t', s') \<and> status_transfer t' s'
    \<and> xf_status (handle t') = st \<and> transferBuffer t' = transferBuffer t
    \<and> nakedBuffer (bufs s' ! the (transferBuffer t)) = buf_put 0 (take 32 data) (nakedBuffer (bufs s ! the (transferBuffer t)))
    \<and> polling s' \<and> impl s' = impl s \<and> callback_log s' = callback_log s \<and> console s' = console s"
proof -
  obtain b where b: "transferBuffer t = Some b" "buf_alive b s" "length (nakedBuffer (bufs s ! b)) = 32"
      "xf_buffer (handle t) = Some b" "xf_length (handle t) = 32" "xf_endpoint (handle t) = UsbDeviceStatusEndpoint"
      "\<not> completion t"
    using t by (auto simp: status_transfer_def)
  note less = buf_alive_less [OF b(2)]
  have in_ep: "UsbDeviceStatusEndpoint AND 0x80 \<noteq> (0 :: u8)"
    by (simp add: UsbDeviceStatusEndpoint_def)
  obtain s1 where s1: "submit env t s = (Inr (t\<lparr>handle := (handle t)\<lparr>xf_user_data := True\<rparr>\<rparr>), s1)"
      "bufs s1 = bufs s" "polling s1" "impl s1 = impl s" "callback_log s1 = callback_log s" "console s1 = console s"
    using sub polled by (simp add: submit_def Let_def) (simp add: log_event_def)
  let ?t' = "t\<lparr>completion := False, handle := (handle t)\<lparr>xf_user_data := True, xf_status := st\<rparr>\<rparr>"
  let ?s' = "set_buf b (nakedBuffer_update (buf_put 0 (take 32 data))) (log_event (Completed st data) s1)"
  have "waitForCompletion env (t\<lparr>handle := (handle t)\<lparr>xf_user_data := True\<rparr>\<rparr>) s1 = (Inr ?t', ?s')"
    using b s1(3) comp in_ep
    by (simp add: waitForCompletion_def complete_transfer_def transferCallback_def)
  then have "act_bind (submit env t) (waitForCompletion env) s = (Inr ?t', ?s')"
    using s1(1) by simp
  moreover have "status_transfer ?t' ?s'"
    using b less s1(2) by (simp add: status_transfer_def buf_alive_def)
  moreover have "callback_log ?s' = callback_log s" "console ?s' = console s"
    using s1 by (simp_all add: set_buf_def log_event_def)
  ultimately show ?thesis
    using b less s1 by (intro exI [of _ ?t'] exI [of _ ?s']) simp
qed

lemma round_unfold:
  fixes s :: "'z disp_state_scheme"
  shows "status_round env t s = act_bind
     (act_catch (act_bind (act_bind (submit env t) (waitForCompletion env)) (\<lambda>t. act_return (Some t)))
       (\<lambda>e. act_bind (printToConsole e) (\<lambda>u. act_bind (set_impl (working_update (\<lambda>_. False))) (\<lambda>u. act_return None))))
     (\<lambda>r. case r of None \<Rightarrow> act_return None
        | Some t \<Rightarrow> act_bind
              (case getStatus t of
                 TransferStatusCompleted \<Rightarrow> act_catch (update_status env t) (\<lambda>e. act_stop Terminate)
               | TransferStatusStall \<Rightarrow>
                   act_catch (clearEndpointHalt env UsbDeviceStatusEndpoint) (\<lambda>e. act_stop Terminate)
               | st \<Rightarrow> act_put (\<lambda>s. s\<lparr>console := console s @ [''Unexpcected status: 0x'' @ hex8 (status_code st)]\<rparr>))
              (\<lambda>u. act_return (Some t))) s"
proof -
  have "act_bind (submit env t) (\<lambda>t. act_bind (waitForCompletion env t) (\<lambda>t. act_return (Some t)))
      = (act_bind (act_bind (submit env t) (waitForCompletion env)) (\<lambda>t. act_return (Some t))
          :: ('z disp_state_scheme, TransferImpl option) act)"
    by (rule ext) (simp add: act_bind_def split: prod.splits sum.splits)
  then show ?thesis
    unfolding status_round_def by simp
qed

lemma update_status_eq:
  fixes s :: "'z disp_state_scheme"
  assumes t: "status_transfer t s" and mem: "\<And>n. malloc_ok env n"
    and bytes: "take 11 (nakedBuffer (bufs s ! the (transferBuffer t))) = status_bytes p"
  shows "\<exists>s'. update_status env t s = (Inr (), s') \<and> status_transfer t s' \<and> polling s' = polling s
    \<and> impl s' = (impl s)\<lparr>status := p\<rparr> \<and> callback_log s' = callback_log s @ (if statusCallback (impl s) then [p] else [])"
proof -
  obtain b where b: "transferBuffer t = Some b" "buf_alive b s" "length (nakedBuffer (bufs s ! b)) = 32"
    using t by (auto simp: status_transfer_def)
  let ?bs = "nakedBuffer (bufs s ! b)" and ?i = "length (bufs s)"
  define s0 where "s0 = s\<lparr>bufs := bufs s @ [\<lparr>nakedBuffer = ?bs, buf_locked = False, buf_refs = 1\<rparr>]\<rparr>"
  define s1 where "s1 = s\<lparr>bufs := bufs s @ [\<lparr>nakedBuffer = ?bs, buf_locked = False, buf_refs = 0\<rparr>]\<rparr>"
  let ?read = "\<lambda>address. mem_read address 0 11"
  have clone: "Buffer_clone env b s = (Inr ?i, s0)"
    using mem b(2) by (simp add: Buffer_clone_def Buffer_add_def Let_def s0_def)
  have alive: "buf_alive ?i s0" "\<not> buf_locked (bufs s0 ! ?i)"
    by (simp_all add: s0_def buf_alive_def)
  have "?read ?i (set_buf ?i held s0) = (Inr (take 11 ?bs), set_buf ?i held s0)"
    using b(3) alive by (simp add: mem_read_def Let_def) (simp add: s0_def)
  then have "BufferLockScope ?i ?read s0 = (Inr (take 11 ?bs), set_buf ?i dropped (set_buf ?i held s0))"
    using scope_eq [where b = ?i and s = s0 and body = ?read] alive by simp
  also have "set_buf ?i dropped (set_buf ?i held s0) = s0"
    by (simp add: s0_def set_buf_def nth_append list_update_append)
  finally have "shared_buffer ?i (BufferLockScope ?i ?read) s0 = (Inr (take 11 ?bs), set_buf ?i unshared s0)"
    using shared_eq [where b = ?i and s = s0 and body = "BufferLockScope ?i ?read"] alive by simp
  also have "set_buf ?i unshared s0 = s1"
    by (simp add: s0_def s1_def set_buf_def nth_append list_update_append)
  finally have decoded: "decodeAs env 11 t s = (Inr (take 11 ?bs), s1)"
    using clone b(1) by (simp add: decodeAs_def)
  have "status_transfer t s1"
    using t b by (auto simp: status_transfer_def s1_def nth_append buf_alive_def)
  moreover have parsed: "(let st = parse_host_status (big_endian env) (take 11 ?bs)
    in st\<lparr>touch_x := sdk_le32_to_cpu (big_endian env) (touch_x st), touch_y := sdk_le32_to_cpu (big_endian env) (touch_y st)\<rparr>) = p"
    using parse_status [of "take 11 ?bs" p] bytes b(1) by simp
  ultimately show ?thesis
    unfolding update_status_def using decoded
    by (simp add: parsed [unfolded Let_def] Let_def set_impl_def) (simp add: s1_def status_transfer_def polling_def buf_alive_def)
qed

text \<open>
  C30. A status packet that arrives becomes the status of the display object exactly as the device
  wrote it, on a host of either byte order, the callback is called with it once if one is set, and
  the thread goes on with its transfer ready for the next round.
\<close>

theorem sdk_status_arrives:
  fixes s :: "'z disp_state_scheme"
  assumes "status_transfer t s" "\<And>n. malloc_ok env n" "\<And>l t bs. lib_submit env l t bs = 0" "polling s"
    and "\<And>l t. lib_complete env l t = Some (LIBUSB_TRANSFER_COMPLETED, status_bytes p)"
  shows "\<exists>t' s'. status_round env t s = (Inr (Some t'), s') \<and> status_transfer t' s' \<and> polling s'
    \<and> impl s' = (impl s)\<lparr>status := p\<rparr> \<and> callback_log s' = callback_log s @ (if statusCallback (impl s) then [p] else [])"
proof -
  obtain t' s1 where run: "act_bind (submit env t) (waitForCompletion env) s = (Inr t', s1)" "status_transfer t' s1"
    "xf_status (handle t') = LIBUSB_TRANSFER_COMPLETED" "transferBuffer t' = transferBuffer t" "polling s1"
    "nakedBuffer (bufs s1 ! the (transferBuffer t)) = buf_put 0 (take 32 (status_bytes p)) (nakedBuffer (bufs s ! the (transferBuffer t)))"
    "impl s1 = impl s" "callback_log s1 = callback_log s"
    using round_answer [OF assms(1,3,4,5)] by blast
  have "take 11 (nakedBuffer (bufs s1 ! the (transferBuffer t'))) = status_bytes p"
    unfolding run(4,6) by (simp add: buf_put_def)
  from update_status_eq [where env = env, OF run(2) assms(2) this]
  obtain s' where s': "update_status env t' s1 = (Inr (), s')" "status_transfer t' s'" "polling s' = polling s1"
    "impl s' = (impl s)\<lparr>status := p\<rparr>" "callback_log s' = callback_log s @ (if statusCallback (impl s) then [p] else [])"
    using run(7,8) by auto
  have "getStatus t' = TransferStatusCompleted"
    using run(3) by (simp add: getStatus_def)
  then have "status_round env t s = (Inr (Some t'), s')"
    unfolding round_unfold using run(1) s'(1) by simp
  then show ?thesis
    using s' run(5) by blast
qed

definition touched :: rpusbdisp_status_normal_packet_t where
  "touched = \<lparr>packet_type = 0, display_status = 0, touch_status = 1, touch_x = 100, touch_y = 200\<rparr>"

definition answering_env :: "libusb_status \<Rightarrow> u8 list \<Rightarrow> disp_env" where
  "answering_env st data =
     (working_env 0x0104)\<lparr>lib_complete := \<lambda>_ _. Some (st, data), big_endian := True\<rparr>"

definition fetching_state :: disp_state where
  "fetching_state = opened_state\<lparr>bufs := [\<lparr>nakedBuffer = replicate 32 0, buf_locked = True, buf_refs = 1\<rparr>],
     impl := (impl opened_state)\<lparr>statusCallback := True\<rparr>\<rparr>"

definition fetching_transfer :: TransferImpl where
  "fetching_transfer = \<lparr>completion = False, transferBuffer = Some 0,
     handle = \<lparr>xf_endpoint = UsbDeviceStatusEndpoint, xf_type = 3, xf_buffer = Some 0, xf_length = 32,
       xf_status = LIBUSB_TRANSFER_COMPLETED, xf_user_data = True\<rparr>\<rparr>"

lemma fetching:
  "status_transfer fetching_transfer fetching_state" "polling fetching_state" "lib_submit (answering_env st data) l t bs = 0"
  "malloc_ok (answering_env st data) n" "lib_complete (answering_env st data) l t = Some (st, data)"
  "statusCallback (impl fetching_state)" "callback_log fetching_state = []"
  by (simp_all add: status_transfer_def fetching_transfer_def fetching_state_def opened_state_def polling_def
    answering_env_def working_env_def buf_alive_def)

theorem sdk_status_arrives_witness:
  "\<exists>t' s'. status_round (answering_env LIBUSB_TRANSFER_COMPLETED (status_bytes touched)) fetching_transfer fetching_state
      = (Inr (Some t'), s') \<and> status (impl s') = touched \<and> callback_log s' = [touched]"
  using sdk_status_arrives [OF fetching(1,4,3,2,5)] fetching(6,7) by fastforce

text \<open>
  C31. The failures of the status thread: a refused submission ends the loop and marks the device as
  dead; a stalled endpoint is cleared, but if libusb refuses that, the exception leaves the thread
  and terminates the process; any other failed transfer is reported and the loop goes on, with the
  old status and without a callback.
\<close>

theorem sdk_status_failures:
  fixes s :: "'z disp_state_scheme"
  assumes "status_transfer t s" "polling s"
  shows "((\<forall>l t bs. lib_submit env l t bs = rc) \<and> rc \<noteq> 0 \<longrightarrow>
      (\<exists>s'. status_round env t s = (Inr None, s') \<and> impl s' = (impl s)\<lparr>working := False\<rparr>
        \<and> console s' = console s @ [exception_toString (Exception rc [] [])]))
    \<and> ((\<forall>l t bs. lib_submit env l t bs = 0) \<and> (\<forall>l t. lib_complete env l t = Some (LIBUSB_TRANSFER_STALL, []))
       \<and> (\<forall>l e. lib_clear_halt env l e = rc) \<longrightarrow>
      (\<exists>s'. if rc \<noteq> 0 then status_round env t s = (Inl Terminate, s')
            else \<exists>t'. status_round env t s = (Inr (Some t'), s') \<and> impl s' = impl s))
    \<and> ((\<forall>l t bs. lib_submit env l t bs = 0) \<and> (\<forall>l t. lib_complete env l t = Some (st, []))
       \<and> st \<notin> {LIBUSB_TRANSFER_COMPLETED, LIBUSB_TRANSFER_STALL} \<longrightarrow>
      (\<exists>t' s'. status_round env t s = (Inr (Some t'), s') \<and> impl s' = impl s \<and> callback_log s' = callback_log s
        \<and> length (console s') = length (console s) + 1))"
proof (intro conjI impI)
  assume rc: "(\<forall>l t bs. lib_submit env l t bs = rc) \<and> rc \<noteq> 0"
  have "act_bind (submit env t) (waitForCompletion env) s = (Inl (Throws (Exception rc [] [])), s1)
      \<longleftrightarrow> (submit env t s) = (Inl (Throws (Exception rc [] [])), s1)" for s1
    using rc by (simp add: act_bind_def submit_def Let_def)
  then obtain s1 where s1: "act_bind (submit env t) (waitForCompletion env) s = (Inl (Throws (Exception rc [] [])), s1)"
      "impl s1 = impl s" "console s1 = console s"
    using rc by (simp add: submit_def Let_def) (simp add: log_event_def)
  then show "\<exists>s'. status_round env t s = (Inr None, s') \<and> impl s' = (impl s)\<lparr>working := False\<rparr>
        \<and> console s' = console s @ [exception_toString (Exception rc [] [])]"
    unfolding round_unfold by (simp add: printToConsole_def set_impl_def)
next
  assume a: "(\<forall>l t bs. lib_submit env l t bs = 0) \<and> (\<forall>l t. lib_complete env l t = Some (LIBUSB_TRANSFER_STALL, []))
       \<and> (\<forall>l e. lib_clear_halt env l e = rc)"
  then obtain t' s1 where run: "act_bind (submit env t) (waitForCompletion env) s = (Inr t', s1)"
    "xf_status (handle t') = LIBUSB_TRANSFER_STALL" "impl s1 = impl s"
    using round_answer [OF assms(1) _ assms(2), of env LIBUSB_TRANSFER_STALL "[]"] by blast
  have "getStatus t' = TransferStatusStall"
    using run(2) by (simp add: getStatus_def)
  moreover obtain s2 where "clearEndpointHalt env UsbDeviceStatusEndpoint s1
      = (if rc \<noteq> 0 then Inl (Throws (Exception rc [] [])) else Inr (), s2)" "impl s2 = impl s1"
    using a by (cases "rc = 0") (simp_all add: clearEndpointHalt_def checked_def Let_def)
  ultimately show "\<exists>s'. if rc \<noteq> 0 then status_round env t s = (Inl Terminate, s')
            else \<exists>t'. status_round env t s = (Inr (Some t'), s') \<and> impl s' = impl s"
    unfolding round_unfold using run(1,3) by (intro exI [of _ s2]) (simp split: if_splits)
next
  assume a: "(\<forall>l t bs. lib_submit env l t bs = 0) \<and> (\<forall>l t. lib_complete env l t = Some (st, []))
       \<and> st \<notin> {LIBUSB_TRANSFER_COMPLETED, LIBUSB_TRANSFER_STALL}"
  then obtain t' s1 where run: "act_bind (submit env t) (waitForCompletion env) s = (Inr t', s1)"
    "xf_status (handle t') = st" "impl s1 = impl s" "callback_log s1 = callback_log s" "console s1 = console s"
    using round_answer [OF assms(1) _ assms(2), of env st "[]"] by blast
  then show "\<exists>t' s'. status_round env t s = (Inr (Some t'), s') \<and> impl s' = impl s \<and> callback_log s' = callback_log s
        \<and> length (console s') = length (console s) + 1"
    unfolding round_unfold using a by (cases st) (auto simp: getStatus_def)
qed

theorem sdk_status_failures_witness:
  "\<exists>s'. status_round ((answering_env LIBUSB_TRANSFER_STALL [])\<lparr>lib_clear_halt := \<lambda>_ _. -4\<rparr>) fetching_transfer fetching_state
      = (Inl Terminate, s')"
  using sdk_status_failures [OF fetching(1,2), of "(answering_env LIBUSB_TRANSFER_STALL [])\<lparr>lib_clear_halt := \<lambda>_ _. -4\<rparr>" "-4"
      LIBUSB_TRANSFER_STALL] fetching(3,5) [of LIBUSB_TRANSFER_STALL "[]"]
  by auto

subsection \<open>Enabling\<close>

text \<open>The device shows one colour: what a fill sends, by the version of its firmware.\<close>

definition is_fill :: "'e disp_env_scheme \<Rightarrow> 'z disp_state_scheme \<Rightarrow> u16 \<Rightarrow> u8 list \<Rightarrow> bool" where
  "is_fill env s color bs \<longleftrightarrow>
     (if version_of env s < MIN_VERSION_FILL then \<exists>p. parse_fillrect bs = Some (p, [])
        \<and> fillrect_left p = 0 \<and> fillrect_top p = 0 \<and> fillrect_right p = 319 \<and> fillrect_bottom p = 239
        \<and> fillrect_color_565 p = sdk_cpu_to_le16 (big_endian env) color
      else bs = packet_header_byte (dirty_reported s) 0 RPUSBDISP_DISPCMD_FILL # cpu_to_le16 color)"

lemma fill_sent:
  fixes s :: "'z disp_state_scheme"
  assumes "sdk_ready env ep s"
  shows "\<exists>s' u. sdk_fill env color s = (Inr (), s') \<and> sent s s' u \<and> is_fill env s color (received ep u)"
  using rect_commands(2) [OF assms, of color] unfolding sends_def is_fill_def by (auto split: if_splits)

lemma sent_ready:
  assumes "sdk_ready env ep s" "sent s s' u"
  shows "sdk_ready env ep s'" "version_of env s' = version_of env s" "dirty_reported s' = dirty_reported s"
  using assms by (auto simp: sdk_ready_def sent_def version_of_def dirty_reported_def polling_def)

text \<open>
  Enabling a device for the first time starts the pipeline and the status thread, and then fills
  the screen twice with the same colour, 200 ms apart; afterwards the device counts as alive.
\<close>

theorem sdk_enable_starts:
  fixes s :: "'z disp_state_scheme"
  assumes "memory_ok env" "usb_works env" "mps_ok (maxPacketSize (impl s)) ep"
    and "fst (lib_descriptor env (device (impl s))) = 0" "default_context s \<or> lib_init env = 0"
    and "\<not> status_started (impl s)"
  shows "\<exists>s' u v d e. sdk_enable env s = (Inr (), s')
    \<and> usb_events s' = usb_events s
      @ [Submitted UsbDeviceDisplayEndpoint 2 u 0, Completed LIBUSB_TRANSFER_COMPLETED d,
         Submitted UsbDeviceDisplayEndpoint 2 v 0, Completed LIBUSB_TRANSFER_COMPLETED e]
    \<and> is_fill env s 0xcb20 (received ep u) \<and> is_fill env s 0xcb20 (received ep v)
    \<and> isAlive s' = (Inr True, s') \<and> status_started (impl s') \<and> polling s' \<and> slept_ms s' = slept_ms s + 200"
proof -
  obtain s1 where s1: "doEnable env s = (Inr (), s1)" "sdk_ready env ep s1" "usb_events s1 = usb_events s"
    "working (impl s1)" "status_started (impl s1)" "slept_ms s1 = slept_ms s" "device (impl s1) = device (impl s)"
    "status (impl s1) = status (impl s)"
    using assms by (cases "pipeline s"; cases "default_context s")
      (auto simp: doEnable_def defaultContext_def summonPipeline_def Pipeline_start_def set_impl_def sdk_ready_def polling_def)
  have same: "is_fill env s1 color bs = is_fill env s color bs" for color bs
    using s1(7,8) by (simp add: is_fill_def version_of_def dirty_reported_def)
  obtain s2 u where s2: "sdk_fill env 0xcb20 s1 = (Inr (), s2)" "sent s1 s2 u" "is_fill env s1 0xcb20 (received ep u)"
    using fill_sent [OF s1(2)] by blast
  define s3 where "s3 = slept_ms_update (\<lambda>n. n + 200) s2"
  have s3: "sdk_ready env ep s3" "is_fill env s3 color bs = is_fill env s1 color bs" for color bs
    using sent_ready [OF s1(2) s2(2)]
    by (simp_all add: s3_def sdk_ready_def is_fill_def version_of_def dirty_reported_def polling_def)
  obtain s4 v where s4: "sdk_fill env 0xcb20 s3 = (Inr (), s4)" "sent s3 s4 v" "is_fill env s3 0xcb20 (received ep v)"
    using fill_sent [OF s3(1)] by blast
  have run: "sdk_enable env s = (Inr (), s4)"
    using assms(6) s1(1) s2(1) s4(1) by (simp add: sdk_enable_def s3_def)
  obtain d e where events: "usb_events s2 = usb_events s1 @ [Submitted UsbDeviceDisplayEndpoint 2 u 0, Completed LIBUSB_TRANSFER_COMPLETED d]"
    "usb_events s4 = usb_events s3 @ [Submitted UsbDeviceDisplayEndpoint 2 v 0, Completed LIBUSB_TRANSFER_COMPLETED e]"
    using s2(2) s4(2) by (auto simp: sent_def)
  have "impl s4 = impl s1" "slept_ms s4 = slept_ms s + 200" "usb_events s3 = usb_events s2"
    using s2(2) s4(2) s1(6) by (simp_all add: sent_def s3_def)
  moreover have "polling s4"
    using sent_ready [OF s3(1) s4(2)] by (simp add: sdk_ready_def)
  ultimately show ?thesis
    using run events s1(3,4,5) s2(3) s4(3) by (intro exI [of _ s4] exI [of _ u] exI [of _ v] exI [of _ d] exI [of _ e]) (simp add: same s3 isAlive_def)
qed

theorem sdk_enable_starts_witness:
  "\<exists>s'. sdk_enable (working_env 0x0104) (opened_state\<lparr>pipeline := None,
      impl := (impl opened_state)\<lparr>working := False, status_started := False\<rparr>\<rparr>) = (Inr (), s')
    \<and> isAlive s' = (Inr True, s') \<and> slept_ms s' = 200"
proof -
  let ?s = "opened_state\<lparr>pipeline := None, impl := (impl opened_state)\<lparr>working := False, status_started := False\<rparr>\<rparr>"
  have "memory_ok (working_env 0x0104)" "usb_works (working_env 0x0104)" "mps_ok (maxPacketSize (impl ?s)) 64"
    "fst (lib_descriptor (working_env 0x0104) (device (impl ?s))) = 0" "default_context ?s" "slept_ms ?s = 0"
    using opened_ready [of "0x0104"] by (simp_all add: sdk_ready_def opened_state_def)
  then show ?thesis
    using sdk_enable_starts [of "working_env 0x0104" ?s 64] by auto
qed

subsection \<open>Searching\<close>

lemma has_ids_eq:
  "has_ids env vid pid d s = (case lib_descriptor env d of (rc, desc) \<Rightarrow>
     if rc \<noteq> 0 then (Inl (Throws (Exception rc [] [])), s) else (Inr (idVendor desc = vid \<and> idProduct desc = pid), s))"
  by (auto simp: has_ids_def getVid_def getPid_def getDescriptor_def act_bind_def split: prod.splits)

text \<open>References to the devices of a list, in addition to those of the state.\<close>

definition add_refs :: "nat list \<Rightarrow> 'z usb_state_scheme \<Rightarrow> 'z usb_state_scheme" where
  "add_refs ds = dev_refs_update (\<lambda>r d. r d + int (count_list ds d))"

lemma add_refs_simps [simp]:
  "add_refs [] s = s" "add_refs (ds @ es) s = add_refs ds (add_refs es s)"
  "Device_destroy d (add_refs [d] s) = (Inr (), s)" "Device_new d s = (Inr (), add_refs [d] s)"
  "dev_refs (add_refs ds s) = (\<lambda>d. dev_refs s d + int (count_list ds d))"
  by (auto simp: add_refs_def Device_destroy_def Device_new_def fun_eq_iff algebra_simps intro!: usb_state.fold_congs)

lemma find_lookup:
  fixes s :: "'z disp_state_scheme"
  assumes "lookup_from env UsbDeviceVendorId UsbDeviceProductId devices i out s = (Inr ds, s')"
  shows "\<exists>found. ds = out @ found \<and> s' = add_refs found s
    \<and> (\<forall>t :: 'z disp_state_scheme. find_from env devices i t = (Inr (case found of [] \<Rightarrow> None | d # _ \<Rightarrow> Some d), add_refs (take 1 found) t))"
  using assms
proof (induction "DeviceList_count devices - i" arbitrary: i out s rule: less_induct)
  case less
  show ?case
  proof (cases "i < DeviceList_count devices")
    case False
    then show ?thesis
      using less.prems by (simp add: lookup_from.simps [of _ _ _ _ i] find_from.simps [of _ _ i])
  next
    case True
    let ?d = "list_devices devices ! i"
    have listed: "DeviceList_getDevice devices i t = (Inr (Some ?d), add_refs [?d] t)" for t :: "'z disp_state_scheme"
      using True by (simp add: DeviceList_getDevice_def DeviceList_count_def Let_def)
    obtain rc desc where desc: "lib_descriptor env ?d = (rc, desc)"
      by (cases "lib_descriptor env ?d")
    let ?ok = "idVendor desc = UsbDeviceVendorId \<and> idProduct desc = UsbDeviceProductId"
    have rc: "rc = 0"
    proof (rule ccontr)
      assume "rc \<noteq> 0"
      then have "has_ids env UsbDeviceVendorId UsbDeviceProductId ?d t = (Inl (Throws (Exception rc [] [])), t)" for t :: "'z disp_state_scheme"
        using desc by (simp add: has_ids_eq)
      then show False
        using less.prems True listed by (simp add: lookup_from.simps [of _ _ _ _ i] on_throw_def act_simps)
    qed
    have ids: "on_throw (has_ids env UsbDeviceVendorId UsbDeviceProductId ?d) leave t = (Inr ?ok, t)"
      for leave and t :: "'z disp_state_scheme"
      using rc desc by (simp add: on_throw_def has_ids_eq)
    have rest: "lookup_from env UsbDeviceVendorId UsbDeviceProductId devices (Suc i) (if ?ok then out @ [?d] else out)
        (if ?ok then add_refs [?d] s else s) = (Inr ds, s')"
      using less.prems True listed ids by (auto simp: lookup_from.simps [of _ _ _ _ i] split: if_splits)
    have fewer: "DeviceList_count devices - Suc i < DeviceList_count devices - i"
      using True by simp
    obtain found where found: "ds = (if ?ok then out @ [?d] else out) @ found" "s' = add_refs found (if ?ok then add_refs [?d] s else s)"
      "\<And>t :: 'z disp_state_scheme. find_from env devices (Suc i) t = (Inr (case found of [] \<Rightarrow> None | d # _ \<Rightarrow> Some d), add_refs (take 1 found) t)"
      using less.hyps [OF fewer rest] by (elim exE conjE) (rule that, auto)
    have step: "find_from env devices i t = (if ?ok then (Inr (Some ?d), add_refs [?d] t) else find_from env devices (Suc i) t)" for t :: "'z disp_state_scheme"
      using True listed ids by (simp add: find_from.simps [of _ _ i])
    show ?thesis
    proof (cases ?ok)
      case True
      then show ?thesis
        using found(1,2) step add_refs_simps(2) [of "found" "[?d]"]
        by (intro exI [of _ "?d # found"]) (auto simp: add_refs_def intro!: usb_state.fold_congs)
    next
      case False
      then show ?thesis
        using found step by (intro exI [of _ found]) auto
    qed
  qed
qed

text \<open>
  The two ways to look for a device agree: if all descriptors can be read, the first device that
  \<^verbatim>\<open>findFirstDevice\<close> returns is the first of those that
  \<^verbatim>\<open>enumDevices\<close> lists, and there is none if that list is empty. Each keeps one
  reference to each device that it returns, and no other.
\<close>

theorem find_first_of_enum:
  fixes s :: "'z disp_state_scheme"
  assumes "enumDevices env s = (Inr ds, s')"
  shows "\<exists>s''. findFirstDevice env s = (Inr (case ds of [] \<Rightarrow> None | d # _ \<Rightarrow> Some d), s'')
    \<and> dev_refs s' = (\<lambda>d. dev_refs s d + int (count_list ds d))
    \<and> dev_refs s'' = (\<lambda>d. dev_refs s d + int (count_list (take 1 ds) d))"
proof -
  obtain u s1 where ctx: "defaultContext env s = (Inr u, s1)"
    using assms by (auto simp: enumDevices_def act_simps)
  then have s1: "dev_refs s1 = dev_refs s"
    by (auto simp: defaultContext_def split: if_splits)
  obtain devices s2 where list: "Context_getDeviceList env s1 = (Inr devices, s2)"
    and run: "act_finally (lookup_from env UsbDeviceVendorId UsbDeviceProductId devices 0 []) (DeviceList_destroy devices) s2 = (Inr ds, s')"
    using assms ctx by (auto simp: enumDevices_def lookupDevices_def act_simps)
  have s2: "dev_refs s2 = (\<lambda>d. dev_refs s d + int (count_list (list_devices devices) d))"
    using list s1 by (auto simp: Context_getDeviceList_def split: sum.splits)
  obtain s3 where s3: "lookup_from env UsbDeviceVendorId UsbDeviceProductId devices 0 [] s2 = (Inr ds, s3)"
    "DeviceList_destroy devices s3 = (Inr (), s')"
    using run by (auto simp: act_finally_def DeviceList_destroy_def split: prod.splits sum.splits stop.splits)
  have found: "s3 = add_refs ds s2"
    "find_from env devices 0 s2 = (Inr (case ds of [] \<Rightarrow> None | d # _ \<Rightarrow> Some d), add_refs (take 1 ds) s2)"
    using find_lookup [OF s3(1)] by auto
  have "findFirstDevice env s
      = (Inr (case ds of [] \<Rightarrow> None | d # _ \<Rightarrow> Some d), snd (DeviceList_destroy devices (add_refs (take 1 ds) s2)))"
    using ctx list found(2) by (simp add: findFirstDevice_def act_finally_def DeviceList_destroy_def)
  then show ?thesis
    using s3(2) found(1) s2 by (auto simp: DeviceList_destroy_def)
qed

theorem find_first_of_enum_witness:
  "\<exists>s''. findFirstDevice (working_env 0x0104) opened_state = (Inr (Some 0), s'') \<and> dev_refs s'' 0 = 2"
proof -
  have "\<exists>s'. enumDevices (working_env 0x0104) opened_state = (Inr [0], s')"
    by (simp add: enumDevices_def defaultContext_def opened_state_def lookupDevices_def Context_getDeviceList_def
      working_env_def lookup_from.simps DeviceList_count_def DeviceList_getDevice_def has_ids_eq on_throw_def Device_new_def
      DeviceList_destroy_def)
  then show ?thesis
    using find_first_of_enum by (fastforce simp: opened_state_def)
qed

end
