(* ===== verification/Sdk_Client.thy ===== *)
theory Sdk_Client
  imports Sdk_Status
begin

text \<open>
  What stands on the display class: the C interface of \<^verbatim>\<open>c_interface.cc\<close>, which turns
  exceptions into error codes, and the demo programs of \<^verbatim>\<open>demo/src/main.cc\<close>.
\<close>

subsection \<open>The C interface\<close>

text \<open>
  \<^verbatim>\<open>RPUSBDISP_HANDLE_EXCEPTIONS\<close>: 0, or the error code of the exception. A reference to a
  device is the pointer to the one display object of the state.
\<close>

definition c_call :: "('z, unit) disp_act \<Rightarrow> ('z, int) disp_act" where
  "c_call m = act_catch (act_bind m (\<lambda>u. act_return 0)) (\<lambda>e. act_return (ex_code e))"

definition RoboPeakUsbDisplayDriverIsSuccess :: "int \<Rightarrow> bool" where
  "RoboPeakUsbDisplayDriverIsSuccess result \<longleftrightarrow> result = 0"

text \<open>The second component is what is stored through the out parameter, if anything is.\<close>

definition RoboPeakUsbDisplayOpenFirstDevice :: "'e disp_env_scheme \<Rightarrow> ('z, int \<times> bool option) disp_act" where
  "RoboPeakUsbDisplayOpenFirstDevice env =
     act_catch
       (act_bind (openFirstDevice env) (\<lambda>found.
          if \<not> found then act_return (-1, Some False) else act_return (0, Some True)))
       (\<lambda>e. act_return (ex_code e, None))"

definition RoboPeakUsbDisplayDisposeDevice :: "'e disp_env_scheme \<Rightarrow> bool \<Rightarrow> ('z, int) disp_act" where
  "RoboPeakUsbDisplayDisposeDevice env thread_ends = c_call (DeviceImpl_destroy env thread_ends)"

definition RoboPeakUsbDisplaySetStatusUpdatedCallback :: "('z, int) disp_act" where
  "RoboPeakUsbDisplaySetStatusUpdatedCallback = c_call setStatusUpdatedCallback"

definition RoboPeakUsbDisplayFill :: "'e disp_env_scheme \<Rightarrow> u16 \<Rightarrow> ('z, int) disp_act" where
  "RoboPeakUsbDisplayFill env color = c_call (sdk_fill env color)"

definition RoboPeakUsbDisplayBitblt :: "'e disp_env_scheme \<Rightarrow> u16 \<Rightarrow> u16 \<Rightarrow> u16 \<Rightarrow> u16
    \<Rightarrow> RoboPeakUsbDisplayBitOperation \<Rightarrow> u8 list \<Rightarrow> ('z, int) disp_act" where
  "RoboPeakUsbDisplayBitblt env x y width height bitOperation buffer =
     c_call (sdk_bitblt env x y width height bitOperation buffer)"

definition RoboPeakUsbDisplayFillRect :: "'e disp_env_scheme \<Rightarrow> u16 \<Rightarrow> u16 \<Rightarrow> u16 \<Rightarrow> u16 \<Rightarrow> u16
    \<Rightarrow> RoboPeakUsbDisplayBitOperation \<Rightarrow> ('z, int) disp_act" where
  "RoboPeakUsbDisplayFillRect env left' top' right' bottom' color bitOperation =
     c_call (sdk_fillrect env left' top' right' bottom' color bitOperation)"

definition RoboPeakUsbDisplayCopyArea :: "'e disp_env_scheme \<Rightarrow> u16 \<Rightarrow> u16 \<Rightarrow> u16 \<Rightarrow> u16 \<Rightarrow> u16 \<Rightarrow> u16
    \<Rightarrow> ('z, int) disp_act" where
  "RoboPeakUsbDisplayCopyArea env srcX srcY destX destY width height =
     c_call (sdk_copyArea env srcX srcY destX destY width height)"

definition RoboPeakUsbDisplayEnable :: "'e disp_env_scheme \<Rightarrow> ('z, int) disp_act" where
  "RoboPeakUsbDisplayEnable env = c_call (sdk_enable env)"

definition RoboPeakUsbDisplayGetResolution :: "('z, int \<times> int \<times> int) disp_act" where
  "RoboPeakUsbDisplayGetResolution = act_return (0, getWidth, getHeight)"

definition RoboPeakUsbDisplayIsAlive :: "('z, int \<times> bool) disp_act" where
  "RoboPeakUsbDisplayIsAlive = act_bind isAlive (\<lambda>alive. act_return (0, alive))"

subsection \<open>The demo\<close>

definition demo_pixel :: "nat \<Rightarrow> nat \<Rightarrow> u16" where
  "demo_pixel x y = (if x = 8 \<or> x = 311 \<or> y = 8 \<or> y = 231 then 0xffff else 0xcb20)"

definition demo_framebuffer :: "u16 list" where
  "demo_framebuffer = concat (map (\<lambda>y. map (\<lambda>x. demo_pixel x y) [0..<320]) [0..<240])"

definition sleep_ms :: "nat \<Rightarrow> ('z, unit) disp_act" where
  "sleep_ms n = act_put (slept_ms_update (\<lambda>k. k + n))"

fun random_operation :: "nat \<Rightarrow> RoboPeakUsbDisplayBitOperation" where
  "random_operation n =
     (if n mod 4 = 0 then RoboPeakUsbDisplayBitOperationCopy
      else if n mod 4 = 1 then RoboPeakUsbDisplayBitOperationXor
      else if n mod 4 = 2 then RoboPeakUsbDisplayBitOperationOr
      else RoboPeakUsbDisplayBitOperationAnd)"

text \<open>
  The random rectangle of one round of the inner loop: \<open>rnd\<close> are the numbers that
  \<^verbatim>\<open>rand()\<close> gives, \<open>k\<close> how many were taken.
\<close>

definition random_rect :: "(nat \<Rightarrow> nat) \<Rightarrow> nat
    \<Rightarrow> (u16 \<Rightarrow> u16 \<Rightarrow> u16 \<Rightarrow> u16 \<Rightarrow> u16 \<Rightarrow> RoboPeakUsbDisplayBitOperation \<Rightarrow> 'a) \<Rightarrow> 'a" where
  "random_rect rnd k draw =
     (let x = word_of_nat (rnd k mod 320); y = word_of_nat (rnd (k + 1) mod 240);
          width = word_of_nat (1 + rnd (k + 2) mod 320); height = word_of_nat (1 + rnd (k + 3) mod 240);
          color = word_of_nat (rnd (k + 4) mod 0x10000)
      in draw x y (x + width) (y + height) color (random_operation (rnd (k + 5))))"

fun demo_rects :: "'e disp_env_scheme \<Rightarrow> (nat \<Rightarrow> nat) \<Rightarrow> nat \<Rightarrow> nat \<Rightarrow> ('z, unit) disp_act" where
  "demo_rects env rnd k 0 = act_return ()"
| "demo_rects env rnd k (Suc n) =
     act_bind (random_rect rnd k (sdk_fillrect env)) (\<lambda>u. demo_rects env rnd (k + 6) n)"

definition demo_round :: "'e disp_env_scheme \<Rightarrow> (nat \<Rightarrow> nat) \<Rightarrow> nat \<Rightarrow> u8 list \<Rightarrow> ('z, unit) disp_act" where
  "demo_round env rnd k framebuffer =
     act_bind (sdk_bitblt env 0 0 320 240 RoboPeakUsbDisplayBitOperationCopy framebuffer) (\<lambda>u.
     act_bind (sleep_ms 2000) (\<lambda>u.
     act_bind (demo_rects env rnd k 100) (\<lambda>u.
     act_bind (sleep_ms 2000) (\<lambda>u.
     act_bind (sdk_copyArea env 0 0 160 120 160 120) (\<lambda>u.
     act_bind (sleep_ms 2000) (\<lambda>u.
     act_bind (sdk_fill env 0xcb20) (\<lambda>u. sleep_ms 2000)))))))"

text \<open>
  The loop of the demo, for at most \<open>fuel\<close> rounds; \<open>thread\<close> is what the status thread
  did meanwhile.
\<close>

fun demo_loop :: "'e disp_env_scheme \<Rightarrow> (nat \<Rightarrow> nat) \<Rightarrow> u8 list \<Rightarrow> (nat \<Rightarrow> ('z, unit) disp_act) \<Rightarrow> nat \<Rightarrow> nat
    \<Rightarrow> ('z, unit) disp_act" where
  "demo_loop env rnd framebuffer thread k 0 = act_return ()"
| "demo_loop env rnd framebuffer thread k (Suc fuel) =
     act_bind isAlive (\<lambda>alive.
     if \<not> alive then act_return ()
     else act_bind (demo_round env rnd (600 * k) framebuffer) (\<lambda>u.
          act_bind (thread k) (\<lambda>u. demo_loop env rnd framebuffer thread (Suc k) fuel)))"

definition print_line :: "string \<Rightarrow> ('z, unit) disp_act" where
  "print_line text = act_put (\<lambda>s. s\<lparr>console := console s @ [text]\<rparr>)"

text \<open>The display goes at the end of the block that found it, before an exception is reported.\<close>

definition cPlusPlusInterfaceDemo :: "'e disp_env_scheme \<Rightarrow> (nat \<Rightarrow> nat) \<Rightarrow> (nat \<Rightarrow> ('z, unit) disp_act) \<Rightarrow> bool \<Rightarrow> nat
    \<Rightarrow> u8 list \<Rightarrow> ('z, int) disp_act" where
  "cPlusPlusInterfaceDemo env rnd thread thread_ends fuel framebuffer =
     act_catch
       (act_bind (openFirstDevice env) (\<lambda>found.
        if \<not> found then act_bind (print_line ''No display found'') (\<lambda>u. act_return (-1))
        else act_finally
               (act_bind Impl_getDevice (\<lambda>d.
                act_bind (getSerialNumber env d) (\<lambda>serial.
                act_bind setStatusUpdatedCallback (\<lambda>u.
                act_bind (sdk_enable env) (\<lambda>u.
                act_bind (sleep_ms 2000) (\<lambda>u.
                act_bind (demo_loop env rnd framebuffer thread 0 fuel) (\<lambda>u.
                act_bind (print_line ''Display is disconnected'') (\<lambda>u. act_return 0))))))))
               (DeviceImpl_destroy env thread_ends)))
       (\<lambda>e. act_bind (printToConsole e) (\<lambda>u. act_return (ex_code e)))"

text \<open>The variant over the C interface; a failing rectangle only ends the loop over the rectangles.\<close>

fun c_rects :: "'e disp_env_scheme \<Rightarrow> (nat \<Rightarrow> nat) \<Rightarrow> nat \<Rightarrow> nat \<Rightarrow> ('z, unit) disp_act" where
  "c_rects env rnd k 0 = act_return ()"
| "c_rects env rnd k (Suc n) =
     act_bind (random_rect rnd k (RoboPeakUsbDisplayFillRect env)) (\<lambda>r.
     if \<not> RoboPeakUsbDisplayDriverIsSuccess r then act_return () else c_rects env rnd (k + 6) n)"

fun c_loop :: "'e disp_env_scheme \<Rightarrow> (nat \<Rightarrow> nat) \<Rightarrow> u8 list \<Rightarrow> (nat \<Rightarrow> ('z, unit) disp_act) \<Rightarrow> nat \<Rightarrow> nat
    \<Rightarrow> ('z, unit) disp_act" where
  "c_loop env rnd framebuffer thread k 0 = act_return ()"
| "c_loop env rnd framebuffer thread k (Suc fuel) =
     act_bind RoboPeakUsbDisplayIsAlive (\<lambda>(r, alive).
     if \<not> RoboPeakUsbDisplayDriverIsSuccess r \<or> \<not> alive then act_return ()
     else act_bind (RoboPeakUsbDisplayBitblt env 0 0 320 240 RoboPeakUsbDisplayBitOperationCopy framebuffer) (\<lambda>r.
     if \<not> RoboPeakUsbDisplayDriverIsSuccess r then act_return ()
     else act_bind (sleep_ms 2000) (\<lambda>u.
     act_bind (c_rects env rnd (600 * k) 100) (\<lambda>u.
     act_bind (sleep_ms 2000) (\<lambda>u.
     act_bind (RoboPeakUsbDisplayCopyArea env 0 0 160 120 160 120) (\<lambda>r.
     if \<not> RoboPeakUsbDisplayDriverIsSuccess r then act_return ()
     else act_bind (sleep_ms 2000) (\<lambda>u.
     act_bind (RoboPeakUsbDisplayFill env 0xcb20) (\<lambda>r.
     if \<not> RoboPeakUsbDisplayDriverIsSuccess r then act_return ()
     else act_bind (sleep_ms 2000) (\<lambda>u.
     act_bind (thread k) (\<lambda>u. c_loop env rnd framebuffer thread (Suc k) fuel))))))))))"

definition cInterfaceDemo :: "'e disp_env_scheme \<Rightarrow> (nat \<Rightarrow> nat) \<Rightarrow> (nat \<Rightarrow> ('z, unit) disp_act) \<Rightarrow> bool \<Rightarrow> nat
    \<Rightarrow> u8 list \<Rightarrow> ('z, int) disp_act" where
  "cInterfaceDemo env rnd thread thread_ends fuel framebuffer =
     act_bind (RoboPeakUsbDisplayOpenFirstDevice env) (\<lambda>(r, found).
     if \<not> RoboPeakUsbDisplayDriverIsSuccess r then act_return (-1)
     else if found \<noteq> Some True then act_bind (print_line ''No display found'') (\<lambda>u. act_return (-1))
     else act_bind RoboPeakUsbDisplaySetStatusUpdatedCallback (\<lambda>r.
     if \<not> RoboPeakUsbDisplayDriverIsSuccess r
     then act_bind (RoboPeakUsbDisplayDisposeDevice env thread_ends) (\<lambda>u. act_return (-1))
     else act_bind (RoboPeakUsbDisplayEnable env) (\<lambda>r.
     if \<not> RoboPeakUsbDisplayDriverIsSuccess r
     then act_bind (RoboPeakUsbDisplayDisposeDevice env thread_ends) (\<lambda>u. act_return (-1))
     else act_bind (c_loop env rnd framebuffer thread 0 fuel) (\<lambda>u.
     act_bind (RoboPeakUsbDisplayDisposeDevice env thread_ends) (\<lambda>u.
     act_bind (print_line ''Display is disconnected'') (\<lambda>u. act_return 0))))))"

text \<open>\<^verbatim>\<open>main\<close>: the pixels in the memory of the host; a failed allocation is dereferenced.\<close>

definition demo_main :: "'e disp_env_scheme \<Rightarrow> (nat \<Rightarrow> nat) \<Rightarrow> (nat \<Rightarrow> ('z, unit) disp_act) \<Rightarrow> bool \<Rightarrow> nat
    \<Rightarrow> ('z, int) disp_act" where
  "demo_main env rnd thread thread_ends fuel =
     (if \<not> malloc_ok env (320 * 240 * 2) then act_stop (Crash NullDeref)
      else cPlusPlusInterfaceDemo env rnd thread thread_ends fuel
             (concat (map (host16 (big_endian env)) demo_framebuffer)))"

subsection \<open>Error codes\<close>

text \<open>
  C32. Through the C interface an exception becomes its error code, so a rectangle whose transfer
  fails answers the number of the transfer's status. One of those numbers is 0: a transfer that ends with
  a status the wrapper does not know is reported as success.
\<close>

theorem c_interface_codes:
  fixes s :: "'z disp_state_scheme"
  assumes "memory_ok env" "mps_ok (maxPacketSize (impl s)) ep" "\<And>l t bs. lib_submit env l t bs = rc"
    and "\<And>l t. lib_complete env l t = Some (st, [])" "polling s"
  shows "\<exists>s'. RoboPeakUsbDisplayFillRect env l t r b color m s
    = (Inr (if rc \<noteq> 0 then rc else case st of
         LIBUSB_TRANSFER_COMPLETED \<Rightarrow> 0 | LIBUSB_TRANSFER_CANCELLED \<Rightarrow> 2 | LIBUSB_TRANSFER_ERROR \<Rightarrow> 3
       | LIBUSB_TRANSFER_TIMED_OUT \<Rightarrow> 4 | LIBUSB_TRANSFER_STALL \<Rightarrow> 5 | LIBUSB_TRANSFER_NO_DEVICE \<Rightarrow> 6
       | LIBUSB_TRANSFER_OVERFLOW \<Rightarrow> 7 | LIBUSB_TRANSFER_OTHER n \<Rightarrow> 0), s')"
proof -
  let ?packet = "RPUSBDISP_DISPCMD_RECT # cpu_to_le16 l @ cpu_to_le16 t @ cpu_to_le16 r @ cpu_to_le16 b
    @ host16 (big_endian env) color @ [bit_operation_code m]"
  let ?u = "command_stream ep ?packet [] s"
  let ?out = "if rc \<noteq> 0 then Inl (Throws (Exception rc [] [])) else transfer_result st"
  have "payload_is None [] s"
    by (simp add: payload_is_def)
  moreover obtain log where "attempt env (out_transfer (length (bufs s) + 1) (length ?u)) ?u (polling s) (usb_events s)
      = (?out, log)"
    using assms(3-5) by (cases "rc = 0") (simp_all add: attempt_def Let_def)
  ultimately obtain s' where "sendCommandToDisplayEndpoint env ?packet None s = (?out, s')"
    using send_command_eq [OF assms(1,2), of ?packet None "[]" ?out log] by auto
  then have run: "sdk_fillrect env l t r b color m s = (?out, s')"
    by (simp add: sdk_fillrect_def Let_def sdk_images)
  show ?thesis
  proof (cases "rc = 0")
    case True
    then show ?thesis
      using run by (cases st) (simp_all add: RoboPeakUsbDisplayFillRect_def c_call_def Exception_def)
  next
    case False
    then show ?thesis
      using run by (simp add: RoboPeakUsbDisplayFillRect_def c_call_def Exception_def)
  qed
qed

theorem c_interface_codes_witness:
  "\<exists>s'. RoboPeakUsbDisplayFillRect (answering_env (LIBUSB_TRANSFER_OTHER 9) []) 1 2 3 4 5 RoboPeakUsbDisplayBitOperationOr
      fetching_state = (Inr 0, s')"
proof -
  have "memory_ok (answering_env (LIBUSB_TRANSFER_OTHER 9) [])" "mps_ok (maxPacketSize (impl fetching_state)) 64"
    using opened_ready [of "0x0104"] by (simp_all add: sdk_ready_def memory_ok_def answering_env_def fetching_state_def)
  then show ?thesis
    using c_interface_codes [where rc = 0, OF _ _ fetching(3,5,2)] by fastforce
qed

end
