(* ===== verification/Sdk_Resources.thy ===== *)
theory Sdk_Resources
  imports Sdk_Client
begin

text \<open>
  What the user-mode SDK holds of libusb and of the heap, and that it gives all of it back: the
  references to devices, the open handles, the claimed interfaces, the transfers, the shared
  pointers to buffers and to the pipeline.
\<close>

subsection \<open>The account\<close>

datatype holding =
    Device_reference nat | Open_handle nat | Claimed_interface int
  | Transfer_object | Buffer_pointer | Pipeline_pointer

fun handles_of :: "nat \<Rightarrow> usb_event \<Rightarrow> int" where
  "handles_of d (Opened d' result) = (if d' = d \<and> result \<ge> 0 then 1 else 0)"
| "handles_of d (Closed d') = (if d' = d then -1 else 0)"
| "handles_of d e = 0"

fun claims_of :: "int \<Rightarrow> usb_event \<Rightarrow> int" where
  "claims_of i (Claimed i' result) = (if i' = i \<and> result = 0 then 1 else 0)"
| "claims_of i (Released i' result) = (if i' = i \<and> result = 0 then -1 else 0)"
| "claims_of i e = 0"

fun holds :: "holding \<Rightarrow> 'z usb_state_scheme \<Rightarrow> int" where
  "holds (Device_reference d) s = dev_refs s d"
| "holds (Open_handle d) s = sum_list (map (handles_of d) (usb_events s))"
| "holds (Claimed_interface i) s = sum_list (map (claims_of i) (usb_events s))"
| "holds Transfer_object s = live_transfers s"
| "holds Buffer_pointer s = int (sum_list (map buf_refs (bufs s)))"
| "holds Pipeline_pointer s = (case pipeline s of None \<Rightarrow> 0 | Some p \<Rightarrow> int (pl_refs p))"

text \<open>
  \<open>moves A T m\<close>: if \<open>m\<close> returns \<open>x\<close>, the account has changed by \<open>A x\<close>, and
  after an exception by \<open>T\<close>; the handle of the display and the flags about its pipeline stay. If
  \<open>m\<close> ends in no other way, nothing is claimed.
\<close>

definition flags :: "'z disp_state_scheme \<Rightarrow> bool \<times> bool \<times> nat" where
  "flags s = (own_pipeline (impl s), status_started (impl s), device (impl s))"

definition moves :: "('a \<Rightarrow> holding \<Rightarrow> int) \<Rightarrow> (holding \<Rightarrow> int) \<Rightarrow> ('z, 'a) disp_act \<Rightarrow> bool" where
  "moves A T m \<longleftrightarrow> (\<forall>s r s'. m s = (r, s') \<longrightarrow> unwinds r \<longrightarrow> flags s' = flags s
     \<and> (\<forall>h. holds h s' = holds h s + (case r of Inr x \<Rightarrow> A x h | Inl e \<Rightarrow> T h)))"

abbreviation nothing :: "holding \<Rightarrow> int" where
  "nothing \<equiv> \<lambda>_. 0"

definition one :: "holding \<Rightarrow> holding \<Rightarrow> int" where
  "one k h = (if h = k then 1 else 0)"

definition less_one :: "holding \<Rightarrow> holding \<Rightarrow> int" where
  "less_one k h = - one k h"

abbreviation keeps :: "('z, 'a) disp_act \<Rightarrow> bool" where
  "keeps m \<equiv> moves (\<lambda>_. nothing) nothing m"

named_theorems moving \<open>how the operations change the account\<close>

lemma movesI:
  assumes "\<And>s x s'. m s = (Inr x, s') \<Longrightarrow> flags s' = flags s \<and> (\<forall>h. holds h s' = holds h s + A x h)"
    and "\<And>s e s'. m s = (Inl (Throws e), s') \<Longrightarrow> flags s' = flags s \<and> (\<forall>h. holds h s' = holds h s + T h)"
  shows "moves A T m"
  using assms unfolding moves_def unwinds_def by (fastforce split: sum.splits stop.splits)

lemma movesD:
  assumes "moves A T m"
  shows "m s = (Inr x, s') \<Longrightarrow> flags s' = flags s" "m s = (Inr x, s') \<Longrightarrow> holds h s' = holds h s + A x h"
    "m s = (Inl (Throws e), s') \<Longrightarrow> flags s' = flags s" "m s = (Inl (Throws e), s') \<Longrightarrow> holds h s' = holds h s + T h"
  using assms unfolding moves_def by fastforce+

lemma moves_return: "(\<And>h. A x h = 0) \<Longrightarrow> moves A T (act_return x)"
  by (rule movesI) simp_all

lemma moves_get [moving]: "moves (\<lambda>_. nothing) T (act_get f)"
  by (rule movesI) simp_all

lemma moves_throw [moving]: "moves A nothing (throw e)"
  by (rule movesI) simp_all

lemma moves_stop: "\<not> unwinds (Inl e :: stop + 'a) \<Longrightarrow> moves A T (act_stop e :: ('z, 'a) disp_act)"
  unfolding moves_def by (auto simp: act_stop_def unwinds_def split: stop.splits)

lemma moves_lift [moving]: "moves (\<lambda>_. nothing) T (act_lift m)"
  by (rule movesI) (auto simp: act_lift_def split: sum.splits)

lemma moves_put:
  "(\<And>s. flags (f s) = flags s \<and> (\<forall>h. holds h (f s) = holds h s + A h)) \<Longrightarrow> moves (\<lambda>_. A) T (act_put f)"
  by (rule movesI) auto

lemma moves_bind_returned:
  assumes "moves A T m" "\<And>x s s'. m s = (Inr x, s') \<Longrightarrow> moves (B x) (C x) (f x)" "\<And>x h. T h = A x h + C x h" "\<And>x y h. D y h = A x h + B x y h"
  shows "moves D T (act_bind m f)"
proof (rule movesI)
  fix s y s'
  assume "act_bind m f s = (Inr y, s')"
  then obtain x s1 where x: "m s = (Inr x, s1)" "f x s1 = (Inr y, s')"
    by (auto simp: act_simps)
  then show "flags s' = flags s \<and> (\<forall>h. holds h s' = holds h s + D y h)"
    using movesD(1,2) [OF assms(1) x(1)] movesD(1,2) [OF assms(2) [OF x(1)] x(2)] assms(4) [of y _ x] by simp
next
  fix s e s'
  assume "act_bind m f s = (Inl (Throws e), s')"
  then consider (first) "m s = (Inl (Throws e), s')"
    | (second) x s1 where "m s = (Inr x, s1)" "f x s1 = (Inl (Throws e), s')"
    by (auto simp: act_simps)
  then show "flags s' = flags s \<and> (\<forall>h. holds h s' = holds h s + T h)"
  proof cases
    case first
    then show ?thesis
      using movesD(3,4) [OF assms(1)] by simp
  next
    case second
    then show ?thesis
      using movesD(1,2) [OF assms(1) second(1)] movesD(3,4) [OF assms(2) [OF second(1)] second(2)] assms(3) [of _ x] by simp
  qed
qed

lemma moves_bind:
  assumes "moves A T m" "\<And>x. moves (B x) (C x) (f x)" "\<And>x h. T h = A x h + C x h" "\<And>x y h. D y h = A x h + B x y h"
  shows "moves D T (act_bind m f)"
  by (rule moves_bind_returned [OF assms])

lemma moves_catch:
  assumes "moves A T m" "\<And>e. moves B C (f e)" "\<And>x h. A x h = T h + B x h" "\<And>h. D h = T h + C h"
  shows "moves A D (act_catch m f)"
proof (rule movesI)
  fix s y s'
  assume "act_catch m f s = (Inr y, s')"
  then consider "m s = (Inr y, s')" | e s1 where "m s = (Inl (Throws e), s1)" "f e s1 = (Inr y, s')"
    by (auto simp: act_catch_def split: prod.splits sum.splits stop.splits)
  then show "flags s' = flags s \<and> (\<forall>h. holds h s' = holds h s + A y h)"
    using movesD [OF assms(1)] movesD [OF assms(2)] assms(3) by cases simp_all
next
  fix s e s'
  assume "act_catch m f s = (Inl (Throws e), s')"
  then obtain e' s1 where "m s = (Inl (Throws e'), s1)" "f e' s1 = (Inl (Throws e), s')"
    by (auto simp: act_catch_def split: prod.splits sum.splits stop.splits)
  then show "flags s' = flags s \<and> (\<forall>h. holds h s' = holds h s + D h)"
    using movesD [OF assms(1)] movesD [OF assms(2)] assms(4) by simp
qed

lemma moves_finally:
  assumes "moves A T m" "moves (\<lambda>_. B) C leave" "\<And>x h. D x h = A x h + B h" "\<And>h. E h = T h + B h"
  shows "moves D E (act_finally m leave)"
proof -
  have left: "\<exists>s1 u. m s = (r, s1) \<and> leave s1 = (Inr u, s')" if "act_finally m leave s = (r, s')" "unwinds r" for s r s'
    using that by (auto simp: act_finally_def unwinds_def split: prod.splits sum.splits stop.splits)
  show ?thesis
  proof (rule movesI)
    fix s y s'
    assume "act_finally m leave s = (Inr y, s')"
    then show "flags s' = flags s \<and> (\<forall>h. holds h s' = holds h s + D y h)"
      using left [of s "Inr y" s'] movesD [OF assms(1)] movesD [OF assms(2)] assms(3) by fastforce
  next
    fix s e s'
    assume "act_finally m leave s = (Inl (Throws e), s')"
    then show "flags s' = flags s \<and> (\<forall>h. holds h s' = holds h s + E h)"
      using left [of s "Inl (Throws e)" s'] movesD [OF assms(1)] movesD [OF assms(2)] assms(4) by fastforce
  qed
qed

lemma moves_on_throw:
  assumes "moves A T m" "moves (\<lambda>_. B) B leave" "\<And>h. D h = T h + B h"
  shows "moves A D (on_throw m leave)"
proof -
  have "moves (\<lambda>x h. A x h - T h) B (act_bind leave (\<lambda>u. throw e))" for e
    by (rule moves_bind [OF assms(2) moves_throw [of "\<lambda>x h. A x h - T h - B h"]]) simp_all
  then show ?thesis
    unfolding on_throw_def by (rule moves_catch [OF assms(1)]) (simp_all add: assms(3))
qed

text \<open>Rules that follow the text of an operation.\<close>

lemma moves_after [moving]: "moves (\<lambda>_. nothing) T m \<Longrightarrow> (\<And>x. moves A T (f x)) \<Longrightarrow> moves A T (act_bind m f)"
  by (rule moves_bind [of "\<lambda>_. nothing" T m "\<lambda>_. A" "\<lambda>_. T"]) simp_all

lemma moves_then [moving]: "moves (\<lambda>_. A) T m \<Longrightarrow> moves (\<lambda>_. A) T (act_bind m (\<lambda>x. act_return (f x)))"
  by (rule moves_bind [of "\<lambda>_. A" T m "\<lambda>_ _. nothing" "\<lambda>_ h. T h - A h"]) (simp_all add: moves_return)

lemma keeps_catch [moving]: "keeps m \<Longrightarrow> (\<And>e. keeps (f e)) \<Longrightarrow> keeps (act_catch m f)"
  by (rule moves_catch [of "\<lambda>_. nothing" nothing _ "\<lambda>_. nothing" nothing]) simp_all

lemma keeps_return [moving]: "moves (\<lambda>_. nothing) T (act_return x)"
  by (simp add: moves_return)

lemma keeps_stop [moving]: "moves A T (act_stop Hang)" "moves A T (act_stop Terminate)" "moves A T (act_stop (Crash ft))"
  by (simp_all add: moves_stop)

lemma moves_if [moving]: "(c \<Longrightarrow> moves A T m) \<Longrightarrow> (\<not> c \<Longrightarrow> moves A T k) \<Longrightarrow> moves A T (if c then m else k)"
  by simp

lemma moves_option [moving]:
  "(y = None \<Longrightarrow> moves A T m) \<Longrightarrow> (\<And>x. y = Some x \<Longrightarrow> moves A T (f x)) \<Longrightarrow> moves A T (case y of None \<Rightarrow> m | Some x \<Rightarrow> f x)"
  by (cases y) simp_all

lemma moves_prod [moving]: "(\<And>x y. p = (x, y) \<Longrightarrow> moves A T (f x y)) \<Longrightarrow> moves A T (case p of (x, y) \<Rightarrow> f x y)"
  by (cases p) simp

subsection \<open>Resources\<close>

text \<open>
  A resource: what takes it changes the account on a return and not on an exception, and what gives it back undoes that
  change. Work that keeps the account keeps it around the whole life of the resource, however it ends.
\<close>

locale resource =
  fixes amount :: "'a \<Rightarrow> holding \<Rightarrow> int"
    and acquire :: "('z, 'a) disp_act"
    and release :: "'a \<Rightarrow> ('z, unit) disp_act"
  assumes acquires: "moves amount nothing acquire"
    and releases: "moves (\<lambda>_ h. - amount x h) (\<lambda>h. - amount x h) (release x)"
begin

lemma scope: "(\<And>x. moves A nothing (body x)) \<Longrightarrow> moves A nothing (act_bind acquire (\<lambda>x. act_finally (body x) (release x)))"
  by (rule moves_bind [OF acquires moves_finally [of A nothing, OF _ releases refl refl]]) simp_all

end

subsection \<open>Buffers\<close>

lemma holds_set_buf:
  assumes "b < length (bufs s) \<Longrightarrow> buf_refs (f (bufs s ! b)) = buf_refs (bufs s ! b)"
  shows "holds h (set_buf b f s) = holds h s"
proof (cases "b < length (bufs s)")
  case True
  then have "map buf_refs ((bufs s)[b := f (bufs s ! b)]) = map buf_refs (bufs s)"
    using assms by (simp add: map_update) (metis list_update_id nth_map)
  then show ?thesis
    by (cases h) (simp_all add: set_buf_def)
next
  case False
  then have "set_buf b f s = s"
    by (simp add: set_buf_def list_update_beyond)
  then show ?thesis
    by simp
qed

lemma flags_simps [simp]:
  "flags (set_buf b f s) = flags s" "flags (log_event e s) = flags s" "flags (s\<lparr>bufs := bs\<rparr>) = flags s"
  "flags (s\<lparr>console := c\<rparr>) = flags s" "flags (s\<lparr>pipeline := p\<rparr>) = flags s"
  "flags (s\<lparr>default_context := d\<rparr>) = flags s" "flags (dev_refs_update g s) = flags s"
  "flags (live_transfers_update k s) = flags s" "flags (slept_ms_update l s) = flags s" "flags (s\<lparr>callback_log := cs\<rparr>) = flags s"
  by (simp_all add: flags_def set_buf_def log_event_def)

lemma moves_buffer [moving]: "moves A T m \<Longrightarrow> moves A T (on_buffer b m)"
  unfolding moves_def on_buffer_def by (auto simp: act_stop_def)

lemma moves_size [moving]: "moves (\<lambda>_. nothing) T (Buffer_size b)"
  unfolding Buffer_size_def by (intro moving)

lemma moves_lock [moving]: "moves (\<lambda>_. nothing) T (Buffer_lock b)"
  unfolding Buffer_lock_def by (intro moves_buffer movesI) (auto simp: holds_set_buf split: if_splits)

lemma moves_unlock [moving]: "keeps (Buffer_unlock b address)"
  unfolding Buffer_unlock_def by (intro moves_buffer movesI) (auto simp: holds_set_buf split: if_splits)

lemma moves_read [moving]: "moves (\<lambda>_. nothing) T (mem_read address at n)"
  unfolding mem_read_def by (intro moves_buffer movesI) (auto simp: Let_def split: if_splits)

lemma moves_write [moving]: "moves (\<lambda>_. nothing) T (mem_write address at bs)"
  unfolding mem_write_def by (intro moves_buffer movesI) (auto simp: holds_set_buf split: if_splits)

lemma holds_refs:
  assumes "buf_alive b s" "buf_refs (f (bufs s ! b)) = nat (int (buf_refs (bufs s ! b)) + n)" "- 1 \<le> n"
  shows "holds h (set_buf b f s) = (if h = Buffer_pointer then holds h s + n else holds h s)"
proof -
  have b: "b < length (bufs s)" "buf_refs (bufs s ! b) \<noteq> 0"
    using assms(1) by (simp_all add: buf_alive_def)
  let ?xs = "map buf_refs (bufs s)"
  have "sum_list (map buf_refs ((bufs s)[b := f (bufs s ! b)])) + ?xs ! b = sum_list ?xs + buf_refs (f (bufs s ! b))"
    using b(1) member_le_sum_list [of "?xs ! b" ?xs] by (simp add: map_update sum_list_update)
  then show ?thesis
    using b assms(2,3) by (cases h) (auto simp: set_buf_def nat_plus_as_int)
qed

lemma holds_ref:
  "buf_alive b s \<Longrightarrow> holds h (set_buf b (buf_refs_update (\<lambda>n. n + 1)) s) = holds h s + one Buffer_pointer h"
  "buf_alive b s \<Longrightarrow> holds h (set_buf b (buf_refs_update (\<lambda>n. n - 1)) s) = holds h s + less_one Buffer_pointer h"
  by (subst holds_refs [where n = 1], auto simp: one_def nat_plus_as_int)
    (subst holds_refs [where n = "- 1"], auto simp: one_def less_one_def buf_alive_def of_nat_diff)

lemma moves_ref: "moves (\<lambda>_. one Buffer_pointer) T (Buffer_ref b)"
  by (rule movesI) (auto simp: Buffer_ref_def on_buffer_def holds_ref [simplified] split: if_splits)

lemma moves_unref: "moves (\<lambda>_. less_one Buffer_pointer) T (Buffer_unref b)"
  by (rule movesI) (auto simp: Buffer_unref_def on_buffer_def holds_ref [simplified] split: if_splits)

lemma moves_add: "moves (\<lambda>_. one Buffer_pointer) nothing (Buffer_add env n bytes)"
proof (rule movesI)
  fix s :: "'z disp_state_scheme" and b s'
  assume "Buffer_add env n bytes s = (Inr b, s')"
  then show "flags s' = flags s \<and> (\<forall>h. holds h s' = holds h s + one Buffer_pointer h)"
    by (auto simp: Buffer_add_def one_def split: if_splits) (case_tac h; simp)
qed (auto simp: Buffer_add_def split: if_splits)

lemma moves_new: "moves (\<lambda>_. one Buffer_pointer) nothing (Buffer_new env n)"
  unfolding Buffer_new_def by (rule moves_add)

lemma moves_clone: "moves (\<lambda>_. one Buffer_pointer) nothing (Buffer_clone env b)"
  unfolding Buffer_clone_def
  by (intro moves_buffer movesI) (use movesD [OF moves_add] in \<open>auto simp: Let_def\<close>)

lemma moves_dropped: "moves (\<lambda>_ h. - one Buffer_pointer h) T (Buffer_unref b)"
  using moves_unref unfolding less_one_def .

interpretation new_buffer: resource "\<lambda>_. one Buffer_pointer" "Buffer_new env n" Buffer_unref
  by unfold_locales (rule moves_new, rule moves_dropped)

interpretation cloned_buffer: resource "\<lambda>_. one Buffer_pointer" "Buffer_clone env b" Buffer_unref
  by unfold_locales (rule moves_clone, rule moves_dropped)

text \<open>The lock scope has a pointer of its own.\<close>

lemma moves_scope [moving]:
  assumes "\<And>address. moves A T (body address)"
  shows "moves A T (BufferLockScope b body)"
proof -
  let ?P = "one Buffer_pointer"
  have leave: "moves (\<lambda>_ h. - ?P h) nothing (act_bind (Buffer_unlock b address) (\<lambda>u. Buffer_unref b))" for address
    by (rule moves_after [OF moves_unlock moves_dropped])
  have "moves (\<lambda>x h. A x h - ?P h) (\<lambda>h. T h - ?P h)
      (act_bind (Buffer_lock b) (\<lambda>address. act_finally (body address) (act_bind (Buffer_unlock b address) (\<lambda>u. Buffer_unref b))))"
    by (rule moves_after [OF moves_lock moves_finally [OF assms leave]]) simp_all
  then show ?thesis
    unfolding BufferLockScope_def by (rule moves_bind [OF moves_ref, of _ "\<lambda>_. _"]) simp_all
qed

lemma moves_shared:
  "(\<And>b. keeps (body b)) \<Longrightarrow> keeps (act_bind (Buffer_new env n) (\<lambda>b. shared_buffer b (body b)))"
  unfolding shared_buffer_def by (rule new_buffer.scope)

subsection \<open>Devices and handles\<close>

lemma holds_count: "holds h (dev_refs_update f s) = (case h of Device_reference d \<Rightarrow> f (dev_refs s) d | _ \<Rightarrow> holds h s)"
  by (cases h) simp_all

lemma moves_device_new: "moves (\<lambda>_. one (Device_reference d)) T (Device_new d)"
  unfolding Device_new_def by (rule moves_put) (auto simp: holds_count one_def split: holding.splits)

lemma moves_device_destroy: "moves (\<lambda>_ h. - one (Device_reference d) h) T (Device_destroy d)"
  unfolding Device_destroy_def by (rule moves_put) (auto simp: holds_count one_def split: holding.splits)

lemma moves_descriptor [moving]: "keeps (getDescriptor env d)"
  unfolding getDescriptor_def by (intro moving)

lemma moves_ids [moving]: "keeps (has_ids env vid pid d)"
  unfolding has_ids_def getVid_def getPid_def by (intro moving)

lemma holds_log:
  "holds h (log_event e s) = holds h s + (case h of Open_handle d \<Rightarrow> handles_of d e | Claimed_interface i \<Rightarrow> claims_of i e | _ \<Rightarrow> 0)"
  by (cases h) (simp_all add: log_event_def)

lemma moves_checked:
  assumes "\<And>rc h. (case h of Open_handle d \<Rightarrow> handles_of d (event rc) | Claimed_interface i \<Rightarrow> claims_of i (event rc) | _ \<Rightarrow> 0)
      = (if rc = 0 then A h else 0)"
  shows "moves (\<lambda>_. A) nothing (checked answer event)"
  by (rule movesI) (auto simp: checked_def Let_def holds_log assms split: if_splits)

lemma moves_claim: "moves (\<lambda>_. one (Claimed_interface i)) nothing (claimInterface env i)"
  unfolding claimInterface_def by (rule moves_checked) (auto simp: one_def split: holding.splits)

lemma moves_release: "moves (\<lambda>_ h. - one (Claimed_interface i) h) nothing (releaseInterface env i)"
  unfolding releaseInterface_def by (rule moves_checked) (auto simp: one_def split: holding.splits)

lemma moves_clear_halt [moving]: "keeps (clearEndpointHalt env e)"
  unfolding clearEndpointHalt_def by (rule moves_checked) (auto split: holding.splits)

lemma moves_open: "moves (\<lambda>_. one (Open_handle d)) nothing (Device_open env d)"
  by (rule movesI) (auto simp: Device_open_def Let_def holds_log one_def split: if_splits holding.splits)

lemma moves_close:
  "moves (\<lambda>_ h. - one (Open_handle d) h - one (Device_reference d) h) T (DeviceHandle_destroy d)"
proof -
  have "moves (\<lambda>_ h. - one (Open_handle d) h) T (act_put (log_event (Closed d)))"
    by (rule moves_put) (auto simp: holds_log one_def split: holding.splits)
  then show ?thesis
    unfolding DeviceHandle_destroy_def
    by (rule moves_bind [OF _ moves_device_destroy [of d "\<lambda>h. T h + one (Open_handle d) h"]]) simp_all
qed

subsection \<open>Transfers\<close>

lemma holds_transfers:
  "holds h (live_transfers_update f s) = (case h of Transfer_object \<Rightarrow> f (live_transfers s) | _ \<Rightarrow> holds h s)"
  by (cases h) simp_all

text \<open>
  A new transfer has no buffer: setting one cannot fail, and adds a pointer to it. A transfer with
  a buffer drops that pointer in its destructor.
\<close>

lemma new_transfer: "allocTransfer env dir type endpoint s = (Inr t, s') \<Longrightarrow> transferBuffer t = None"
  by (auto simp: allocTransfer_def TransferImpl_new_def act_simps act_return_def)

lemma prepared_transfer: "setTransferBuffer b t s = (Inr u, s') \<Longrightarrow> transferBuffer u = Some b"
  by (auto simp: setTransferBuffer_def act_simps act_return_def)

lemma moves_alloc: "moves (\<lambda>_. one Transfer_object) nothing (allocTransfer env dir type endpoint)"
proof -
  have "moves (\<lambda>_. one Transfer_object) nothing (DeviceHandle_allocTransfer env dir type endpoint)"
    by (rule movesI) (auto simp: DeviceHandle_allocTransfer_def holds_transfers one_def split: if_splits holding.splits)
  then show ?thesis
    unfolding allocTransfer_def by (rule moves_then)
qed

lemma moves_set_buffer:
  assumes "transferBuffer t = None"
  shows "moves (\<lambda>_. one Buffer_pointer) T (setTransferBuffer b t :: ('z, TransferImpl) disp_act)"
proof -
  have "(setTransferBuffer b t :: ('z, TransferImpl) disp_act) = act_bind (Buffer_ref b) (\<lambda>u.
     act_bind (Buffer_lock b) (\<lambda>address.
     act_bind (Buffer_size b) (\<lambda>size.
     act_return (t\<lparr>transferBuffer := Some b,
                   handle := (handle t)\<lparr>xf_buffer := Some address, xf_length := c_int (int size)\<rparr>\<rparr>))))"
    using assms by (simp add: setTransferBuffer_def releaseTransferBuffer_def fun_eq_iff act_bind_def)
  moreover have rest: "moves (\<lambda>_. nothing) (\<lambda>h. T h - one Buffer_pointer h) (act_bind (Buffer_lock b) (\<lambda>address.
     act_bind (Buffer_size b) (\<lambda>size.
     act_return (t\<lparr>transferBuffer := Some b,
                   handle := (handle t)\<lparr>xf_buffer := Some address, xf_length := c_int (int size)\<rparr>\<rparr>))))"
    by (intro moving)
  ultimately show ?thesis
    using moves_bind [where T = T and D = "\<lambda>_. one Buffer_pointer", OF moves_ref rest] by simp
qed

lemma moves_transfer_destroy:
  assumes "transferBuffer t = Some b"
  shows "moves (\<lambda>_ h. - one Transfer_object h - one Buffer_pointer h) nothing (Transfer_destroy t)"
proof -
  have free: "moves (\<lambda>_ h. - one Transfer_object h) T (act_put (live_transfers_update (\<lambda>n. n - 1)))" for T
    by (rule moves_put) (auto simp: holds_transfers one_def split: holding.splits)
  have drop: "moves (\<lambda>_ h. - one Buffer_pointer h) nothing (act_bind (Buffer_unlock b address) (\<lambda>u.
      act_bind (Buffer_unref b) (\<lambda>u. act_return (k u))))" for address k
    by (rule moves_after [OF moves_unlock], rule moves_then, rule moves_dropped)
  have "moves (\<lambda>_ h. - one Buffer_pointer h) nothing (releaseTransferBuffer t)"
    unfolding releaseTransferBuffer_def using assms
    by (auto intro!: moves_option moves_throw drop)
  then show ?thesis
    unfolding Transfer_destroy_def by (rule moves_bind [OF _ free [of "one Buffer_pointer"]]) simp_all
qed

lemma moves_submit [moving]: "keeps (submit env t)"
  by (rule movesI) (auto simp: submit_def Let_def holds_log split: if_splits holding.splits)

lemma moves_wait [moving]: "keeps (waitForCompletion env t)"
  by (rule movesI)
    (auto simp: waitForCompletion_def complete_transfer_def Let_def holds_log holds_set_buf split: if_splits option.splits holding.splits prod.splits)

lemma moves_now [moving]: "keeps (transfer_now env t)"
  unfolding transfer_now_def by (intro moving) (auto intro!: moving split: TransferStatus.splits)

lemma moves_send_transfer [moving]: "keeps (send_transfer env b)"
proof -
  have sent: "moves (\<lambda>_ h. - one Transfer_object h) (\<lambda>h. - one Transfer_object h)
      (act_bind (setTransferBuffer b t) (\<lambda>t. act_finally (transfer_now env t) (Transfer_destroy t)))"
    if "transferBuffer t = None" for t
  proof (rule moves_bind_returned [OF moves_set_buffer [OF that]])
    fix u s s'
    assume "setTransferBuffer b t s = (Inr u, s')"
    then have "transferBuffer u = Some b"
      by (rule prepared_transfer)
    then show "moves (\<lambda>_ h. - one Transfer_object h - one Buffer_pointer h) (\<lambda>h. - one Transfer_object h - one Buffer_pointer h)
        (act_finally (transfer_now env u) (Transfer_destroy u))"
      by (intro moves_finally [OF moves_now moves_transfer_destroy]) simp_all
  qed simp_all
  show ?thesis
    unfolding send_transfer_def
    by (rule moves_bind_returned [OF moves_alloc sent]) (auto dest: new_transfer)
qed

subsection \<open>Commands\<close>

lemma moves_set_impl [moving]:
  "(\<And>i. own_pipeline (f i) = own_pipeline i \<and> status_started (f i) = status_started i \<and> device (f i) = device i)
    \<Longrightarrow> moves (\<lambda>_. nothing) T (set_impl f)"
  unfolding set_impl_def by (rule moves_put) (auto simp: flags_def, case_tac h, simp_all)

lemma moves_firmware [moving]: "keeps (firmware env)"
  unfolding firmware_def Impl_getDevice_def getFirmwareVersion_def by (intro moving)

lemma moves_gather [moving]: "moves (\<lambda>_. nothing) T (gather packet payload scoped)"
  unfolding gather_def by (intro moving)

lemma moves_fill_packets [moving]: "moves (\<lambda>_. nothing) T (fill_packets n scoped naked)"
  by (rule movesI) (auto simp: fill_packets_def holds_set_buf split: sum.splits)

lemma moves_command [moving]: "keeps (sendCommandToDisplayEndpoint env packet payload)"
proof -
  have inner: "keeps (act_bind (Buffer_new env n) (\<lambda>tb. shared_buffer tb
      (act_bind (BufferLockScope tb (fill_packets k scoped)) (\<lambda>u. send_transfer env tb))))" for n k scoped
    by (rule moves_shared) (intro moving)
  have outer: "keeps (act_bind (Buffer_new env m) (\<lambda>ov. shared_buffer ov (BufferLockScope ov (\<lambda>scoped.
      act_bind (gather packet payload scoped) (\<lambda>u. act_bind (Buffer_new env n) (\<lambda>tb. shared_buffer tb
      (act_bind (BufferLockScope tb (fill_packets k scoped)) (\<lambda>u. send_transfer env tb))))))))" for m n k
    by (rule moves_shared, rule moves_scope, rule moves_after [OF moves_gather inner])
  show ?thesis
    unfolding sendCommandToDisplayEndpoint_def Let_def by (rule outer moving)+
qed

lemma moves_compress: "moves (\<lambda>_. one Buffer_pointer) nothing (rleCompress env b)"
proof -
  have filled: "moves (\<lambda>_. nothing) T (BufferLockScope ob (\<lambda>naked. act_bind (mem_write naked 0 out) (\<lambda>u. act_return ob)))" for ob out T
    by (intro moving)
  have new: "moves (\<lambda>_. one Buffer_pointer) nothing (act_bind (Buffer_new env (length out))
      (\<lambda>ob. BufferLockScope ob (\<lambda>naked. act_bind (mem_write naked 0 out) (\<lambda>u. act_return ob))))" for out
    by (rule moves_bind [OF moves_new filled [of "\<lambda>h. - one Buffer_pointer h"]]) simp_all
  show ?thesis
    unfolding rleCompress_def by (rule new moving)+
qed

lemma moves_fillrect [moving]: "keeps (sdk_fillrect env l t r b color m)"
  unfolding sdk_fillrect_def Let_def by (intro moving)

lemma moves_fill [moving]: "keeps (sdk_fill env color)"
  unfolding sdk_fill_def Let_def by (intro moving)

lemma moves_copy [moving]: "keeps (sdk_copyArea env sx sy dx dy w h)"
proof -
  have padded: "keeps (act_bind (Buffer_new env 1) (\<lambda>b. shared_buffer b (sendCommandToDisplayEndpoint env packet (Some b))))" for packet
    by (rule moves_shared) (rule moves_command)
  show ?thesis
    unfolding sdk_copyArea_def Let_def by (rule padded moving)+
qed

lemma moves_bitblt [moving]: "keeps (sdk_bitblt env x y w h m pixels)"
proof -
  let ?gone = "\<lambda>h. - one Buffer_pointer h"
  define prepare where "prepare = (\<lambda>n payload.
      act_bind (BufferLockScope payload (\<lambda>naked.
        if length pixels < n then act_stop (Crash OutOfBounds) else mem_write naked 0 (take n pixels))) (\<lambda>u.
      act_bind (firmware env) (\<lambda>version.
      if version < MIN_VERSION_BITBLT_RLE then act_return (RPUSBDISP_DISPCMD_BITBLT, payload)
      else act_bind (rleCompress env payload) (\<lambda>b.
           act_bind (Buffer_unref payload) (\<lambda>u. act_return (RPUSBDISP_DISPCMD_BITBLT_RLE, b))))
        :: ('a disp_state_scheme, u8 \<times> nat) act))"
  have compressed: "keeps (act_bind (rleCompress env payload) (\<lambda>b. act_bind (Buffer_unref payload) (\<lambda>u. act_return (c b))))" for payload c
    by (rule moves_bind [OF moves_compress moves_then [OF moves_dropped [of ?gone]]]) simp_all
  have "keeps (prepare n payload)" for n payload
    unfolding prepare_def by (rule compressed moving)+
  then have prep: "moves (\<lambda>_. nothing) ?gone (on_throw (prepare n payload) (Buffer_unref payload))" for n payload
    by (rule moves_on_throw [OF _ moves_dropped]) simp
  have send: "moves (\<lambda>_. ?gone) ?gone (shared_buffer b (sendCommandToDisplayEndpoint env packet (Some b)))" for b packet
    unfolding shared_buffer_def by (rule moves_finally [OF moves_command moves_dropped]) simp_all
  have "moves (\<lambda>_. ?gone) ?gone (act_bind (on_throw (prepare n payload) (Buffer_unref payload))
      (\<lambda>(cmd, b). shared_buffer b (sendCommandToDisplayEndpoint env (packet cmd) (Some b))))" for n payload packet
    by (rule moves_after [OF prep]) (auto intro: send)
  then have "keeps (act_bind (Buffer_new env n) (\<lambda>payload. act_bind (on_throw (prepare n payload) (Buffer_unref payload))
      (\<lambda>(cmd, b). shared_buffer b (sendCommandToDisplayEndpoint env (packet cmd) (Some b)))))" for n packet
    by (rule moves_bind [OF moves_new]) simp_all
  then show ?thesis
    unfolding sdk_bitblt_def Let_def prepare_def .
qed

subsection \<open>The status thread\<close>

lemma moves_print [moving]: "moves (\<lambda>_. nothing) T (printToConsole e)"
  unfolding printToConsole_def by (rule moves_put) (auto, case_tac h, simp_all)

lemma moves_decode [moving]: "keeps (decodeAs env n t)"
proof -
  have cloned: "keeps (act_bind (Buffer_clone env b) (\<lambda>copy. shared_buffer copy (BufferLockScope copy (\<lambda>address. mem_read address 0 n))))" for b
    unfolding shared_buffer_def by (rule cloned_buffer.scope) (intro moving)
  show ?thesis
    unfolding decodeAs_def by (rule cloned moving)+
qed

lemma moves_update_status [moving]: "keeps (update_status env t)"
proof -
  have "moves (\<lambda>_. nothing) T (act_put (\<lambda>s. if statusCallback (impl s) then s\<lparr>callback_log := callback_log s @ [st]\<rparr> else s))" for T st
    by (rule moves_put) (auto, case_tac h, simp_all)
  then show ?thesis
    unfolding update_status_def Let_def by (intro moving) simp_all
qed

lemma moves_round [moving]: "keeps (status_round env t)"
proof -
  have log: "moves (\<lambda>_. nothing) T (act_put (\<lambda>s. s\<lparr>console := console s @ [line]\<rparr>))" for T line
    by (rule moves_put) (auto, case_tac h, simp_all)
  have "keeps (case st of
                 TransferStatusCompleted \<Rightarrow> act_catch (update_status env t) (\<lambda>e. act_stop Terminate)
               | TransferStatusStall \<Rightarrow> act_catch (clearEndpointHalt env UsbDeviceStatusEndpoint) (\<lambda>e. act_stop Terminate)
               | st \<Rightarrow> act_put (\<lambda>s. s\<lparr>console := console s @ [line st]\<rparr>))" for st t line
    by (cases st) (auto intro!: moving log)
  then show ?thesis
    unfolding status_round_def by (intro moving) simp_all
qed

lemma moves_loop [moving]: "keeps (status_loop env fuel t)"
  by (induction fuel arbitrary: t) (auto simp: isAlive_def intro!: moving)

text \<open>A status thread that ends has given back its transfer and its buffer; one that goes on holds them.\<close>

lemma worker_gives_back:
  fixes s :: "'z disp_state_scheme"
  assumes "statusFetchingWorker env fuel s = (Inr ended, s')"
  shows "holds h s' = holds h s + (if ended then 0 else one Transfer_object h + one Buffer_pointer h)"
proof -
  obtain t0 s0 b s1 t s2 s3 s4 where
    run: "allocTransfer env EndpointDirectionIn EndpointTransferTypeInterrupt UsbDeviceStatusEndpoint s = (Inr t0, s0)"
      "Buffer_new env 32 s0 = (Inr b, s1)" "setTransferBuffer b t0 s1 = (Inr t, s2)" "Buffer_unref b s2 = (Inr (), s3)"
      "status_loop env fuel t s3 = (Inr ended, s4)"
      "(if ended then Transfer_destroy t else act_return ()) s4 = (Inr (), s')"
    using assms unfolding statusFetchingWorker_def
    by (auto simp: act_catch_def act_simps split: prod.splits sum.splits stop.splits)
  have "holds h s4 = holds h s + one Transfer_object h + one Buffer_pointer h"
    using movesD(2) [OF moves_alloc run(1), of h] movesD(2) [OF moves_new run(2), of h]
      movesD(2) [OF moves_set_buffer [OF new_transfer [OF run(1)]] run(3), of h]
      movesD(2) [OF moves_unref run(4), of h] movesD(2) [OF moves_loop run(5), of h] by (simp add: less_one_def)
  moreover have "Transfer_destroy t s4 = (Inr (), s') \<Longrightarrow> holds h s' = holds h s4 - one Transfer_object h - one Buffer_pointer h"
    using movesD(2) [OF moves_transfer_destroy [OF prepared_transfer [OF run(3)]], of s4 "()" s' h] by simp
  ultimately show ?thesis
    using run(6) by (auto split: if_splits)
qed

end
