(* ===== verification/Sdk_Sessions.thy ===== *)
theory Sdk_Sessions
  imports Sdk_Resources
begin

text \<open>
  A display from its opening to its disposal: opening takes everything or nothing, and a session
  over the C interface gives everything back.
\<close>

subsection \<open>Looking for a device\<close>

definition of_list :: "DeviceListImpl \<Rightarrow> holding \<Rightarrow> int" where
  "of_list devices h = (case h of Device_reference d \<Rightarrow> int (count_list (list_devices devices) d) | _ \<Rightarrow> 0)"

definition of_found :: "nat option \<Rightarrow> holding \<Rightarrow> int" where
  "of_found r = (case r of None \<Rightarrow> nothing | Some d \<Rightarrow> one (Device_reference d))"

lemma moves_list: "moves of_list nothing (Context_getDeviceList env)"
proof (rule movesI)
  fix s :: "'z disp_state_scheme" and devices s'
  assume "Context_getDeviceList env s = (Inr devices, s')"
  then show "flags s' = flags s \<and> (\<forall>h. holds h s' = holds h s + of_list devices h)"
    by (auto simp: Context_getDeviceList_def of_list_def holds_count split: sum.splits holding.splits)
qed (auto simp: Context_getDeviceList_def split: sum.splits)

lemma moves_list_destroy: "moves (\<lambda>_ h. - of_list devices h) T (DeviceList_destroy devices)"
  unfolding DeviceList_destroy_def by (rule moves_put) (auto simp: of_list_def holds_count split: holding.splits)

interpretation device_list: resource of_list "Context_getDeviceList env" DeviceList_destroy
  by unfold_locales (rule moves_list, rule moves_list_destroy)

lemma moves_get_device: "moves of_found T (DeviceList_getDevice devices i)"
proof (cases "i \<ge> list_size devices")
  case True
  then show ?thesis
    by (simp add: DeviceList_getDevice_def of_found_def moves_return)
next
  case False
  let ?d = "list_devices devices ! i"
  have "moves of_found T (act_bind (Device_new ?d) (\<lambda>u. act_return (Some ?d)))"
  proof (rule movesI)
    fix s :: "'z disp_state_scheme" and x s'
    assume "act_bind (Device_new ?d) (\<lambda>u. act_return (Some ?d)) s = (Inr x, s')"
    then have x: "x = Some ?d" and run: "Device_new ?d s = (Inr (), s')"
      by (auto simp: act_simps)
    show "flags s' = flags s \<and> (\<forall>h. holds h s' = holds h s + of_found x h)"
      using movesD(1,2) [OF moves_device_new run] by (simp add: x of_found_def)
  next
    fix s :: "'z disp_state_scheme" and e s'
    assume "act_bind (Device_new ?d) (\<lambda>u. act_return (Some ?d)) s = (Inl (Throws e), s')"
    then show "flags s' = flags s \<and> (\<forall>h. holds h s' = holds h s + T h)"
      by (auto simp: act_simps Device_new_def)
  qed
  then show ?thesis
    using False by (simp add: DeviceList_getDevice_def Let_def)
qed

lemma moves_find: "moves of_found nothing (find_from env devices i :: ('z, nat option) disp_act)"
proof (induction "DeviceList_count devices - i" arbitrary: i rule: less_induct)
  case less
  have checked: "moves (\<lambda>_. nothing) (\<lambda>h. - of_found (Some d) h)
      (on_throw (has_ids env UsbDeviceVendorId UsbDeviceProductId d) (Device_destroy d))" for d
    by (rule moves_on_throw [OF moves_ids moves_device_destroy]) (simp add: of_found_def)
  have rest: "moves (\<lambda>r h. of_found r h - of_found (Some d) h) (\<lambda>h. - of_found (Some d) h)
      (if ok then act_return (Some d) else act_bind (Device_destroy d) (\<lambda>u. find_from env devices (Suc i)) :: ('z, nat option) disp_act)"
    if "i < DeviceList_count devices" for d ok
  proof -
    have "moves (\<lambda>r h. of_found r h - of_found (Some d) h) (\<lambda>h. - of_found (Some d) h)
        (act_bind (Device_destroy d) (\<lambda>u. find_from env devices (Suc i)) :: ('z, nat option) disp_act)"
      by (rule moves_bind [OF moves_device_destroy less]) (use that in \<open>auto simp: of_found_def\<close>)
    then show ?thesis
      by (auto intro: moves_return)
  qed
  have entry: "moves (\<lambda>r h. of_found r h - of_found entry h) (\<lambda>h. - of_found entry h)
      (case entry of None \<Rightarrow> act_stop (Crash NullDeref)
        | Some d \<Rightarrow> act_bind (on_throw (has_ids env UsbDeviceVendorId UsbDeviceProductId d) (Device_destroy d)) (\<lambda>ok.
            if ok then act_return (Some d) else act_bind (Device_destroy d) (\<lambda>u. (find_from env devices (Suc i) :: ('z, nat option) disp_act))))"
    if "i < DeviceList_count devices" for entry
    by (rule moves_option) (auto intro!: moves_after [OF checked rest [OF that]] moving)
  have "moves of_found nothing (act_bind (DeviceList_getDevice devices i) (\<lambda>entry. case entry of
      None \<Rightarrow> act_stop (Crash NullDeref)
    | Some d \<Rightarrow> act_bind (on_throw (has_ids env UsbDeviceVendorId UsbDeviceProductId d) (Device_destroy d)) (\<lambda>ok.
        if ok then act_return (Some d) else act_bind (Device_destroy d) (\<lambda>u. (find_from env devices (Suc i) :: ('z, nat option) disp_act)))))"
    if "i < DeviceList_count devices"
    by (rule moves_bind [OF moves_get_device entry [OF that]]) simp_all
  then show ?case
    unfolding find_from.simps [of env devices i] by (auto intro!: moves_return simp: of_found_def)
qed

lemma moves_context [moving]: "keeps (defaultContext env)"
proof -
  have same: "holds h (s\<lparr>default_context := True\<rparr>) = holds h s" for h and s :: "'z disp_state_scheme"
    by (cases h) simp_all
  show ?thesis
    by (rule movesI) (auto simp: defaultContext_def same split: if_splits)
qed

lemma moves_find_first: "moves of_found nothing (findFirstDevice env)"
  unfolding findFirstDevice_def by (rule moves_after [OF moves_context device_list.scope]) (rule moves_find)

subsection \<open>Opening\<close>

lemma find_unwinds: "unwinds (fst (find_from env devices i s))"
proof (induction "DeviceList_count devices - i" arbitrary: i s rule: less_induct)
  case less
  show ?case
  proof (cases "i < DeviceList_count devices")
    case True
    then have "DeviceList_getDevice devices i s = (Inr (Some (list_devices devices ! i)), add_refs [list_devices devices ! i] s)"
      by (simp add: DeviceList_getDevice_def DeviceList_count_def Let_def)
    then show ?thesis
      using True less [of "Suc i"]
      by (simp add: find_from.simps [of env devices i] on_throw_def act_bind_def act_catch_def has_ids_eq Device_destroy_def
        split: prod.splits)
  qed (simp add: find_from.simps)
qed

lemma find_first_unwinds:
  fixes s :: "'z disp_state_scheme"
  shows "unwinds (fst (findFirstDevice env s))"
proof -
  have "unwinds (fst (act_finally (find_from env devices 0) (DeviceList_destroy devices) s))" for devices and s :: "'z disp_state_scheme"
    using find_unwinds [of env devices 0 s]
    by (auto simp: act_finally_def DeviceList_destroy_def unwinds_def split: prod.splits sum.splits stop.splits)
  then show ?thesis
    by (simp add: findFirstDevice_def act_bind_def defaultContext_def Context_getDeviceList_def split: prod.splits sum.splits)
qed

text \<open>What an open display holds: its device, the handle and the interface.\<close>

definition of_display :: "nat \<Rightarrow> holding \<Rightarrow> int" where
  "of_display d h = one (Device_reference d) h + one (Open_handle d) h + one (Claimed_interface 0) h"

definition new_display :: "'z disp_state_scheme \<Rightarrow> 'z disp_state_scheme \<Rightarrow> bool" where
  "new_display s s' \<longleftrightarrow> \<not> own_pipeline (impl s') \<and> \<not> status_started (impl s')
     \<and> (\<forall>h. holds h s' = holds h s + of_display (device (impl s')) h)"

lemma display_new:
  fixes s :: "'z disp_state_scheme"
  assumes "DeviceImpl_new env d s = (r, s')"
  shows "unwinds r" "r = Inl (Throws e) \<Longrightarrow> holds h s' = holds h s"
    "r = Inr u \<Longrightarrow> \<not> own_pipeline (impl s') \<and> \<not> status_started (impl s') \<and> device (impl s') = d
      \<and> holds h s' = holds h s + one (Claimed_interface 0) h"
proof -
  have same: "holds h (t\<lparr>impl := i\<rparr>) = holds h t" for i and t :: "'z disp_state_scheme"
    by (cases h) simp_all
  obtain rc s1 where claim: "claimInterface env 0 s = (rc, s1)"
    by (cases "claimInterface env 0 s")
  then have rc: "rc = Inr () \<or> (\<exists>e. rc = Inl (Throws e))"
    by (auto simp: claimInterface_def checked_def Let_def split: if_splits)
  have claimed: "rc = Inr () \<Longrightarrow> holds h s1 = holds h s + one (Claimed_interface 0) h"
    "rc = Inl (Throws e) \<Longrightarrow> holds h s1 = holds h s"
    using claim movesD(2,4) [OF moves_claim, of env 0 s] by auto
  from rc show "unwinds r" "r = Inl (Throws e) \<Longrightarrow> holds h s' = holds h s"
    "r = Inr u \<Longrightarrow> \<not> own_pipeline (impl s') \<and> \<not> status_started (impl s') \<and> device (impl s') = d
      \<and> holds h s' = holds h s + one (Claimed_interface 0) h"
    using assms claim claimed
    by (auto simp: DeviceImpl_new_def InterfaceScope_new_def getMaxPacketSize_def set_impl_def act_bind_def act_return_def
      act_put_def same)
qed

text \<open>Opening, up to the handle.\<close>

lemma opened_handle:
  fixes s :: "'z disp_state_scheme"
  assumes "on_throw (Device_open env d) (Device_destroy d) s = (r, s')"
  shows "unwinds r" "r = Inl (Throws e) \<Longrightarrow> holds h s' = holds h s - one (Device_reference d) h"
    "r = Inr k \<Longrightarrow> k = d \<and> holds h s' = holds h s + one (Open_handle d) h"
proof -
  have m: "moves (\<lambda>_. one (Open_handle d)) (\<lambda>h. - one (Device_reference d) h) (on_throw (Device_open env d) (Device_destroy d))"
    by (rule moves_on_throw [OF moves_open moves_device_destroy]) simp
  show "r = Inl (Throws e) \<Longrightarrow> holds h s' = holds h s - one (Device_reference d) h"
    using movesD(4) [OF m, of s] assms by simp
  have "r = Inr k \<Longrightarrow> k = d"
    using assms by (auto simp: on_throw_def Device_open_def Let_def act_catch_def act_simps split: if_splits prod.splits)
  then show "r = Inr k \<Longrightarrow> k = d \<and> holds h s' = holds h s + one (Open_handle d) h"
    using movesD(2) [OF m, of s] assms by simp
  show "unwinds r"
    using assms by (auto simp: on_throw_def Device_open_def Let_def Device_destroy_def act_catch_def act_bind_def split: if_splits)
qed

lemma open_outcome:
  fixes s :: "'z disp_state_scheme"
  shows "\<exists>rc out s'. RoboPeakUsbDisplayOpenFirstDevice env s = (Inr (rc, out), s')
    \<and> (if out = Some True then rc = 0 \<and> new_display s s' else \<forall>h. holds h s' = holds h s)"
proof -
  obtain r s1 where find: "findFirstDevice env s = (r, s1)"
    by (cases "findFirstDevice env s")
  have r: "unwinds r"
    using find_first_unwinds [of env s] find by simp
  note found = movesD(2,4) [OF moves_find_first, of env s]
  consider (fail) e where "r = Inl (Throws e)" | (none) "r = Inr None" | (some) d where "r = Inr (Some d)"
    using r by (cases r) (auto simp: unwinds_def split: stop.splits)
  then show ?thesis
  proof cases
    case fail
    then show ?thesis
      using find found by (simp add: RoboPeakUsbDisplayOpenFirstDevice_def openFirstDevice_def)
  next
    case none
    then have "RoboPeakUsbDisplayOpenFirstDevice env s = (Inr (- 1, Some False), s1)" "holds h s1 = holds h s" for h
      using find found(1) [of None s1]
      by (simp_all add: RoboPeakUsbDisplayOpenFirstDevice_def openFirstDevice_def of_found_def act_bind_def act_catch_def)
    then show ?thesis
      by auto
  next
    case (some d)
    have s1: "holds h s1 = holds h s + one (Device_reference d) h" for h
      using find found(1) [of "Some d" s1] some by (simp add: of_found_def)
    obtain r2 s2 where opens: "on_throw (Device_open env d) (Device_destroy d) s1 = (r2, s2)"
      by (cases "on_throw (Device_open env d) (Device_destroy d) s1")
    note handle = opened_handle [OF opens]
    show ?thesis
    proof (cases r2)
      case (Inl x)
      then obtain e where "r2 = Inl (Throws e)"
        using handle(1) by (auto simp: unwinds_def split: stop.splits)
      then show ?thesis
        using find some opens handle(2) s1
        by (simp add: RoboPeakUsbDisplayOpenFirstDevice_def openFirstDevice_def)
    next
      case (Inr k)
      then have k: "k = d" "holds h s2 = holds h s + one (Device_reference d) h + one (Open_handle d) h" for h
        using handle(3) s1 by auto
      obtain r3 s3 where new: "DeviceImpl_new env d s2 = (r3, s3)"
        by (cases "DeviceImpl_new env d s2")
      note display = display_new [OF new]
      show ?thesis
      proof (cases r3)
        case Inr2: (Inr u)
        then have "new_display s s3"
          using display(3) k(2) by (simp add: new_display_def of_display_def)
        then show ?thesis
          using find some opens Inr k(1) new Inr2
          by (simp add: RoboPeakUsbDisplayOpenFirstDevice_def openFirstDevice_def on_throw_def)
      next
        case Inl3: (Inl x)
        then obtain e where e: "r3 = Inl (Throws e)"
          using display(1) by (auto simp: unwinds_def split: stop.splits)
        obtain s4 where close: "DeviceHandle_destroy d s3 = (Inr (), s4)"
          by (auto simp: DeviceHandle_destroy_def Device_destroy_def)
        have "holds h s4 = holds h s" for h
          using movesD(2) [OF moves_close close, of h] display(2) [OF e, of h] k(2) [of h] by simp
        then show ?thesis
          using find some opens Inr k(1) new e close
          by (simp add: RoboPeakUsbDisplayOpenFirstDevice_def openFirstDevice_def on_throw_def)
      qed
    qed
  qed
qed

text \<open>
  C33. Opening the first display through the C interface always returns, and takes everything or nothing.
  If it reports a display, the new display holds one reference to its device, one open handle and
  the claimed interface; whatever fails on the way, a descriptor that cannot be read, the opening of the
  device or the claim of its interface, and also if there is no display, every reference, handle, interface and buffer
  taken meanwhile has been given back.
\<close>

theorem sdk_open_all_or_nothing:
  fixes s :: "'z disp_state_scheme"
  shows "\<exists>rc out s'. RoboPeakUsbDisplayOpenFirstDevice env s = (Inr (rc, out), s')
    \<and> (if out = Some True then rc = 0 \<and> new_display s s' else \<forall>h. holds h s' = holds h s)"
  by (rule open_outcome)

text \<open>A device whose interface somebody else holds.\<close>

definition busy_env :: disp_env where
  "busy_env = (working_env 0x0104)\<lparr>lib_claim := \<lambda>_ _. -6\<rparr>"

lemma display_found:
  assumes "env = working_env 0x0104 \<or> env = busy_env"
  shows "findFirstDevice env opened_state = (Inr (Some 0), add_refs [0] opened_state)"
  using assms
  by (auto simp: findFirstDevice_def defaultContext_def opened_state_def Context_getDeviceList_def busy_env_def working_env_def
    find_from.simps DeviceList_count_def DeviceList_getDevice_def has_ids_eq on_throw_def DeviceList_destroy_def fun_eq_iff add_refs_def)

lemma busy_answers: "lib_open busy_env l d = 0" "lib_claim busy_env l i = - 6"
  by (simp_all add: busy_env_def working_env_def)

lemma busy_open: "\<exists>s'. RoboPeakUsbDisplayOpenFirstDevice busy_env opened_state = (Inr (-6, None), s')"
  by (simp add: RoboPeakUsbDisplayOpenFirstDevice_def openFirstDevice_def display_found on_throw_def Device_open_def Let_def
    DeviceImpl_new_def InterfaceScope_new_def claimInterface_def checked_def DeviceHandle_destroy_def Device_destroy_def Exception_def
    busy_answers)

theorem sdk_open_all_or_nothing_witness:
  "\<exists>s'. RoboPeakUsbDisplayOpenFirstDevice busy_env opened_state = (Inr (-6, None), s') \<and> (\<forall>h. holds h s' = holds h opened_state)"
  using sdk_open_all_or_nothing [of busy_env opened_state] busy_open by auto

subsection \<open>A session\<close>

lemma act_bind_assoc: "act_bind (act_bind m f) g = act_bind m (\<lambda>x. act_bind (f x) g)"
  by (rule ext) (simp add: act_bind_def split: prod.splits sum.splits)

text \<open>The account without the pointer to the pipeline that the display itself has once it is enabled.\<close>

definition account :: "holding \<Rightarrow> 'z disp_state_scheme \<Rightarrow> int" where
  "account h s = holds h s - (if h = Pipeline_pointer \<and> own_pipeline (impl s) then 1 else 0)"

definition goes_on :: "'z disp_state_scheme \<Rightarrow> 'z disp_state_scheme \<Rightarrow> bool" where
  "goes_on s s' \<longleftrightarrow> own_pipeline (impl s) = status_started (impl s) \<longrightarrow>
     own_pipeline (impl s') = status_started (impl s') \<and> device (impl s') = device (impl s)
     \<and> (\<forall>h. account h s' = account h s)"

lemma goes_on_trans: "goes_on s t \<Longrightarrow> goes_on t u \<Longrightarrow> goes_on s u"
  by (simp add: goes_on_def)

definition steady :: "('z, 'a) disp_act \<Rightarrow> bool" where
  "steady m \<longleftrightarrow> (\<forall>s r s'. m s = (r, s') \<longrightarrow> unwinds r \<longrightarrow> goes_on s s')"

lemma steadyI: "(\<And>s r s'. m s = (r, s') \<Longrightarrow> unwinds r \<Longrightarrow> goes_on s s') \<Longrightarrow> steady m"
  by (simp add: steady_def)

lemma steadyD: "steady m \<Longrightarrow> m s = (r, s') \<Longrightarrow> unwinds r \<Longrightarrow> goes_on s s'"
  by (simp add: steady_def)

named_theorems steadies \<open>operations of a session\<close>

lemma steady_keeps: "keeps m \<Longrightarrow> steady m"
  unfolding moves_def steady_def goes_on_def account_def flags_def by (auto split: sum.splits)

lemma steady_bind [steadies]:
  assumes "steady m" "\<And>x. steady (f x)"
  shows "steady (act_bind m f)"
proof (rule steadyI)
  fix s r s'
  assume run: "act_bind m f s = (r, s')" and r: "unwinds r"
  show "goes_on s s'"
  proof (cases "m s")
    case (Pair r1 s1)
    show ?thesis
    proof (cases r1)
      case (Inl e)
      then show ?thesis
        using run r Pair steadyD [OF assms(1) Pair] by (auto simp: unwinds_def)
    next
      case (Inr x)
      then show ?thesis
        using run Pair goes_on_trans [OF steadyD [OF assms(1) Pair] steadyD [OF assms(2) [of x] _ r]] by simp
    qed
  qed
qed

lemma steady_catch [steadies]:
  assumes "steady m" "\<And>e. steady (f e)"
  shows "steady (act_catch m f)"
proof (rule steadyI)
  fix s r s'
  assume run: "act_catch m f s = (r, s')" and r: "unwinds r"
  show "goes_on s s'"
  proof (cases "m s")
    case (Pair r1 s1)
    show ?thesis
    proof (cases "\<exists>e. r1 = Inl (Throws e)")
      case True
      then obtain e where "r1 = Inl (Throws e)"
        by blast
      then show ?thesis
        using run Pair goes_on_trans [OF steadyD [OF assms(1) Pair] steadyD [OF assms(2) [of e] _ r]] by simp
    next
      case False
      then show ?thesis
        using run r Pair steadyD [OF assms(1) Pair] by (auto simp: act_catch_def split: sum.splits stop.splits)
    qed
  qed
qed

lemma holds_pipeline:
  "holds h (s\<lparr>pipeline := p\<rparr>) = (if h = Pipeline_pointer then case p of None \<Rightarrow> 0 | Some p \<Rightarrow> int (pl_refs p) else holds h s)"
  by (cases h) simp_all

lemma holds_impl: "holds h (impl_update f s) = holds h s"
  by (cases h) simp_all

text \<open>Enabling for the first time takes a pointer to the pipeline, which the display keeps.\<close>

lemma steady_do_enable:
  "steady (act_bind (act_get (\<lambda>s. status_started (impl s))) (\<lambda>started. if started then act_return () else doEnable env))"
proof (rule steadyI)
  fix s r and s' :: "'z disp_state_scheme"
  assume run: "act_bind (act_get (\<lambda>s. status_started (impl s))) (\<lambda>started. if started then act_return () else doEnable env) s = (r, s')"
    and r: "unwinds r"
  show "goes_on s s'"
  proof (cases "status_started (impl s)")
    case True
    then show ?thesis
      using run by (simp add: goes_on_def)
  next
    case False
    obtain r1 s1 where ctx: "defaultContext env s = (r1, s1)"
      by (cases "defaultContext env s")
    have s1: "goes_on s s1"
      using steadyD [OF steady_keeps [OF moves_context] ctx] ctx by (auto simp: defaultContext_def split: if_splits)
    show ?thesis
    proof (cases r1)
      case (Inl e)
      then show ?thesis
        using run False ctx s1 by (simp add: doEnable_def)
    next
      case (Inr u)
      have "status_started (impl s1) = status_started (impl s)" "own_pipeline (impl s1) = own_pipeline (impl s)"
        using ctx by (auto simp: defaultContext_def split: if_splits)
      then have "goes_on s1 s'"
        using run False ctx Inr
        by (cases "pipeline s1")
          (auto simp: doEnable_def summonPipeline_def Pipeline_start_def set_impl_def goes_on_def account_def holds_pipeline holds_impl)
      then show ?thesis
        using s1 goes_on_trans by blast
    qed
  qed
qed

lemma steady_enable [steadies]: "steady (sdk_enable env :: ('z, unit) disp_act)"
proof -
  have slept: "steady (act_put (slept_ms_update f) :: ('z, unit) disp_act)" for f
    by (rule steady_keeps, rule moves_put) (auto, case_tac h, simp_all)
  have "sdk_enable env = act_bind (act_bind (act_get (\<lambda>s. status_started (impl s)))
      (\<lambda>started. if started then act_return () else doEnable env)) (\<lambda>u.
     act_bind (sdk_fill env 0xcb20) (\<lambda>u.
     act_bind (act_put (slept_ms_update (\<lambda>n. n + 200))) (\<lambda>u.
     (sdk_fill env 0xcb20 :: ('z, unit) disp_act))))"
    by (simp add: sdk_enable_def act_bind_assoc)
  then show ?thesis
    by (simp only:) (intro steady_bind slept steady_do_enable steady_keeps [OF moves_fill])
qed

text \<open>The calls of a client, and the rounds of the status thread between them.\<close>

datatype sdk_call =
    Do_fill u16
  | Do_fillrect u16 u16 u16 u16 u16 RoboPeakUsbDisplayBitOperation
  | Do_bitblt u16 u16 u16 u16 RoboPeakUsbDisplayBitOperation "u8 list"
  | Do_copy_area u16 u16 u16 u16 u16 u16
  | Do_enable | Do_set_callback | Do_is_alive
  | Thread_round TransferImpl

fun perform :: "'e disp_env_scheme \<Rightarrow> sdk_call \<Rightarrow> ('z, int) disp_act" where
  "perform env (Do_fill color) = RoboPeakUsbDisplayFill env color"
| "perform env (Do_fillrect l t r b color m) = RoboPeakUsbDisplayFillRect env l t r b color m"
| "perform env (Do_bitblt x y w h m pixels) = RoboPeakUsbDisplayBitblt env x y w h m pixels"
| "perform env (Do_copy_area sx sy dx dy w h) = RoboPeakUsbDisplayCopyArea env sx sy dx dy w h"
| "perform env Do_enable = RoboPeakUsbDisplayEnable env"
| "perform env Do_set_callback = RoboPeakUsbDisplaySetStatusUpdatedCallback"
| "perform env Do_is_alive = act_bind RoboPeakUsbDisplayIsAlive (\<lambda>(r, alive). act_return r)"
| "perform env (Thread_round t) = act_bind (status_round env t) (\<lambda>r. act_return 0)"

fun perform_all :: "'e disp_env_scheme \<Rightarrow> sdk_call list \<Rightarrow> ('z, int list) disp_act" where
  "perform_all env [] = act_return []"
| "perform_all env (c # cs) = act_bind (perform env c) (\<lambda>r. act_bind (perform_all env cs) (\<lambda>rs. act_return (r # rs)))"

lemma steady_call [steadies]: "steady m \<Longrightarrow> steady (c_call m)"
  unfolding c_call_def by (intro steady_catch steady_bind, assumption) (rule steady_keeps, rule keeps_return)+

lemmas steady_calls = steady_call [OF steady_keeps [OF moves_fill]] steady_call [OF steady_keeps [OF moves_fillrect]]
  steady_call [OF steady_keeps [OF moves_bitblt]] steady_call [OF steady_keeps [OF moves_copy]] steady_call [OF steady_enable]
  steady_bind [OF steady_keeps [OF moves_round] steady_keeps [OF keeps_return]]

lemma steady_perform [steadies]: "steady (perform env c :: ('z, int) disp_act)"
proof (cases c)
  case Do_set_callback
  have "steady (setStatusUpdatedCallback :: ('z, unit) disp_act)"
    unfolding setStatusUpdatedCallback_def by (rule steady_keeps, rule moving) simp
  then show ?thesis
    using Do_set_callback by (simp add: RoboPeakUsbDisplaySetStatusUpdatedCallback_def steady_call)
next
  case Do_is_alive
  have "steady (act_bind RoboPeakUsbDisplayIsAlive (\<lambda>(r, alive). act_return r) :: ('z, int) disp_act)"
    unfolding RoboPeakUsbDisplayIsAlive_def isAlive_def by (rule steady_keeps) (intro moving)
  then show ?thesis
    using Do_is_alive by simp
qed (simp_all add: RoboPeakUsbDisplayFill_def RoboPeakUsbDisplayFillRect_def RoboPeakUsbDisplayBitblt_def
    RoboPeakUsbDisplayCopyArea_def RoboPeakUsbDisplayEnable_def steady_calls)

lemma steady_perform_all: "steady (perform_all env cs)"
proof (induction cs)
  case (Cons c cs)
  then show ?case
    unfolding perform_all.simps by (intro steady_bind steady_perform steady_keeps [OF keeps_return])
qed (simp only: perform_all.simps steady_keeps [OF keeps_return])

subsection \<open>Disposal\<close>

lemma holds_released:
  "holds h (log_event (Released i 0) s) = holds h s - one (Claimed_interface i) h"
  by (auto simp: holds_log one_def split: holding.splits)

lemma pipeline_released:
  "Pipeline_release s = (Inr (), s') \<Longrightarrow> 0 < holds Pipeline_pointer s
    \<Longrightarrow> impl s' = impl s \<and> holds h s' = holds h s - one Pipeline_pointer h"
  by (cases "pipeline s") (auto simp: Pipeline_release_def holds_pipeline one_def)

text \<open>
  C34. A session gives everything back. A client opens a display through the C interface, makes any calls
  in any order, whatever libusb answers to them, while the status thread runs its rounds in between, and
  disposes of the display. If the status thread was started and never ends, the disposal does not
  return; if libusb refuses to release the interface, as it does once the device is unplugged, the
  exception leaves a destructor and terminates the process; in every other case the disposal reports success and
  every device reference, handle, interface, transfer, buffer and pipeline pointer taken since the opening is
  given back.
\<close>

theorem sdk_session_gives_back:
  fixes s :: "'z disp_state_scheme"
  assumes "RoboPeakUsbDisplayOpenFirstDevice env s = (Inr (rc, Some True), s1)"
    and "perform_all env calls s1 = (Inr results, s2)"
    and "\<And>l i. lib_release env l i = refused"
  shows "\<exists>r s3. RoboPeakUsbDisplayDisposeDevice env thread_ends s2 = (r, s3)
    \<and> (if status_started (impl s2) \<and> \<not> thread_ends then r = Inl Hang
       else if refused \<noteq> 0 then r = Inl Terminate
       else r = Inr 0 \<and> (\<forall>h. holds h s3 = holds h s))"
proof -
  define d where "d = device (impl s2)"
  define s3 where "s3 = impl_update (working_update (\<lambda>_. False)) s2"
  have new: "new_display s s1"
    using open_outcome [of env s] assms(1) by auto
  have "goes_on s1 s2"
    by (rule steadyD [OF steady_perform_all assms(2)]) simp
  then have s2: "own_pipeline (impl s2) = status_started (impl s2)" "device (impl s1) = d" "account h s2 = account h s1" for h
    using new by (simp_all add: goes_on_def new_display_def d_def)
  have total: "holds h s3 = holds h s + of_display d h + (if h = Pipeline_pointer \<and> status_started (impl s2) then 1 else 0)" for h
    using new s2(3) [of h] s2(1,2) by (auto simp: s3_def holds_impl new_display_def account_def split: if_splits)
  have impl3: "own_pipeline (impl s3) = status_started (impl s2)" "status_started (impl s3) = status_started (impl s2)" "device (impl s3) = d"
    using s2(1) by (simp_all add: s3_def d_def)
  have set: "set_impl (working_update (\<lambda>_. False)) s2 = (Inr (), s3)"
    by (simp add: set_impl_def s3_def)
  define leave where "leave = act_bind (InterfaceScope_destroy env 0) (\<lambda>u. DeviceHandle_destroy d :: ('z, unit) disp_act)"
  have destroy: "DeviceImpl_destroy env thread_ends s2 =
      (if status_started (impl s2) \<and> \<not> thread_ends then (Inl Hang, s3)
       else act_bind (if status_started (impl s2) then Pipeline_release else act_return ()) (\<lambda>u. leave) s3)"
    using impl3 set by (simp add: DeviceImpl_destroy_def leave_def)
  obtain s4 where s4: "(if status_started (impl s2) then Pipeline_release else act_return ()) s3 = (Inr (), s4)"
    by (cases "status_started (impl s2)") (auto simp: Pipeline_release_def)
  have released: "holds h s4 = holds h s + of_display d h" for h
  proof (cases "status_started (impl s2)")
    case True
    have "0 \<le> holds Pipeline_pointer s"
      by (simp split: option.splits)
    then have "0 < holds Pipeline_pointer s3"
      using True total [of Pipeline_pointer] by (simp add: of_display_def one_def)
    then show ?thesis
      using True s4 total [of h] pipeline_released [of s3 s4 h] by (auto simp: one_def split: if_splits)
  next
    case False
    then show ?thesis
      using s4 total [of h] by simp
  qed
  have left: "leave s4 = (if refused \<noteq> 0 then (Inl Terminate, log_event (Released 0 refused) s4)
      else DeviceHandle_destroy d (log_event (Released 0 0) s4))"
    using assms(3) by (simp add: leave_def InterfaceScope_destroy_def releaseInterface_def checked_def Let_def)
  obtain s5 where s5: "DeviceHandle_destroy d (log_event (Released 0 0) s4) = (Inr (), s5)"
    by (auto simp: DeviceHandle_destroy_def Device_destroy_def)
  have closed: "holds h s5 = holds h s" for h
    using movesD(2) [OF moves_close s5, of h] released [of h] by (simp add: holds_released of_display_def)
  show ?thesis
    using destroy s4 left s5 closed
    by (auto simp: RoboPeakUsbDisplayDisposeDevice_def c_call_def act_catch_def act_bind_def split: if_splits)
qed

text \<open>A session on a device that works: opening, enabling, asking whether the display is alive.\<close>

lemma working_answers:
  "lib_open (working_env v) l d = 0" "lib_claim (working_env v) l i = 0" "lib_release (working_env v) l i = 0"
  "lib_max_packet_size (working_env v) d e = 64" "lib_init (working_env v) = 0"
  by (simp_all add: working_env_def)

lemma working_open:
  "\<exists>s1. RoboPeakUsbDisplayOpenFirstDevice (working_env 0x0104) opened_state = (Inr (0, Some True), s1)
    \<and> maxPacketSize (impl s1) = 64 \<and> \<not> status_started (impl s1) \<and> default_context s1"
  by (simp add: RoboPeakUsbDisplayOpenFirstDevice_def openFirstDevice_def display_found on_throw_def Device_open_def Let_def
    DeviceImpl_new_def InterfaceScope_new_def claimInterface_def checked_def getMaxPacketSize_def set_impl_def working_answers)
    (simp add: add_refs_def log_event_def opened_state_def)

theorem sdk_session_gives_back_witness:
  "\<exists>s1 s2 s3. RoboPeakUsbDisplayOpenFirstDevice (working_env 0x0104) opened_state = (Inr (0, Some True), s1)
    \<and> perform_all (working_env 0x0104) [Do_enable, Do_is_alive] s1 = (Inr [0, 0], s2) \<and> status_started (impl s2)
    \<and> RoboPeakUsbDisplayDisposeDevice (working_env 0x0104) True s2 = (Inr 0, s3)
    \<and> (\<forall>h. holds h s3 = holds h opened_state)"
proof -
  obtain s1 where s1: "RoboPeakUsbDisplayOpenFirstDevice (working_env 0x0104) opened_state = (Inr (0, Some True), s1)"
    "maxPacketSize (impl s1) = 64" "\<not> status_started (impl s1)" "default_context s1"
    using working_open by blast
  have "memory_ok (working_env 0x0104)" "usb_works (working_env 0x0104)" "mps_ok (maxPacketSize (impl s1)) 64"
    "fst (lib_descriptor (working_env 0x0104) (device (impl s1))) = 0"
    using opened_ready [of "0x0104"] s1(2) by (simp_all add: sdk_ready_def opened_state_def working_env_def)
  then obtain s2 where s2: "sdk_enable (working_env 0x0104) s1 = (Inr (), s2)" "status_started (impl s2)"
    using sdk_enable_starts [of "working_env 0x0104" s1 64] s1(3,4) by blast
  have run: "perform_all (working_env 0x0104) [Do_enable, Do_is_alive] s1 = (Inr [0, 0], s2)"
    using s2(1) by (simp add: RoboPeakUsbDisplayEnable_def c_call_def RoboPeakUsbDisplayIsAlive_def isAlive_def)
  show ?thesis
    using sdk_session_gives_back [OF s1(1) run working_answers(3), of True] s1(1) run s2(2) by auto
qed

end
