(* ===== verification/Win_Base.thy ===== *)
theory Win_Base
  imports Protocol
begin

text \<open>
  What the three Windows drivers share: \<^verbatim>\<open>NTSTATUS\<close> values, the structures of
  \<^verbatim>\<open>UsbTransportUmdf/UsbIoctl.h\<close> and \<^verbatim>\<open>UsbProtocol.h\<close> with their
  images in memory, the control codes, and the chaining of calls that answer a status.
\<close>

subsection \<open>Statuses\<close>

text \<open>A status is a 32-bit signed value, a success when it is not negative.\<close>

type_synonym NTSTATUS = u32

definition NT_SUCCESS :: "NTSTATUS \<Rightarrow> bool" where
  "NT_SUCCESS status \<longleftrightarrow> 0 \<le> sint status"

definition STATUS_SUCCESS :: NTSTATUS where "STATUS_SUCCESS = 0"
definition STATUS_TIMEOUT :: NTSTATUS where "STATUS_TIMEOUT = 0x102"
definition STATUS_NO_MORE_ENTRIES :: NTSTATUS where "STATUS_NO_MORE_ENTRIES = 0x8000001A"
definition STATUS_UNSUCCESSFUL :: NTSTATUS where "STATUS_UNSUCCESSFUL = 0xC0000001"
definition STATUS_INVALID_PARAMETER :: NTSTATUS where "STATUS_INVALID_PARAMETER = 0xC000000D"
definition STATUS_INVALID_DEVICE_REQUEST :: NTSTATUS where "STATUS_INVALID_DEVICE_REQUEST = 0xC0000010"
definition STATUS_BUFFER_TOO_SMALL :: NTSTATUS where "STATUS_BUFFER_TOO_SMALL = 0xC0000023"
definition STATUS_OBJECT_NAME_NOT_FOUND :: NTSTATUS where "STATUS_OBJECT_NAME_NOT_FOUND = 0xC0000034"
definition STATUS_DEVICE_NOT_READY :: NTSTATUS where "STATUS_DEVICE_NOT_READY = 0xC00000A3"
definition STATUS_NOT_SUPPORTED :: NTSTATUS where "STATUS_NOT_SUPPORTED = 0xC00000BB"
definition STATUS_INVALID_DEVICE_STATE :: NTSTATUS where "STATUS_INVALID_DEVICE_STATE = 0xC0000184"

lemmas status_defs = STATUS_SUCCESS_def STATUS_TIMEOUT_def STATUS_NO_MORE_ENTRIES_def
  STATUS_UNSUCCESSFUL_def STATUS_INVALID_PARAMETER_def STATUS_INVALID_DEVICE_REQUEST_def
  STATUS_BUFFER_TOO_SMALL_def STATUS_OBJECT_NAME_NOT_FOUND_def STATUS_DEVICE_NOT_READY_def
  STATUS_NOT_SUPPORTED_def STATUS_INVALID_DEVICE_STATE_def

lemma NT_SUCCESS_simps [simp]:
  "NT_SUCCESS STATUS_SUCCESS" "NT_SUCCESS STATUS_TIMEOUT" "NT_SUCCESS 0"
  "\<not> NT_SUCCESS STATUS_NO_MORE_ENTRIES" "\<not> NT_SUCCESS STATUS_UNSUCCESSFUL"
  "\<not> NT_SUCCESS STATUS_INVALID_PARAMETER" "\<not> NT_SUCCESS STATUS_INVALID_DEVICE_REQUEST"
  "\<not> NT_SUCCESS STATUS_BUFFER_TOO_SMALL" "\<not> NT_SUCCESS STATUS_OBJECT_NAME_NOT_FOUND"
  "\<not> NT_SUCCESS STATUS_DEVICE_NOT_READY" "\<not> NT_SUCCESS STATUS_NOT_SUPPORTED"
  "\<not> NT_SUCCESS STATUS_INVALID_DEVICE_STATE"
  by (simp_all add: NT_SUCCESS_def status_defs)

text \<open>
  The shape of every sequence of framework calls: on a failure the status is the result, on a
  success the next statement runs.
\<close>

definition on_success :: "('s \<Rightarrow> NTSTATUS \<times> 's) \<Rightarrow> ('s \<Rightarrow> NTSTATUS \<times> 's) \<Rightarrow> 's \<Rightarrow> NTSTATUS \<times> 's" where
  "on_success call k s = (case call s of (status, s) \<Rightarrow> if NT_SUCCESS status then k s else (status, s))"

lemma on_success_simps [simp]:
  "call s = (status, s') \<Longrightarrow> NT_SUCCESS status \<Longrightarrow> on_success call k s = k s'"
  "call s = (status, s') \<Longrightarrow> \<not> NT_SUCCESS status \<Longrightarrow> on_success call k s = (status, s')"
  by (simp_all add: on_success_def)

text \<open>
  The configuration a driver registers itself with: which callbacks it gives, and whether it declares
  that it does not support plug and play.
\<close>

record driver_config =
  EvtDriverDeviceAdd :: bool
  EvtDriverUnload :: bool
  NonPnpDriver :: bool

subsection \<open>Bytes in memory\<close>

text \<open>The drivers run on little-endian hosts: a field is read where its image lies.\<close>

definition le16_at :: "nat \<Rightarrow> u8 list \<Rightarrow> u16" where
  "le16_at off bs = le16_to_cpu (bs ! off) (bs ! (off + 1))"

definition le32_at :: "nat \<Rightarrow> u8 list \<Rightarrow> u32" where
  "le32_at off bs = le32_to_cpu (bs ! off) (bs ! (off + 1)) (bs ! (off + 2)) (bs ! (off + 3))"

definition cpu_to_le64 :: "u64 \<Rightarrow> u8 list" where
  "cpu_to_le64 v = cpu_to_le32 (ucast v) @ cpu_to_le32 (ucast (drop_bit 32 v))"

lemma length_cpu_to_le64 [simp]: "length (cpu_to_le64 v) = 8"
  by (simp add: cpu_to_le64_def)

lemma le16_at_image: "length pre = off \<Longrightarrow> le16_at off (pre @ cpu_to_le16 v @ post) = v"
  by (auto simp: le16_at_def cpu_to_le16_def nth_append)

lemma le32_at_image: "length pre = off \<Longrightarrow> le32_at off (pre @ cpu_to_le32 v @ post) = v"
  by (auto simp: le32_at_def cpu_to_le32_def nth_append)

subsection \<open>Structures\<close>

record RPUSB_DRIVER_VERSION =
  Major :: u16
  Minor :: u16
  Patch :: u16

definition version_bytes :: "RPUSB_DRIVER_VERSION \<Rightarrow> u8 list" where
  "version_bytes v = cpu_to_le16 (Major v) @ cpu_to_le16 (Minor v) @ cpu_to_le16 (Patch v)"

record RPUSB_FRAME_HEADER =
  frame_Width :: u32
  frame_Height :: u32
  frame_PixelFormat :: u32
  PayloadBytes :: u32

definition frame_header_bytes :: "RPUSB_FRAME_HEADER \<Rightarrow> u8 list" where
  "frame_header_bytes h = cpu_to_le32 (frame_Width h) @ cpu_to_le32 (frame_Height h)
     @ cpu_to_le32 (frame_PixelFormat h) @ cpu_to_le32 (PayloadBytes h)"

definition frame_header_at :: "u8 list \<Rightarrow> RPUSB_FRAME_HEADER" where
  "frame_header_at bs = \<lparr>frame_Width = le32_at 0 bs, frame_Height = le32_at 4 bs,
     frame_PixelFormat = le32_at 8 bs, PayloadBytes = le32_at 12 bs\<rparr>"

record RPUSB_CHUNK_HEADER =
  FrameId :: u32
  ChunkIndex :: u32
  TotalChunks :: u32
  ChunkBytes :: u32
  chunk_Width :: u32
  chunk_Height :: u32
  chunk_PixelFormat :: u32
  TotalBytes :: u32

definition chunk_header_bytes :: "RPUSB_CHUNK_HEADER \<Rightarrow> u8 list" where
  "chunk_header_bytes h = cpu_to_le32 (FrameId h) @ cpu_to_le32 (ChunkIndex h)
     @ cpu_to_le32 (TotalChunks h) @ cpu_to_le32 (ChunkBytes h) @ cpu_to_le32 (chunk_Width h)
     @ cpu_to_le32 (chunk_Height h) @ cpu_to_le32 (chunk_PixelFormat h) @ cpu_to_le32 (TotalBytes h)"

definition chunk_header_at :: "u8 list \<Rightarrow> RPUSB_CHUNK_HEADER" where
  "chunk_header_at bs = \<lparr>FrameId = le32_at 0 bs, ChunkIndex = le32_at 4 bs, TotalChunks = le32_at 8 bs,
     ChunkBytes = le32_at 12 bs, chunk_Width = le32_at 16 bs, chunk_Height = le32_at 20 bs,
     chunk_PixelFormat = le32_at 24 bs, TotalBytes = le32_at 28 bs\<rparr>"

record RPUSB_STATISTICS =
  FramesSubmitted :: u64
  FramesAcked :: u64
  BytesTransferred :: u64
  LastError :: u64

definition statistics_bytes :: "RPUSB_STATISTICS \<Rightarrow> u8 list" where
  "statistics_bytes t = cpu_to_le64 (FramesSubmitted t) @ cpu_to_le64 (FramesAcked t)
     @ cpu_to_le64 (BytesTransferred t) @ cpu_to_le64 (LastError t)"

text \<open>
  The device's \<^verbatim>\<open>TouchContact\<close> and the \<^verbatim>\<open>RPUSB_TOUCH_CONTACT\<close> of the
  interface have one layout: the three bit fields share the second byte, the first one lowest.
\<close>

record touch_contact =
  ContactId :: u8
  TipSwitch :: bool
  InRange :: bool
  Reserved :: "6 word"
  contact_X :: u16
  contact_Y :: u16

definition zero_contact :: touch_contact where
  "zero_contact = \<lparr>ContactId = 0, TipSwitch = False, InRange = False, Reserved = 0,
     contact_X = 0, contact_Y = 0\<rparr>"

definition flag_byte :: "bool \<Rightarrow> bool \<Rightarrow> 6 word \<Rightarrow> u8" where
  "flag_byte tip inrange reserved = of_bool tip OR push_bit 1 (of_bool inrange) OR push_bit 2 (ucast reserved)"

definition contact_bytes :: "touch_contact \<Rightarrow> u8 list" where
  "contact_bytes c = [ContactId c, flag_byte (TipSwitch c) (InRange c) (Reserved c)]
     @ cpu_to_le16 (contact_X c) @ cpu_to_le16 (contact_Y c)"

definition contact_at :: "nat \<Rightarrow> u8 list \<Rightarrow> touch_contact" where
  "contact_at off bs = \<lparr>ContactId = bs ! off, TipSwitch = bit (bs ! (off + 1)) 0,
     InRange = bit (bs ! (off + 1)) 1, Reserved = ucast (drop_bit 2 (bs ! (off + 1))),
     contact_X = le16_at (off + 2) bs, contact_Y = le16_at (off + 4) bs\<rparr>"

record RPUSB_TOUCH_DATA =
  touch_ContactCount :: u8
  touch_Contacts :: "touch_contact list"

definition touch_data_bytes :: "RPUSB_TOUCH_DATA \<Rightarrow> u8 list" where
  "touch_data_bytes d = touch_ContactCount d # concat (map contact_bytes (touch_Contacts d))"

definition touch_data_at :: "u8 list \<Rightarrow> RPUSB_TOUCH_DATA" where
  "touch_data_at bs = \<lparr>touch_ContactCount = bs ! 0, touch_Contacts = [contact_at 1 bs, contact_at 7 bs]\<rparr>"

lemma image_lengths [simp]:
  "length (version_bytes v) = 6" "length (frame_header_bytes h) = 16"
  "length (chunk_header_bytes c) = 32" "length (statistics_bytes t) = 32"
  "length (contact_bytes k) = 6" "length (touch_data_bytes d) = 1 + 6 * length (touch_Contacts d)"
  by (simp_all add: version_bytes_def frame_header_bytes_def chunk_header_bytes_def statistics_bytes_def
      contact_bytes_def touch_data_bytes_def length_concat sum_list_triv comp_def)

lemma frame_header_round_trip [simp]: "frame_header_at (frame_header_bytes h @ rest) = h"
  unfolding frame_header_at_def frame_header_bytes_def
  by (simp add: le32_at_def cpu_to_le32_def)

lemma chunk_header_round_trip [simp]: "chunk_header_at (chunk_header_bytes h @ rest) = h"
  unfolding chunk_header_at_def chunk_header_bytes_def
  by (simp add: le32_at_def cpu_to_le32_def)

lemma flag_bits [simp]:
  "bit (flag_byte tip inrange reserved) 0 = tip" "bit (flag_byte tip inrange reserved) (Suc 0) = inrange"
  by (simp_all add: flag_byte_def bit_simps)

lemma flag_reserved [simp]: "ucast (drop_bit 2 (flag_byte tip inrange reserved)) = reserved"
  by (rule bit_word_eqI) (simp add: flag_byte_def bit_simps)

lemma contact_round_trip: "length pre = off \<Longrightarrow> contact_at off (pre @ contact_bytes c @ post) = c"
  by (auto simp: contact_at_def contact_bytes_def nth_append le16_at_def cpu_to_le16_def)

lemma touch_data_round_trip:
  assumes "length (touch_Contacts d) = 2"
  shows "touch_data_at (touch_data_bytes d) = d"
proof -
  from assms obtain c c' where "touch_Contacts d = [c, c']"
    by (auto simp: length_Suc_conv numeral_2_eq_2)
  then show ?thesis
    by (cases d) (simp add: touch_data_at_def touch_data_bytes_def contact_at_def contact_bytes_def
        le16_at_def cpu_to_le16_def)
qed

subsection \<open>Control codes\<close>

definition CTL_CODE :: "u32 \<Rightarrow> u32 \<Rightarrow> u32 \<Rightarrow> u32 \<Rightarrow> u32" where
  "CTL_CODE device_type function_code buffering access =
     push_bit 16 device_type OR push_bit 14 access OR push_bit 2 function_code OR buffering"

definition METHOD_BUFFERED :: u32 where "METHOD_BUFFERED = 0"
definition METHOD_OUT_DIRECT :: u32 where "METHOD_OUT_DIRECT = 2"
definition FILE_ANY_ACCESS :: u32 where "FILE_ANY_ACCESS = 0"
definition FILE_READ_ACCESS :: u32 where "FILE_READ_ACCESS = 1"
definition FILE_WRITE_ACCESS :: u32 where "FILE_WRITE_ACCESS = 2"
definition FILE_DEVICE_RPUSB_TRANSPORT :: u32 where "FILE_DEVICE_RPUSB_TRANSPORT = 0x8331"

definition IOCTL_RPUSB_PING :: u32 where
  "IOCTL_RPUSB_PING = CTL_CODE FILE_DEVICE_RPUSB_TRANSPORT 0x800 METHOD_BUFFERED FILE_ANY_ACCESS"
definition IOCTL_RPUSB_GET_VERSION :: u32 where
  "IOCTL_RPUSB_GET_VERSION = CTL_CODE FILE_DEVICE_RPUSB_TRANSPORT 0x801 METHOD_BUFFERED FILE_READ_ACCESS"
definition IOCTL_RPUSB_PUSH_FRAME :: u32 where
  "IOCTL_RPUSB_PUSH_FRAME = CTL_CODE FILE_DEVICE_RPUSB_TRANSPORT 0x802 METHOD_OUT_DIRECT FILE_WRITE_ACCESS"
definition IOCTL_RPUSB_SET_MODE :: u32 where
  "IOCTL_RPUSB_SET_MODE = CTL_CODE FILE_DEVICE_RPUSB_TRANSPORT 0x803 METHOD_BUFFERED FILE_WRITE_ACCESS"
definition IOCTL_RPUSB_GET_STATISTICS :: u32 where
  "IOCTL_RPUSB_GET_STATISTICS = CTL_CODE FILE_DEVICE_RPUSB_TRANSPORT 0x804 METHOD_BUFFERED FILE_READ_ACCESS"
definition IOCTL_RPUSB_GET_TOUCH_DATA :: u32 where
  "IOCTL_RPUSB_GET_TOUCH_DATA = CTL_CODE FILE_DEVICE_RPUSB_TRANSPORT 0x806 METHOD_BUFFERED FILE_READ_ACCESS"
definition IOCTL_RPUSB_PUSH_FRAME_CHUNK :: u32 where
  "IOCTL_RPUSB_PUSH_FRAME_CHUNK = CTL_CODE FILE_DEVICE_RPUSB_TRANSPORT 0x807 METHOD_OUT_DIRECT FILE_WRITE_ACCESS"

lemmas ioctl_defs = IOCTL_RPUSB_PING_def IOCTL_RPUSB_GET_VERSION_def IOCTL_RPUSB_PUSH_FRAME_def
  IOCTL_RPUSB_SET_MODE_def IOCTL_RPUSB_GET_STATISTICS_def IOCTL_RPUSB_GET_TOUCH_DATA_def
  IOCTL_RPUSB_PUSH_FRAME_CHUNK_def CTL_CODE_def METHOD_BUFFERED_def METHOD_OUT_DIRECT_def
  FILE_ANY_ACCESS_def FILE_READ_ACCESS_def FILE_WRITE_ACCESS_def FILE_DEVICE_RPUSB_TRANSPORT_def

lemma ioctls_distinct:
  "distinct [IOCTL_RPUSB_PING, IOCTL_RPUSB_GET_VERSION, IOCTL_RPUSB_PUSH_FRAME, IOCTL_RPUSB_SET_MODE,
     IOCTL_RPUSB_GET_STATISTICS, IOCTL_RPUSB_GET_TOUCH_DATA, IOCTL_RPUSB_PUSH_FRAME_CHUNK]"
  by (simp add: ioctl_defs)

end
