(* ===== verification/Win_Touch.thy ===== *)
theory Win_Touch
  imports Win_Base
begin

text \<open>
  The touch driver, \<^verbatim>\<open>UsbTouchHidUmdf/Device.cpp\<close> and
  \<^verbatim>\<open>HidReport.h\<close>: a HID device whose input report carries a contact that the
  transport driver holds. The framework, the registered interfaces and the transport driver behind
  the target are a parameter.
\<close>

subsection \<open>The input report and its descriptor\<close>

record HID_TOUCH_INPUT_REPORT =
  ReportId :: u8
  report_TipSwitch :: bool
  report_InRange :: bool
  Padding :: "6 word"
  report_ContactId :: u8
  report_X :: u16
  report_Y :: u16
  report_ContactCount :: u8

definition zero_report :: HID_TOUCH_INPUT_REPORT where
  "zero_report = \<lparr>ReportId = 0, report_TipSwitch = False, report_InRange = False, Padding = 0,
     report_ContactId = 0, report_X = 0, report_Y = 0, report_ContactCount = 0\<rparr>"

definition report_bytes :: "HID_TOUCH_INPUT_REPORT \<Rightarrow> u8 list" where
  "report_bytes r = [ReportId r, flag_byte (report_TipSwitch r) (report_InRange r) (Padding r),
     report_ContactId r] @ cpu_to_le16 (report_X r) @ cpu_to_le16 (report_Y r) @ [report_ContactCount r]"

lemma length_report_bytes [simp]: "length (report_bytes r) = 8"
  by (simp add: report_bytes_def)

definition g_RpTouchReportDescriptor :: "u8 list" where
  "g_RpTouchReportDescriptor = [
     0x05, 0x0D,
     0x09, 0x04,
     0xA1, 0x01,
     0x85, 0x01,
     0x09, 0x22,
     0xA1, 0x02,
     0x09, 0x42,
     0x09, 0x32,
     0x15, 0x00,
     0x25, 0x01,
     0x75, 0x01,
     0x95, 0x02,
     0x81, 0x02,
     0x95, 0x06,
     0x81, 0x03,
     0x09, 0x51,
     0x75, 0x08,
     0x95, 0x01,
     0x81, 0x02,
     0x05, 0x01,
     0x09, 0x30,
     0x09, 0x31,
     0x16, 0x00, 0x00,
     0x26, 0x1F, 0x03,
     0x36, 0x00, 0x00,
     0x46, 0x1F, 0x03,
     0x75, 0x10,
     0x95, 0x02,
     0x81, 0x02,
     0xC0,
     0x55, 0x0C,
     0x09, 0x54,
     0x25, 0x02,
     0x75, 0x08,
     0x95, 0x01,
     0x81, 0x02,
     0x09, 0x55,
     0xB1, 0x02,
     0xC0]"

subsection \<open>The framework\<close>

datatype touch_call =
    TouchDriverCreate | TouchTracingCleanup
  | TouchDeviceCreated | TouchQueueCreated | IoGetDeviceInterfaces | ExFreePool | WdfIoTargetCreate
  | WdfIoTargetOpen | WdfObjectDelete | WdfIoTargetSendIoctl u32 | WdfRequestRetrieveOutputBuffer nat

text \<open>
  \<open>touch_ioctl\<close> is what the transport driver makes of a request: its status, and the
  caller's output buffer after the completion, given the buffer before it.
\<close>

record touch_env =
  touch_status :: "touch_call list \<Rightarrow> touch_call \<Rightarrow> NTSTATUS"
  interface_listed :: "touch_call list \<Rightarrow> bool"
  touch_ioctl :: "touch_call list \<Rightarrow> u32 \<Rightarrow> u8 list \<Rightarrow> NTSTATUS \<times> u8 list"

record TouchDeviceContext =
  UsbTransportTarget :: bool
  touch_log :: "touch_call list"

definition touch_do :: "touch_env \<Rightarrow> touch_call \<Rightarrow> TouchDeviceContext \<Rightarrow> NTSTATUS \<times> TouchDeviceContext" where
  "touch_do env call s = (touch_status env (touch_log s) call, s\<lparr>touch_log := touch_log s @ [call]\<rparr>)"

definition touch_event :: "touch_call \<Rightarrow> TouchDeviceContext \<Rightarrow> TouchDeviceContext" where
  "touch_event call s = s\<lparr>touch_log := touch_log s @ [call]\<rparr>"

subsection \<open>Creation and the transport target\<close>

definition TouchDeviceCreate :: "touch_env \<Rightarrow> TouchDeviceContext \<Rightarrow> NTSTATUS \<times> TouchDeviceContext" where
  "TouchDeviceCreate env =
     on_success (touch_do env TouchDeviceCreated) (\<lambda>s.
       touch_do env TouchQueueCreated (s\<lparr>UsbTransportTarget := False\<rparr>))"

definition open_transport_target :: "touch_env \<Rightarrow> TouchDeviceContext \<Rightarrow> NTSTATUS \<times> TouchDeviceContext" where
  "open_transport_target env =
     on_success (touch_do env WdfIoTargetCreate) (\<lambda>s.
       case touch_do env WdfIoTargetOpen (s\<lparr>UsbTransportTarget := True\<rparr>) of (status, s) \<Rightarrow>
         if NT_SUCCESS status then (status, s)
         else (status, (touch_event WdfObjectDelete s)\<lparr>UsbTransportTarget := False\<rparr>))"

definition EnsureUsbTransportTarget :: "touch_env \<Rightarrow> TouchDeviceContext \<Rightarrow> NTSTATUS \<times> TouchDeviceContext" where
  "EnsureUsbTransportTarget env s =
     (if UsbTransportTarget s then (STATUS_SUCCESS, s)
      else let listed = interface_listed env (touch_log s)
        in on_success (touch_do env IoGetDeviceInterfaces) (\<lambda>s.
             if \<not> listed then (STATUS_OBJECT_NAME_NOT_FOUND, touch_event ExFreePool s)
             else case open_transport_target env s of (status, s) \<Rightarrow> (status, touch_event ExFreePool s)) s)"

subsection \<open>HID requests\<close>

datatype hid_ioctl =
    IOCTL_HID_GET_DEVICE_DESCRIPTOR | IOCTL_HID_GET_REPORT_DESCRIPTOR
  | IOCTL_HID_GET_DEVICE_ATTRIBUTES | IOCTL_HID_READ_REPORT | IOCTL_HID_OTHER u32

text \<open>
  A handled request: its status, and the bytes that it reports with
  \<^verbatim>\<open>WdfRequestSetInformation\<close>.
\<close>

type_synonym hid_answer = "NTSTATUS \<times> u8 list option"

definition answer_with :: "touch_env \<Rightarrow> u8 list \<Rightarrow> TouchDeviceContext \<Rightarrow> hid_answer \<times> TouchDeviceContext" where
  "answer_with env bs s =
     (case touch_do env (WdfRequestRetrieveOutputBuffer (length bs)) s of (status, s) \<Rightarrow>
        ((status, if NT_SUCCESS status then Some bs else None), s))"

definition HID_DESCRIPTOR_TYPE_HID :: u8 where "HID_DESCRIPTOR_TYPE_HID = 0x21"
definition HID_REPORT_DESCRIPTOR_TYPE :: u8 where "HID_REPORT_DESCRIPTOR_TYPE = 0x22"
definition HID_REVISION :: u16 where "HID_REVISION = 0x0111"

text \<open>The packed \<^verbatim>\<open>HID_DESCRIPTOR\<close>: the country code stays zero.\<close>

definition hid_descriptor :: "u8 list" where
  "hid_descriptor = [9, HID_DESCRIPTOR_TYPE_HID] @ cpu_to_le16 HID_REVISION @ [0, 1, HID_REPORT_DESCRIPTOR_TYPE]
     @ cpu_to_le16 (of_nat (length g_RpTouchReportDescriptor))"

text \<open>
  \<^verbatim>\<open>HID_DEVICE_ATTRIBUTES\<close>: the size of the structure, the identifiers, the version and
  eleven reserved words, which the handler does not touch.
\<close>

definition device_attributes :: "u16 list \<Rightarrow> u8 list" where
  "device_attributes reserved = cpu_to_le32 32 @ cpu_to_le16 0x1FC9 @ cpu_to_le16 0x0094
     @ cpu_to_le16 0x0001 @ concat (map cpu_to_le16 reserved)"

definition empty_report :: HID_TOUCH_INPUT_REPORT where
  "empty_report = zero_report\<lparr>ReportId := 1, report_ContactCount := 0\<rparr>"

definition first_active :: "touch_contact list \<Rightarrow> touch_contact option" where
  "first_active cs = find (\<lambda>c. TipSwitch c \<or> InRange c) (take 2 cs)"

definition touch_report :: "RPUSB_TOUCH_DATA \<Rightarrow> HID_TOUCH_INPUT_REPORT" where
  "touch_report touchData =
     (let report = zero_report\<lparr>ReportId := 1\<rparr>;
          report = (case first_active (touch_Contacts touchData) of
            None \<Rightarrow> report
          | Some c \<Rightarrow> report\<lparr>report_TipSwitch := TipSwitch c, report_InRange := InRange c,
              report_ContactId := ContactId c, report_X := contact_X c, report_Y := contact_Y c\<rparr>)
      in report\<lparr>report_ContactCount := touch_ContactCount touchData\<rparr>)"

definition read_report :: "touch_env \<Rightarrow> TouchDeviceContext \<Rightarrow> hid_answer \<times> TouchDeviceContext" where
  "read_report env s =
     (case EnsureUsbTransportTarget env s of (status, s) \<Rightarrow>
        if \<not> NT_SUCCESS status then ((status, None), s)
        else case touch_ioctl env (touch_log s) IOCTL_RPUSB_GET_TOUCH_DATA (replicate 13 0) of (status, bs) \<Rightarrow>
          let s = touch_event (WdfIoTargetSendIoctl IOCTL_RPUSB_GET_TOUCH_DATA) s;
              touchData = touch_data_at bs
          in if \<not> NT_SUCCESS status \<or> touch_ContactCount touchData = 0
             then answer_with env (report_bytes empty_report) s
             else answer_with env (report_bytes (touch_report touchData)) s)"

definition TouchEvtInternalIoctl :: "touch_env \<Rightarrow> hid_ioctl \<Rightarrow> u16 list \<Rightarrow> TouchDeviceContext \<Rightarrow> hid_answer \<times> TouchDeviceContext" where
  "TouchEvtInternalIoctl env ioControlCode reserved s =
     (case ioControlCode of
        IOCTL_HID_GET_DEVICE_DESCRIPTOR \<Rightarrow> answer_with env hid_descriptor s
      | IOCTL_HID_GET_REPORT_DESCRIPTOR \<Rightarrow> answer_with env g_RpTouchReportDescriptor s
      | IOCTL_HID_GET_DEVICE_ATTRIBUTES \<Rightarrow> answer_with env (device_attributes reserved) s
      | IOCTL_HID_READ_REPORT \<Rightarrow> read_report env s
      | IOCTL_HID_OTHER code \<Rightarrow> ((STATUS_NOT_SUPPORTED, None), s))"

subsection \<open>Loading\<close>

definition touch_config :: driver_config where
  "touch_config = \<lparr>EvtDriverDeviceAdd = True, EvtDriverUnload = True, NonPnpDriver = False\<rparr>"

definition touch_DriverEntry :: "touch_env \<Rightarrow> TouchDeviceContext \<Rightarrow> NTSTATUS \<times> TouchDeviceContext" where
  "touch_DriverEntry env s =
     (case touch_do env TouchDriverCreate s of (status, s) \<Rightarrow>
        (status, if NT_SUCCESS status then s else touch_event TouchTracingCleanup s))"

definition TouchEvtDeviceAdd :: "touch_env \<Rightarrow> TouchDeviceContext \<Rightarrow> NTSTATUS \<times> TouchDeviceContext" where
  "TouchEvtDeviceAdd env = TouchDeviceCreate env"

definition TouchEvtDriverUnload :: "TouchDeviceContext \<Rightarrow> TouchDeviceContext" where
  "TouchEvtDriverUnload s = touch_event TouchTracingCleanup s"

end
