(* ===== verification/Win_Transport.thy ===== *)
theory Win_Transport
  imports Win_Base
begin

text \<open>
  The USB transport driver, \<^verbatim>\<open>UsbTransportUmdf/Device.cpp\<close> and
  \<^verbatim>\<open>Queue.cpp\<close>: the plug-and-play and power callbacks, the continuous reader of the
  interrupt pipe and the control requests of the other two drivers. The framework and the device
  are a parameter: the status of a call is a function of all the calls before it.
\<close>

subsection \<open>The framework\<close>

datatype wdf_call =
    UsbDriverCreate | UsbTracingCleanup
  | WdfDeviceCreate | WdfDeviceCreateDeviceInterface | WdfSpinLockCreate | WdfIoQueueCreate
  | WdfUsbTargetDeviceCreateWithParameters | WdfUsbTargetDeviceRetrieveDeviceDescriptor
  | WdfUsbTargetDeviceSelectConfig | WdfUsbTargetPipeConfigContinuousReader nat
  | WdfIoTargetStart nat | WdfIoTargetStop nat
  | WdfRequestRetrieveInputMemory | WdfRequestRetrieveOutputMemory
  | WdfMemoryCopyFromBuffer "u8 list"
  | WdfUsbTargetDeviceSendControlTransfer u8 u16 "u8 list"
  | WdfUsbTargetPipeWrite "nat option" "u8 list"

datatype pipe_type = WdfUsbPipeTypeBulk | WdfUsbPipeTypeInterrupt | WdfUsbPipeTypeOther

record pipe_information =
  PipeType :: pipe_type
  IsInEndpoint :: bool

record transport_env =
  wdf_status :: "wdf_call list \<Rightarrow> wdf_call \<Rightarrow> NTSTATUS"
  descriptor_ids :: "u16 \<times> u16"
  has_interface :: bool
  configured_pipes :: "pipe_information list"

subsection \<open>The device context\<close>

record TouchDataBuffer =
  Contacts :: "touch_contact list"
  ContactCount :: u8
  DataAvailable :: bool

text \<open>A pipe is the index the interface lists it under, \<open>None\<close> the null handle.\<close>

record DeviceContext =
  BulkIn :: "nat option"
  BulkOut :: "nat option"
  InterruptIn :: "nat option"
  Statistics :: RPUSB_STATISTICS
  DeviceReady :: bool
  TouchData :: TouchDataBuffer
  wdf_log :: "wdf_call list"

definition zero_statistics :: RPUSB_STATISTICS where
  "zero_statistics = \<lparr>FramesSubmitted = 0, FramesAcked = 0, BytesTransferred = 0, LastError = 0\<rparr>"

definition MaxTouchContacts :: nat where "MaxTouchContacts = 2"

definition zero_contacts :: "touch_contact list" where
  "zero_contacts = replicate MaxTouchContacts zero_contact"

definition new_context :: "wdf_call list \<Rightarrow> DeviceContext" where
  "new_context calls = \<lparr>BulkIn = None, BulkOut = None, InterruptIn = None, Statistics = zero_statistics,
     DeviceReady = False,
     TouchData = \<lparr>Contacts = zero_contacts, ContactCount = 0, DataAvailable = False\<rparr>, wdf_log = calls\<rparr>"

definition wdf_do :: "transport_env \<Rightarrow> wdf_call \<Rightarrow> DeviceContext \<Rightarrow> NTSTATUS \<times> DeviceContext" where
  "wdf_do env call s = (wdf_status env (wdf_log s) call, s\<lparr>wdf_log := wdf_log s @ [call]\<rparr>)"

subsection \<open>Creation\<close>

definition QueueCreate :: "transport_env \<Rightarrow> DeviceContext \<Rightarrow> NTSTATUS \<times> DeviceContext" where
  "QueueCreate env = wdf_do env WdfIoQueueCreate"

definition init_touch_data :: "DeviceContext \<Rightarrow> DeviceContext" where
  "init_touch_data s = s\<lparr>TouchData := \<lparr>Contacts = zero_contacts, ContactCount = 0, DataAvailable = False\<rparr>\<rparr>"

definition UsbDeviceCreate :: "transport_env \<Rightarrow> DeviceContext \<Rightarrow> NTSTATUS \<times> DeviceContext" where
  "UsbDeviceCreate env =
     on_success (wdf_do env WdfDeviceCreate) (\<lambda>s.
     on_success (wdf_do env WdfDeviceCreateDeviceInterface) (\<lambda>s.
     on_success (wdf_do env WdfSpinLockCreate) (\<lambda>s.
       QueueCreate env (init_touch_data s))
       (s\<lparr>Statistics := zero_statistics\<rparr>))
       (new_context (wdf_log s)))"

subsection \<open>Plug and play\<close>

definition kVendorId :: u16 where "kVendorId = 0x1FC9"
definition kProductId :: u16 where "kProductId = 0x0094"

definition configure_pipe :: "nat \<times> pipe_information \<Rightarrow> DeviceContext \<Rightarrow> DeviceContext" where
  "configure_pipe = (\<lambda>(pipe, info) s.
     if PipeType info = WdfUsbPipeTypeBulk \<and> IsInEndpoint info then s\<lparr>BulkIn := Some pipe\<rparr>
     else if PipeType info = WdfUsbPipeTypeBulk \<and> \<not> IsInEndpoint info then s\<lparr>BulkOut := Some pipe\<rparr>
     else if PipeType info = WdfUsbPipeTypeInterrupt \<and> IsInEndpoint info then s\<lparr>InterruptIn := Some pipe\<rparr>
     else s)"

definition configure_pipes :: "transport_env \<Rightarrow> DeviceContext \<Rightarrow> DeviceContext" where
  "configure_pipes env = fold configure_pipe (enumerate 0 (configured_pipes env))"

definition start_reader :: "transport_env \<Rightarrow> DeviceContext \<Rightarrow> NTSTATUS \<times> DeviceContext" where
  "start_reader env s =
     (case InterruptIn s of
        Some pipe \<Rightarrow> wdf_do env (WdfUsbTargetPipeConfigContinuousReader pipe) s
      | None \<Rightarrow> (STATUS_SUCCESS, s))"

definition UsbDevicePrepareHardware :: "transport_env \<Rightarrow> DeviceContext \<Rightarrow> NTSTATUS \<times> DeviceContext" where
  "UsbDevicePrepareHardware env =
     on_success (wdf_do env WdfUsbTargetDeviceCreateWithParameters) (
     on_success (wdf_do env WdfUsbTargetDeviceRetrieveDeviceDescriptor) (\<lambda>s.
       if fst (descriptor_ids env) \<noteq> kVendorId \<or> snd (descriptor_ids env) \<noteq> kProductId
       then (STATUS_INVALID_DEVICE_REQUEST, s)
       else on_success (wdf_do env WdfUsbTargetDeviceSelectConfig) (\<lambda>s.
         if \<not> has_interface env then (STATUS_INVALID_DEVICE_STATE, s)
         else let s = configure_pipes env s
           in if BulkIn s = None \<or> BulkOut s = None then (STATUS_INVALID_DEVICE_STATE, s)
              else on_success (start_reader env) (\<lambda>s. (STATUS_SUCCESS, s\<lparr>DeviceReady := True\<rparr>)) s) s))"

definition UsbDeviceReleaseHardware :: "DeviceContext \<Rightarrow> NTSTATUS \<times> DeviceContext" where
  "UsbDeviceReleaseHardware s = (STATUS_SUCCESS, s\<lparr>DeviceReady := False\<rparr>)"

subsection \<open>Power\<close>

datatype power_state =
    WdfPowerDeviceD0 | WdfPowerDeviceD1 | WdfPowerDeviceD2 | WdfPowerDeviceD3
  | WdfPowerDeviceD3Final | WdfPowerDevicePrepareForHibernation

definition powered_off :: "power_state \<Rightarrow> bool" where
  "powered_off p \<longleftrightarrow> p = WdfPowerDeviceD3 \<or> p = WdfPowerDeviceD3Final"

definition UsbDeviceD0Entry :: "transport_env \<Rightarrow> power_state \<Rightarrow> DeviceContext \<Rightarrow> NTSTATUS \<times> DeviceContext" where
  "UsbDeviceD0Entry env previousState s =
     (STATUS_SUCCESS,
      if powered_off previousState
      then (case InterruptIn s of Some pipe \<Rightarrow> snd (wdf_do env (WdfIoTargetStart pipe) s) | None \<Rightarrow> s)
             \<lparr>DeviceReady := True\<rparr>
      else s)"

definition clear_touch_data :: "DeviceContext \<Rightarrow> DeviceContext" where
  "clear_touch_data s = s\<lparr>TouchData := (TouchData s)\<lparr>ContactCount := 0, Contacts := zero_contacts\<rparr>\<rparr>"

definition UsbDeviceD0Exit :: "transport_env \<Rightarrow> power_state \<Rightarrow> DeviceContext \<Rightarrow> NTSTATUS \<times> DeviceContext" where
  "UsbDeviceD0Exit env targetState s =
     (STATUS_SUCCESS,
      if powered_off targetState
      then let s = s\<lparr>DeviceReady := False\<rparr>;
               s = (case InterruptIn s of Some pipe \<Rightarrow> snd (wdf_do env (WdfIoTargetStop pipe) s) | None \<Rightarrow> s)
           in clear_touch_data s
      else s)"

subsection \<open>The interrupt pipe\<close>

text \<open>
  The packet is a type byte and a union of which the status packet is the longer member:
  a touch packet of 7 bytes does not fill it.
\<close>

definition sizeof_InterruptPacket :: nat where "sizeof_InterruptPacket = 1 + max 6 8"

definition InterruptPacketType_Touch :: u8 where "InterruptPacketType_Touch = 1"

definition active_contacts :: "touch_contact list \<Rightarrow> u8" where
  "active_contacts cs = foldl (\<lambda>n c. if TipSwitch c then n + 1 else n) 0 (take MaxTouchContacts cs)"

definition store_touch :: "touch_contact \<Rightarrow> TouchDataBuffer \<Rightarrow> TouchDataBuffer" where
  "store_touch c t =
     (if unat (ContactId c) < MaxTouchContacts
      then let t = t\<lparr>Contacts := (Contacts t)[unat (ContactId c) := c]\<rparr>
           in t\<lparr>ContactCount := active_contacts (Contacts t)\<rparr>
      else t)\<lparr>DataAvailable := True\<rparr>"

text \<open>Status packets are only traced.\<close>

definition UsbInterruptCompletion :: "u8 list option \<Rightarrow> nat \<Rightarrow> DeviceContext \<Rightarrow> DeviceContext" where
  "UsbInterruptCompletion buffer numBytesTransferred s =
     (if numBytesTransferred < sizeof_InterruptPacket then s
      else case buffer of None \<Rightarrow> s
        | Some packet \<Rightarrow>
            if packet ! 0 = InterruptPacketType_Touch
            then s\<lparr>TouchData := store_touch (contact_at 1 packet) (TouchData s)\<rparr>
            else s)"

subsection \<open>Control requests\<close>

definition kVendorRequestInit :: u8 where "kVendorRequestInit = 0xA0"
definition kVendorRequestModeSet :: u8 where "kVendorRequestModeSet = 0xA1"
definition kVendorRequestPing :: u8 where "kVendorRequestPing = 0xA2"

text \<open>The control transfer goes from the host to the device: the buffer is only read.\<close>

definition SendVendorControl :: "transport_env \<Rightarrow> u8 \<Rightarrow> u16 \<Rightarrow> u8 list \<Rightarrow> DeviceContext \<Rightarrow> NTSTATUS \<times> DeviceContext" where
  "SendVendorControl env request value buffer s =
     (if \<not> DeviceReady s then (STATUS_DEVICE_NOT_READY, s)
      else wdf_do env (WdfUsbTargetDeviceSendControlTransfer request value buffer) s)"

text \<open>While a request is handled the state is the context and the output buffer of the request.\<close>

type_synonym request_state = "DeviceContext \<times> u8 list"

definition on_device :: "(DeviceContext \<Rightarrow> NTSTATUS \<times> DeviceContext) \<Rightarrow> request_state \<Rightarrow> NTSTATUS \<times> request_state" where
  "on_device f = (\<lambda>(s, out). case f s of (status, s) \<Rightarrow> (status, (s, out)))"

definition copy_to_output :: "transport_env \<Rightarrow> u8 list \<Rightarrow> request_state \<Rightarrow> NTSTATUS \<times> request_state" where
  "copy_to_output env bs = (\<lambda>(s, out). case wdf_do env (WdfMemoryCopyFromBuffer bs) s of (status, s) \<Rightarrow>
     (status, (s, if NT_SUCCESS status then buf_put 0 bs out else out)))"

definition ioctl_ping :: "transport_env \<Rightarrow> request_state \<Rightarrow> NTSTATUS \<times> request_state" where
  "ioctl_ping env = on_device (SendVendorControl env kVendorRequestPing 0 [])"

definition ioctl_get_version :: "transport_env \<Rightarrow> request_state \<Rightarrow> NTSTATUS \<times> request_state" where
  "ioctl_get_version env = (\<lambda>(s, out).
     if length out < 6 then (STATUS_BUFFER_TOO_SMALL, (s, out))
     else let version = version_bytes \<lparr>Major = 1, Minor = 0, Patch = 0\<rparr>
       in on_success (on_device (wdf_do env WdfRequestRetrieveOutputMemory)) (
          on_success (on_device (SendVendorControl env kVendorRequestInit 0 version)) (
            copy_to_output env version)) (s, out))"

text \<open>
  The frame and the chunk handler hand the input buffer to the bulk pipe as a memory handle where the
  framework takes a memory descriptor; the model writes the whole buffer, which is what they mean.
\<close>

definition ioctl_push_frame :: "transport_env \<Rightarrow> u8 list \<Rightarrow> request_state \<Rightarrow> NTSTATUS \<times> request_state" where
  "ioctl_push_frame env input = (\<lambda>(s, out).
     if length input < 16 then (STATUS_BUFFER_TOO_SMALL, (s, out))
     else on_success (on_device (wdf_do env WdfRequestRetrieveInputMemory)) (\<lambda>(s, out).
       let frameHeader = frame_header_at input
       in if PayloadBytes frameHeader = 0 then (STATUS_INVALID_PARAMETER, (s, out))
          else case wdf_do env (WdfUsbTargetPipeWrite (BulkOut s) input) s of (status, s) \<Rightarrow>
            (status, (if NT_SUCCESS status
               then s\<lparr>Statistics := (Statistics s)
                  \<lparr>FramesSubmitted := FramesSubmitted (Statistics s) + 1,
                   BytesTransferred := BytesTransferred (Statistics s) + ucast (PayloadBytes frameHeader)\<rparr>\<rparr>
               else s, out))) (s, out))"

definition ioctl_set_mode :: "transport_env \<Rightarrow> u8 list \<Rightarrow> request_state \<Rightarrow> NTSTATUS \<times> request_state" where
  "ioctl_set_mode env input = (\<lambda>(s, out).
     if length input < 4 then (STATUS_BUFFER_TOO_SMALL, (s, out))
     else on_success (on_device (wdf_do env WdfRequestRetrieveInputMemory)) (
       on_device (SendVendorControl env kVendorRequestModeSet (ucast (le32_at 0 input)) [])) (s, out))"

definition ioctl_get_statistics :: "transport_env \<Rightarrow> request_state \<Rightarrow> NTSTATUS \<times> request_state" where
  "ioctl_get_statistics env = (\<lambda>(s, out).
     if length out < 32 then (STATUS_BUFFER_TOO_SMALL, (s, out))
     else on_success (on_device (wdf_do env WdfRequestRetrieveOutputMemory)) (\<lambda>(s, out).
       copy_to_output env (statistics_bytes (Statistics s)) (s, out)) (s, out))"

definition reported_touch :: "TouchDataBuffer \<Rightarrow> RPUSB_TOUCH_DATA" where
  "reported_touch t = \<lparr>touch_ContactCount = ContactCount t,
     touch_Contacts = map (\<lambda>i. (Contacts t ! i)\<lparr>Reserved := 0\<rparr>) [0..<MaxTouchContacts]\<rparr>"

definition ioctl_get_touch_data :: "transport_env \<Rightarrow> request_state \<Rightarrow> NTSTATUS \<times> request_state" where
  "ioctl_get_touch_data env = (\<lambda>(s, out).
     if length out < 13 then (STATUS_BUFFER_TOO_SMALL, (s, out))
     else on_success (on_device (wdf_do env WdfRequestRetrieveOutputMemory)) (\<lambda>(s, out).
       copy_to_output env (touch_data_bytes (reported_touch (TouchData s))) (s, out)) (s, out))"

definition ioctl_push_frame_chunk :: "transport_env \<Rightarrow> u8 list \<Rightarrow> request_state \<Rightarrow> NTSTATUS \<times> request_state" where
  "ioctl_push_frame_chunk env input = (\<lambda>(s, out).
     if length input < 32 then (STATUS_BUFFER_TOO_SMALL, (s, out))
     else on_success (on_device (wdf_do env WdfRequestRetrieveInputMemory)) (\<lambda>(s, out).
       let chunkHeader = chunk_header_at input
       in if ChunkBytes chunkHeader = 0 \<or> TotalChunks chunkHeader = 0
            \<or> ChunkIndex chunkHeader \<ge> TotalChunks chunkHeader
          then (STATUS_INVALID_PARAMETER, (s, out))
          else case wdf_do env (WdfUsbTargetPipeWrite (BulkOut s) input) s of (status, s) \<Rightarrow>
            (status, (if NT_SUCCESS status \<and> ChunkIndex chunkHeader = TotalChunks chunkHeader - 1
               then s\<lparr>Statistics := (Statistics s)
                  \<lparr>FramesSubmitted := FramesSubmitted (Statistics s) + 1,
                   BytesTransferred := BytesTransferred (Statistics s) + ucast (TotalBytes chunkHeader)\<rparr>\<rparr>
               else s, out))) (s, out))"

definition transport_dispatch :: "transport_env \<Rightarrow> u32 \<Rightarrow> u8 list \<Rightarrow> request_state \<Rightarrow> NTSTATUS \<times> request_state" where
  "transport_dispatch env ioControlCode input =
     (if ioControlCode = IOCTL_RPUSB_PING then ioctl_ping env
      else if ioControlCode = IOCTL_RPUSB_GET_VERSION then ioctl_get_version env
      else if ioControlCode = IOCTL_RPUSB_PUSH_FRAME then ioctl_push_frame env input
      else if ioControlCode = IOCTL_RPUSB_SET_MODE then ioctl_set_mode env input
      else if ioControlCode = IOCTL_RPUSB_GET_STATISTICS then ioctl_get_statistics env
      else if ioControlCode = IOCTL_RPUSB_GET_TOUCH_DATA then ioctl_get_touch_data env
      else if ioControlCode = IOCTL_RPUSB_PUSH_FRAME_CHUNK then ioctl_push_frame_chunk env input
      else Pair STATUS_INVALID_DEVICE_REQUEST)"

text \<open>
  \<^verbatim>\<open>WdfRequestComplete\<close> completes the request with the information that
  \<^verbatim>\<open>WdfRequestSetInformation\<close> left in it. The transport driver never sets it, so it is 0.
\<close>

record completion =
  IoStatus :: NTSTATUS
  Information :: nat
  OutputBuffer :: "u8 list"

definition UsbDeviceIoDeviceControl :: "transport_env \<Rightarrow> u32 \<Rightarrow> u8 list \<Rightarrow> u8 list \<Rightarrow> DeviceContext \<Rightarrow> completion \<times> DeviceContext" where
  "UsbDeviceIoDeviceControl env ioControlCode input out s =
     (case transport_dispatch env ioControlCode input (s, out) of (status, (s, out)) \<Rightarrow>
        (\<lparr>IoStatus = status, Information = 0, OutputBuffer = out\<rparr>, s))"

subsection \<open>Loading\<close>

definition transport_config :: driver_config where
  "transport_config = \<lparr>EvtDriverDeviceAdd = True, EvtDriverUnload = True, NonPnpDriver = False\<rparr>"

definition transport_DriverEntry :: "transport_env \<Rightarrow> DeviceContext \<Rightarrow> NTSTATUS \<times> DeviceContext" where
  "transport_DriverEntry env s =
     (case wdf_do env UsbDriverCreate s of (status, s) \<Rightarrow>
        (status, if NT_SUCCESS status then s else s\<lparr>wdf_log := wdf_log s @ [UsbTracingCleanup]\<rparr>))"

definition UsbEvtDeviceAdd :: "transport_env \<Rightarrow> DeviceContext \<Rightarrow> NTSTATUS \<times> DeviceContext" where
  "UsbEvtDeviceAdd env = UsbDeviceCreate env"

definition UsbEvtDriverUnload :: "DeviceContext \<Rightarrow> DeviceContext" where
  "UsbEvtDriverUnload s = s\<lparr>wdf_log := wdf_log s @ [UsbTracingCleanup]\<rparr>"

text \<open>A framework and a device that accept every call, and a concrete one.\<close>

definition usb_accepting :: "transport_env \<Rightarrow> bool" where
  "usb_accepting env \<longleftrightarrow> (\<forall>calls call. NT_SUCCESS (wdf_status env calls call))"

definition sample_transport :: transport_env where
  "sample_transport = \<lparr>wdf_status = \<lambda>calls call. STATUS_SUCCESS, descriptor_ids = (kVendorId, kProductId),
     has_interface = True, configured_pipes = [\<lparr>PipeType = WdfUsbPipeTypeBulk, IsInEndpoint = True\<rparr>,
       \<lparr>PipeType = WdfUsbPipeTypeBulk, IsInEndpoint = False\<rparr>, \<lparr>PipeType = WdfUsbPipeTypeInterrupt, IsInEndpoint = True\<rparr>]\<rparr>"

end
