(* ===== verification/Win_Touch_Properties.thy ===== *)
theory Win_Touch_Properties
  imports Win_Touch Win_Transport
begin

text \<open>
  The transport driver under the plug-and-play manager, and the touch driver on top of it: the
  contacts that the transport driver holds, and what of them a HID report shows.
\<close>

subsection \<open>The transport driver's life\<close>

datatype pnp_phase = Removed | Prepared | Working | Sleeping power_state

text \<open>
  The framework's order of the callbacks: the hardware is prepared before the first power-up, which
  comes from the final off state, and released after the last power-down. Interrupt packets and
  control requests may come at any time.
\<close>

inductive transport_step :: "transport_env \<Rightarrow> pnp_phase \<times> DeviceContext \<Rightarrow> pnp_phase \<times> DeviceContext \<Rightarrow> bool"
  for env :: transport_env where
  prepare: "UsbDevicePrepareHardware env s = (status, s') \<Longrightarrow>
    transport_step env (Removed, s) (if NT_SUCCESS status then Prepared else Removed, s')"
| power_up: "transport_step env (Prepared, s) (Working, snd (UsbDeviceD0Entry env WdfPowerDeviceD3Final s))"
| wake: "transport_step env (Sleeping p, s) (Working, snd (UsbDeviceD0Entry env p s))"
| power_down: "p \<noteq> WdfPowerDeviceD0 \<Longrightarrow> transport_step env (Working, s) (Sleeping p, snd (UsbDeviceD0Exit env p s))"
| release: "phase \<in> {Prepared, Sleeping WdfPowerDeviceD3Final} \<Longrightarrow>
    transport_step env (phase, s) (Removed, snd (UsbDeviceReleaseHardware s))"
| interrupt: "transport_step env (phase, s) (phase, UsbInterruptCompletion buffer n s)"
| request: "transport_step env (phase, s) (phase, snd (UsbDeviceIoDeviceControl env code input out s))"

inductive transport_reachable :: "transport_env \<Rightarrow> pnp_phase \<times> DeviceContext \<Rightarrow> bool" for env :: transport_env where
  created: "UsbDeviceCreate env s0 = (status, s) \<Longrightarrow> NT_SUCCESS status \<Longrightarrow> transport_reachable env (Removed, s)"
| stepped: "transport_reachable env m \<Longrightarrow> transport_step env m m' \<Longrightarrow> transport_reachable env m'"

definition ready_phase :: "pnp_phase \<Rightarrow> bool" where
  "ready_phase phase = (case phase of Removed \<Rightarrow> False | Sleeping p \<Rightarrow> \<not> powered_off p | _ \<Rightarrow> True)"

definition touch_inv :: "TouchDataBuffer \<Rightarrow> bool" where
  "touch_inv t \<longleftrightarrow> length (Contacts t) = 2 \<and> ContactCount t = of_nat (length (filter TipSwitch (Contacts t)))
     \<and> (\<forall>i<2. Contacts t ! i = zero_contact \<or> unat (ContactId (Contacts t ! i)) = i)"

definition pipes_inv :: "DeviceContext \<Rightarrow> bool" where
  "pipes_inv s \<longleftrightarrow> BulkIn s \<noteq> None \<and> BulkOut s \<noteq> None"

definition transport_inv :: "pnp_phase \<times> DeviceContext \<Rightarrow> bool" where
  "transport_inv = (\<lambda>(phase, s). touch_inv (TouchData s) \<and> (DeviceReady s \<longleftrightarrow> ready_phase phase)
     \<and> (phase = Removed \<or> pipes_inv s))"

subsection \<open>What the operations keep\<close>

text \<open>Most calls of the framework leave everything but the log, and a request the statistics too.\<close>

definition same_device :: "DeviceContext \<Rightarrow> DeviceContext \<Rightarrow> bool" where
  "same_device s s' \<longleftrightarrow> TouchData s' = TouchData s \<and> DeviceReady s' = DeviceReady s
     \<and> BulkIn s' = BulkIn s \<and> BulkOut s' = BulkOut s \<and> InterruptIn s' = InterruptIn s"

named_theorems device_simps \<open>operations that only log\<close>

lemma same_device_refl [simp]: "same_device s s"
  by (simp add: same_device_def)

lemma same_device_trans: "same_device s s' \<Longrightarrow> same_device s' s'' \<Longrightarrow> same_device s s''"
  by (simp add: same_device_def)

lemma wdf_do_same [simp]: "same_device s (snd (wdf_do env c s))"
  by (simp add: wdf_do_def same_device_def)

text \<open>A locale for what the request handlers share: every one keeps a relation of the device state.\<close>

locale keeps =
  fixes R :: "'s \<Rightarrow> 's \<Rightarrow> bool"
  assumes refl: "R s s"
    and trans: "R s s' \<Longrightarrow> R s' s'' \<Longrightarrow> R s s''"
begin

lemma on_success_keeps:
  assumes "\<And>s. R s (snd (call s))" "\<And>s. R s (snd (k s))"
  shows "R s (snd (on_success call k s))"
proof -
  obtain status s' where c: "call s = (status, s')"
    by fastforce
  then have "R s s'"
    using assms(1) [of s] by simp
  then show ?thesis
    using c trans [OF _ assms(2)] by (cases "NT_SUCCESS status") simp_all
qed

end

definition same_request :: "request_state \<Rightarrow> request_state \<Rightarrow> bool" where
  "same_request r r' \<longleftrightarrow> same_device (fst r) (fst r')"

interpretation device: keeps same_device
  by unfold_locales (auto intro: same_device_trans)

interpretation request: keeps same_request
  by unfold_locales (auto simp: same_request_def intro: same_device_trans)

lemma on_device_keeps: "(\<And>s. same_device s (snd (f s))) \<Longrightarrow> same_request r (snd (on_device f r))"
  by (cases r) (simp add: on_device_def same_request_def case_prod_beta)

lemma vendor_keeps: "same_device s (snd (SendVendorControl env request value buffer s))"
  by (simp add: SendVendorControl_def)

lemma copy_keeps: "same_request r (snd (copy_to_output env bs r))"
  by (cases r) (simp add: copy_to_output_def same_request_def wdf_do_def same_device_def)

lemmas request_keeps = on_device_keeps vendor_keeps copy_keeps wdf_do_same request.on_success_keeps request.refl

lemma push_keeps:
  "same_request r (snd (ioctl_push_frame env input r))" "same_request r (snd (ioctl_push_frame_chunk env input r))"
  by (cases r, auto simp: ioctl_push_frame_def ioctl_push_frame_chunk_def Let_def request.refl
      intro!: request.on_success_keeps on_device_keeps wdf_do_same)
    (auto simp: same_request_def same_device_def wdf_do_def)

lemma query_keeps:
  "same_request r (snd (ioctl_ping env r))" "same_request r (snd (ioctl_get_version env r))"
  "same_request r (snd (ioctl_set_mode env input r))" "same_request r (snd (ioctl_get_statistics env r))"
  "same_request r (snd (ioctl_get_touch_data env r))"
  by (cases r, auto simp: ioctl_ping_def ioctl_get_version_def ioctl_set_mode_def ioctl_get_statistics_def
      ioctl_get_touch_data_def Let_def split_def intro!: request_keeps)+

lemma request_keeps_device: "same_device s (snd (UsbDeviceIoDeviceControl env code input out s))"
proof -
  have "same_request (s, out) (snd (transport_dispatch env code input (s, out)))"
    by (simp add: transport_dispatch_def push_keeps query_keeps request.refl)
  then show ?thesis
    by (auto simp: UsbDeviceIoDeviceControl_def same_request_def split: prod.splits)
qed

subsection \<open>The invariant\<close>

lemma zero_touch: "touch_inv \<lparr>Contacts = zero_contacts, ContactCount = 0, DataAvailable = b\<rparr>"
  by (simp add: touch_inv_def zero_contacts_def MaxTouchContacts_def zero_contact_def numeral_2_eq_2 less_Suc_eq)

lemma active_contacts_count:
  assumes "length cs = 2"
  shows "active_contacts cs = of_nat (length (filter TipSwitch cs))"
proof -
  from assms obtain c c' where "cs = [c, c']"
    by (auto simp: length_Suc_conv numeral_2_eq_2)
  then show ?thesis
    by (simp add: active_contacts_def MaxTouchContacts_def)
qed

lemma store_touch_inv:
  assumes "touch_inv t"
  shows "touch_inv (store_touch c t)"
proof (cases "unat (ContactId c) < 2")
  case True
  let ?cs = "(Contacts t)[unat (ContactId c) := c]"
  have "length ?cs = 2"
    using assms by (simp add: touch_inv_def)
  moreover from this have "active_contacts ?cs = of_nat (length (filter TipSwitch ?cs))"
    by (rule active_contacts_count)
  ultimately show ?thesis
    using assms True by (simp add: touch_inv_def store_touch_def MaxTouchContacts_def Let_def nth_list_update)
next
  case False
  then show ?thesis
    using assms by (simp add: touch_inv_def store_touch_def MaxTouchContacts_def)
qed

lemma created_inv:
  assumes "UsbDeviceCreate env s0 = (status, s)" "NT_SUCCESS status"
  shows "transport_inv (Removed, s)"
  using assms zero_touch [of False]
  by (auto simp: UsbDeviceCreate_def on_success_def wdf_do_def QueueCreate_def init_touch_data_def new_context_def
      transport_inv_def ready_phase_def split: if_splits)

lemma configure_pipe_frame:
  "TouchData (configure_pipe p s) = TouchData s" "DeviceReady (configure_pipe p s) = DeviceReady s"
  by (cases p, simp add: configure_pipe_def)+

lemma configure_pipes_frame:
  "TouchData (configure_pipes env s) = TouchData s" "DeviceReady (configure_pipes env s) = DeviceReady s"
proof -
  have "TouchData (fold configure_pipe ps s) = TouchData s \<and> DeviceReady (fold configure_pipe ps s) = DeviceReady s" for ps
    by (induction ps arbitrary: s) (simp_all add: configure_pipe_frame)
  then show "TouchData (configure_pipes env s) = TouchData s" "DeviceReady (configure_pipes env s) = DeviceReady s"
    by (simp_all add: configure_pipes_def)
qed

lemma prepare_outcome:
  assumes "UsbDevicePrepareHardware env s = (status, s')"
  shows "TouchData s' = TouchData s" "NT_SUCCESS status \<Longrightarrow> DeviceReady s' \<and> pipes_inv s'"
    and "\<not> NT_SUCCESS status \<Longrightarrow> DeviceReady s' = DeviceReady s"
  using assms
  by (auto simp: UsbDevicePrepareHardware_def on_success_def wdf_do_def start_reader_def Let_def pipes_inv_def
      configure_pipes_frame split: if_splits option.splits)

lemma power_frame:
  "TouchData (snd (UsbDeviceD0Entry env p s)) = TouchData s"
  "BulkIn (snd (UsbDeviceD0Entry env p s)) = BulkIn s" "BulkOut (snd (UsbDeviceD0Entry env p s)) = BulkOut s"
  "DeviceReady (snd (UsbDeviceD0Entry env p s)) = (powered_off p \<or> DeviceReady s)"
  "BulkIn (snd (UsbDeviceD0Exit env p s)) = BulkIn s" "BulkOut (snd (UsbDeviceD0Exit env p s)) = BulkOut s"
  "DeviceReady (snd (UsbDeviceD0Exit env p s)) = (\<not> powered_off p \<and> DeviceReady s)"
  by (simp_all add: UsbDeviceD0Entry_def UsbDeviceD0Exit_def clear_touch_data_def wdf_do_def Let_def split: option.split)

lemma exit_touch: "touch_inv (TouchData s) \<Longrightarrow> touch_inv (TouchData (snd (UsbDeviceD0Exit env p s)))"
  using zero_touch [of "DataAvailable (TouchData s)"]
  by (simp add: UsbDeviceD0Exit_def clear_touch_data_def wdf_do_def Let_def touch_inv_def split: option.split)

lemma interrupt_frame:
  "DeviceReady (UsbInterruptCompletion buffer n s) = DeviceReady s"
  "BulkIn (UsbInterruptCompletion buffer n s) = BulkIn s" "BulkOut (UsbInterruptCompletion buffer n s) = BulkOut s"
  "touch_inv (TouchData s) \<Longrightarrow> touch_inv (TouchData (UsbInterruptCompletion buffer n s))"
  by (auto simp: UsbInterruptCompletion_def store_touch_inv split: option.split)

lemma transport_step_inv:
  assumes "transport_step env m m'" "transport_inv m"
  shows "transport_inv m'"
  using assms
proof (cases rule: transport_step.cases)
  case (prepare s status s')
  then show ?thesis
    using assms(2) prepare_outcome [OF prepare(3)] by (auto simp: transport_inv_def ready_phase_def)
next
  case (request phase s code input out)
  then show ?thesis
    using assms(2) request_keeps_device [of s env code input out]
    by (simp add: transport_inv_def same_device_def pipes_inv_def)
qed (auto simp: transport_inv_def ready_phase_def power_frame pipes_inv_def exit_touch interrupt_frame
    UsbDeviceReleaseHardware_def powered_off_def split: power_state.splits)

lemma transport_reachable_inv: "transport_reachable env m \<Longrightarrow> transport_inv m"
  by (induction rule: transport_reachable.induct) (auto intro: created_inv transport_step_inv)

text \<open>
  C39. In every state that the transport driver reaches it holds two contacts, each in the slot of
  its identifier, and counts those that touch; and it is ready for vendor requests exactly from the
  preparation of the hardware on, except while the device is off, always with both bulk pipes.
\<close>

theorem transport_invariant:
  assumes "transport_reachable env (phase, s)"
  shows "length (Contacts (TouchData s)) = 2
    \<and> unat (ContactCount (TouchData s)) = length (filter TipSwitch (Contacts (TouchData s)))
    \<and> (\<forall>i<2. Contacts (TouchData s) ! i = zero_contact \<or> unat (ContactId (Contacts (TouchData s) ! i)) = i)
    \<and> (DeviceReady s \<longleftrightarrow> ready_phase phase)
    \<and> (DeviceReady s \<longrightarrow> BulkIn s \<noteq> None \<and> BulkOut s \<noteq> None)"
proof -
  have inv: "transport_inv (phase, s)"
    using assms by (rule transport_reachable_inv)
  moreover have "length (filter TipSwitch (Contacts (TouchData s))) \<le> 2"
    using inv length_filter_le [of TipSwitch "Contacts (TouchData s)"] by (simp add: transport_inv_def touch_inv_def)
  then have "unat (of_nat (length (filter TipSwitch (Contacts (TouchData s)))) :: u8) = length (filter TipSwitch (Contacts (TouchData s)))"
    by (simp add: unat_of_nat take_bit_nat_eq_self)
  ultimately show ?thesis
    by (auto simp: transport_inv_def touch_inv_def pipes_inv_def ready_phase_def split: pnp_phase.splits)
qed

definition touch_packet :: "touch_contact \<Rightarrow> u8 list" where
  "touch_packet c = InterruptPacketType_Touch # contact_bytes c @ replicate 57 0"

definition sample_contact :: touch_contact where
  "sample_contact = \<lparr>ContactId = 1, TipSwitch = True, InRange = True, Reserved = 0, contact_X = 100, contact_Y = 50\<rparr>"

text \<open>The hardware is prepared and a contact with identifier 1 touches.\<close>

definition sample_touched :: DeviceContext where
  "sample_touched = UsbInterruptCompletion (Some (touch_packet sample_contact)) 9
     (snd (UsbDevicePrepareHardware sample_transport (snd (UsbDeviceCreate sample_transport (new_context [])))))"

lemma sample_create: "fst (UsbDeviceCreate sample_transport (new_context [])) = STATUS_SUCCESS"
  "fst (UsbDevicePrepareHardware sample_transport s) = STATUS_SUCCESS"
  by (simp_all add: sample_transport_def UsbDeviceCreate_def UsbDevicePrepareHardware_def on_success_def wdf_do_def
      QueueCreate_def start_reader_def configure_pipes_def configure_pipe_def Let_def upt_rec enumerate_eq_zip)

lemma sample_reachable: "transport_reachable sample_transport (Prepared, sample_touched)"
proof -
  let ?created = "snd (UsbDeviceCreate sample_transport (new_context []))"
  let ?prepared = "snd (UsbDevicePrepareHardware sample_transport ?created)"
  have "UsbDeviceCreate sample_transport (new_context []) = (STATUS_SUCCESS, ?created)"
    by (simp add: prod_eq_iff sample_create(1))
  from created [OF this] have "transport_reachable sample_transport (Removed, ?created)"
    by simp
  moreover have "UsbDevicePrepareHardware sample_transport ?created = (STATUS_SUCCESS, ?prepared)"
    by (simp add: prod_eq_iff sample_create(2))
  from prepare [OF this] have "transport_step sample_transport (Removed, ?created) (Prepared, ?prepared)"
    by simp
  ultimately have "transport_reachable sample_transport (Prepared, ?prepared)"
    by (rule stepped)
  then show ?thesis
    unfolding sample_touched_def by (rule stepped) (rule interrupt)
qed

lemma sample_touch: "TouchData sample_touched = \<lparr>Contacts = [zero_contact, sample_contact], ContactCount = 1, DataAvailable = True\<rparr>"
proof -
  have "contact_at 1 (touch_packet sample_contact) = sample_contact"
    using contact_round_trip [of "[InterruptPacketType_Touch]" 1 sample_contact] by (simp add: touch_packet_def)
  moreover have "TouchData (snd (UsbDevicePrepareHardware sample_transport (snd (UsbDeviceCreate sample_transport (new_context [])))))
      = \<lparr>Contacts = zero_contacts, ContactCount = 0, DataAvailable = False\<rparr>"
    by (simp add: sample_transport_def UsbDeviceCreate_def UsbDevicePrepareHardware_def on_success_def wdf_do_def
        QueueCreate_def start_reader_def configure_pipes_def configure_pipe_def Let_def upt_rec enumerate_eq_zip
        init_touch_data_def)
  moreover have "touch_packet sample_contact ! 0 = InterruptPacketType_Touch"
    by (simp add: touch_packet_def)
  ultimately show ?thesis
    by (simp add: sample_touched_def UsbInterruptCompletion_def sizeof_InterruptPacket_def store_touch_def Let_def
        sample_contact_def zero_contacts_def MaxTouchContacts_def active_contacts_def zero_contact_def numeral_2_eq_2)
qed

theorem transport_invariant_witness:
  "unat (ContactCount (TouchData sample_touched)) = 1 \<and> DeviceReady sample_touched \<and> BulkOut sample_touched \<noteq> None
    \<and> unat (ContactId (Contacts (TouchData sample_touched) ! 1)) = 1"
  using transport_invariant [OF sample_reachable]
  by (simp add: sample_touch sample_contact_def zero_contact_def ready_phase_def)

subsection \<open>What a HID report shows\<close>

text \<open>
  The transport driver behind the touch driver's target. A buffered request gives its caller the
  first \<open>n\<close> bytes of the output buffer, \<open>n\<close> being the information it was completed
  with; the parameter allows other rules too.
\<close>

definition answers_with :: "(completion \<Rightarrow> nat) \<Rightarrow> transport_env \<Rightarrow> DeviceContext \<Rightarrow> touch_env \<Rightarrow> bool" where
  "answers_with delivered tenv d env \<longleftrightarrow> (\<forall>calls code buffer. touch_ioctl env calls code buffer =
     (case UsbDeviceIoDeviceControl tenv code [] buffer d of (c, d) \<Rightarrow>
        (IoStatus c, take (delivered c) (OutputBuffer c) @ drop (delivered c) buffer)))"

definition touch_framework_ok :: "touch_env \<Rightarrow> bool" where
  "touch_framework_ok env \<longleftrightarrow> (\<forall>calls call. NT_SUCCESS (touch_status env calls call)) \<and> (\<forall>calls. interface_listed env calls)"

lemma ensure_touch_target:
  assumes "touch_framework_ok env"
  shows "NT_SUCCESS (fst (EnsureUsbTransportTarget env s))"
  using assms
  by (simp add: touch_framework_ok_def EnsureUsbTransportTarget_def open_transport_target_def on_success_def touch_do_def Let_def)

lemma touch_data_request:
  assumes "usb_accepting tenv" "length buffer = 13" "touch_inv (TouchData d)"
  shows "NT_SUCCESS (IoStatus (fst (UsbDeviceIoDeviceControl tenv IOCTL_RPUSB_GET_TOUCH_DATA input buffer d)))"
    and "Information (fst (UsbDeviceIoDeviceControl tenv IOCTL_RPUSB_GET_TOUCH_DATA input buffer d)) = 0"
    and "OutputBuffer (fst (UsbDeviceIoDeviceControl tenv IOCTL_RPUSB_GET_TOUCH_DATA input buffer d))
      = touch_data_bytes (reported_touch (TouchData d))"
proof -
  have codes: "IOCTL_RPUSB_GET_TOUCH_DATA \<notin> {IOCTL_RPUSB_PING, IOCTL_RPUSB_GET_VERSION,
      IOCTL_RPUSB_PUSH_FRAME, IOCTL_RPUSB_SET_MODE, IOCTL_RPUSB_GET_STATISTICS}"
    by (simp add: ioctl_defs)
  have "length (touch_data_bytes (reported_touch (TouchData d))) = 13"
    by (simp add: reported_touch_def MaxTouchContacts_def)
  then show "NT_SUCCESS (IoStatus (fst (UsbDeviceIoDeviceControl tenv IOCTL_RPUSB_GET_TOUCH_DATA input buffer d)))"
    "Information (fst (UsbDeviceIoDeviceControl tenv IOCTL_RPUSB_GET_TOUCH_DATA input buffer d)) = 0"
    "OutputBuffer (fst (UsbDeviceIoDeviceControl tenv IOCTL_RPUSB_GET_TOUCH_DATA input buffer d))
      = touch_data_bytes (reported_touch (TouchData d))"
    using assms codes
    by (simp_all add: UsbDeviceIoDeviceControl_def transport_dispatch_def ioctl_get_touch_data_def on_device_def
        copy_to_output_def wdf_do_def usb_accepting_def buf_put_def case_prod_beta)
qed

text \<open>The report that the contacts of a touch buffer call for.\<close>

definition expected_report :: "touch_contact list \<Rightarrow> HID_TOUCH_INPUT_REPORT" where
  "expected_report cs =
     (let touching = filter TipSwitch cs; active = filter (\<lambda>c. TipSwitch c \<or> InRange c) cs
      in if touching = [] then zero_report\<lparr>ReportId := 1\<rparr>
         else \<lparr>ReportId = 1, report_TipSwitch = TipSwitch (hd active), report_InRange = InRange (hd active), Padding = 0,
           report_ContactId = ContactId (hd active), report_X = contact_X (hd active), report_Y = contact_Y (hd active),
           report_ContactCount = of_nat (length touching)\<rparr>)"

lemma read_report_eq:
  assumes "touch_framework_ok env" "NT_SUCCESS st" "\<And>calls. touch_ioctl env calls IOCTL_RPUSB_GET_TOUCH_DATA (replicate 13 0) = (st, bs)"
  shows "snd (fst (read_report env s)) = Some (report_bytes
    (if touch_ContactCount (touch_data_at bs) = 0 then empty_report else touch_report (touch_data_at bs)))"
proof -
  obtain st1 s1 where e: "EnsureUsbTransportTarget env s = (st1, s1)"
    by fastforce
  then have "NT_SUCCESS st1"
    using ensure_touch_target [OF assms(1), of s] by simp
  then show ?thesis
    using e assms by (simp add: read_report_def answer_with_def touch_do_def touch_framework_ok_def Let_def)
qed

lemma touch_data_reported: "touch_data_at (touch_data_bytes (reported_touch t)) = reported_touch t"
  by (rule touch_data_round_trip) (simp add: reported_touch_def MaxTouchContacts_def)

lemma reported_report:
  assumes "touch_inv t"
  shows "(if touch_ContactCount (reported_touch t) = 0 then empty_report else touch_report (reported_touch t))
    = expected_report (Contacts t)"
proof -
  obtain c c' where cs: "Contacts t = [c, c']"
    using assms by (auto simp: touch_inv_def length_Suc_conv numeral_2_eq_2)
  have "touch_Contacts (reported_touch t) = [c\<lparr>Reserved := 0\<rparr>, c'\<lparr>Reserved := 0\<rparr>]"
    by (simp add: reported_touch_def MaxTouchContacts_def cs upt_rec)
  moreover have "touch_ContactCount (reported_touch t) = of_nat (length (filter TipSwitch [c, c']))"
    using assms cs by (simp add: reported_touch_def touch_inv_def)
  ultimately show ?thesis
    by (simp add: cs expected_report_def touch_report_def first_active_def empty_report_def zero_report_def Let_def numeral_2_eq_2)
qed

text \<open>
  C40. In every state the transport driver reaches, a HID read of the touch driver would report the
  first contact that touches or is in range and the number of touching contacts, if the data of the
  control request were delivered whole. A buffered request delivers only as much as the driver that
  completes it declares; the transport driver declares nothing, so every read reports no contact.
\<close>

theorem touch_data_never_delivered:
  assumes "transport_reachable tenv (phase, d)" "usb_accepting tenv"
    and "touch_framework_ok env" "answers_with (\<lambda>c. 13) tenv d env"
    and "touch_framework_ok env'" "answers_with Information tenv d env'"
  shows "snd (fst (TouchEvtInternalIoctl env IOCTL_HID_READ_REPORT reserved s))
      = Some (report_bytes (expected_report (Contacts (TouchData d))))
    \<and> snd (fst (TouchEvtInternalIoctl env' IOCTL_HID_READ_REPORT reserved s)) = Some [1, 0, 0, 0, 0, 0, 0, 0]"
proof -
  have inv: "touch_inv (TouchData d)"
    using transport_reachable_inv [OF assms(1)] by (simp add: transport_inv_def)
  let ?c = "fst (UsbDeviceIoDeviceControl tenv IOCTL_RPUSB_GET_TOUCH_DATA [] (replicate 13 0) d)"
  have r: "NT_SUCCESS (IoStatus ?c)" "Information ?c = 0" "OutputBuffer ?c = touch_data_bytes (reported_touch (TouchData d))"
    using touch_data_request [OF assms(2) _ inv, of "replicate 13 0"] by simp_all
  have whole: "touch_ioctl env calls IOCTL_RPUSB_GET_TOUCH_DATA (replicate 13 0) = (IoStatus ?c, OutputBuffer ?c)" for calls
    using assms(4) r(3) by (simp add: answers_with_def case_prod_beta reported_touch_def MaxTouchContacts_def)
  have "snd (fst (read_report env s)) = Some (report_bytes (expected_report (Contacts (TouchData d))))"
    using read_report_eq [OF assms(3) r(1) whole] unfolding r(3) touch_data_reported reported_report [OF inv] .
  moreover have "touch_ioctl env' calls IOCTL_RPUSB_GET_TOUCH_DATA (replicate 13 0) = (IoStatus ?c, replicate 13 0)" for calls
    using assms(6) r(2) by (simp add: answers_with_def case_prod_beta)
  then have "snd (fst (read_report env' s)) = Some (report_bytes empty_report)"
    using read_report_eq [OF assms(5) r(1), of "replicate 13 0"] by (simp add: touch_data_at_def)
  moreover have "report_bytes empty_report = [1, 0, 0, 0, 0, 0, 0, 0]"
    by (simp add: report_bytes_def empty_report_def zero_report_def flag_byte_def cpu_to_le16_def)
  ultimately show ?thesis
    by (simp add: TouchEvtInternalIoctl_def)
qed

definition sample_touch_env :: "(completion \<Rightarrow> nat) \<Rightarrow> touch_env" where
  "sample_touch_env delivered = \<lparr>touch_status = \<lambda>calls call. STATUS_SUCCESS, interface_listed = \<lambda>calls. True,
     touch_ioctl = \<lambda>calls code buffer. case UsbDeviceIoDeviceControl sample_transport code [] buffer sample_touched of (c, d) \<Rightarrow>
       (IoStatus c, take (delivered c) (OutputBuffer c) @ drop (delivered c) buffer)\<rparr>"

theorem touch_data_never_delivered_witness:
  "snd (fst (TouchEvtInternalIoctl (sample_touch_env (\<lambda>c. 13)) IOCTL_HID_READ_REPORT []
      \<lparr>UsbTransportTarget = False, touch_log = []\<rparr>)) = Some [1, 3, 1, 100, 0, 50, 0, 1]
    \<and> snd (fst (TouchEvtInternalIoctl (sample_touch_env Information) IOCTL_HID_READ_REPORT []
      \<lparr>UsbTransportTarget = False, touch_log = []\<rparr>)) = Some [1, 0, 0, 0, 0, 0, 0, 0]"
proof -
  have env: "touch_framework_ok (sample_touch_env delivered)" "answers_with delivered sample_transport sample_touched (sample_touch_env delivered)" for delivered
    by (simp_all add: touch_framework_ok_def answers_with_def sample_touch_env_def)
  have "usb_accepting sample_transport"
    by (simp add: usb_accepting_def sample_transport_def)
  moreover have "report_bytes (expected_report (Contacts (TouchData sample_touched))) = [1, 3, 1, 100, 0, 50, 0, 1]"
    by (simp add: sample_touch expected_report_def zero_contact_def sample_contact_def report_bytes_def flag_byte_def cpu_to_le16_def)
  ultimately show ?thesis
    using touch_data_never_delivered [OF sample_reachable _ env env] by simp
qed

subsection \<open>The report descriptor\<close>

text \<open>
  Reading a HID report descriptor: an item is a prefix byte with the number of its data bytes, and
  the items of the fields are collected with the usage page, size and count that are in force.
\<close>

definition item_size :: "u8 \<Rightarrow> nat" where
  "item_size prefix = (case unat (prefix AND 3) of 0 \<Rightarrow> 0 | Suc 0 \<Rightarrow> 1 | Suc (Suc 0) \<Rightarrow> 2 | _ \<Rightarrow> 4)"

record hid_state =
  usage_page :: u8
  report_size :: u8
  report_count :: u8
  usages :: "u8 list"

text \<open>A field: page, usages, size in bits, count.\<close>

type_synonym hid_field = "u8 \<times> u8 list \<times> u8 \<times> u8"

function input_fields :: "hid_state \<Rightarrow> u8 list \<Rightarrow> hid_field list" where
  "input_fields h [] = []"
| "input_fields h (prefix # rest) =
     (let n = item_size prefix; v = hd (take n rest @ [0]); tag = prefix AND 0xFC; rest = drop n rest
      in if tag = 0x04 then input_fields (h\<lparr>usage_page := v\<rparr>) rest
         else if tag = 0x74 then input_fields (h\<lparr>report_size := v\<rparr>) rest
         else if tag = 0x94 then input_fields (h\<lparr>report_count := v\<rparr>) rest
         else if tag = 0x08 then input_fields (h\<lparr>usages := usages h @ [v]\<rparr>) rest
         else if tag = 0x80 then (usage_page h, usages h, report_size h, report_count h) # input_fields (h\<lparr>usages := []\<rparr>) rest
         else if tag \<in> {0xA0, 0xB0, 0xC0} then input_fields (h\<lparr>usages := []\<rparr>) rest
         else input_fields h rest)"
  by pat_completeness auto

termination
  by (relation "measure (\<lambda>(h, bs). length bs)") (auto simp: Let_def)

definition descriptor_fields :: "hid_field list" where
  "descriptor_fields = input_fields \<lparr>usage_page = 0, report_size = 0, report_count = 0, usages = []\<rparr> g_RpTouchReportDescriptor"

text \<open>
  The fields are those of the report structure, 56 bits after the report identifier; but the page
  of the coordinates is still in force where the contact count is declared, so that its usage is not
  the digitizer's \<open>(0x0D, 0x54)\<close>.
\<close>

lemma descriptor_fields_value:
  "descriptor_fields = [(0x0D, [0x42, 0x32], 1, 2), (0x0D, [], 1, 6), (0x0D, [0x51], 8, 1),
     (0x01, [0x30, 0x31], 16, 2), (0x01, [0x54], 8, 1)]"
  by (simp add: descriptor_fields_def g_RpTouchReportDescriptor_def item_size_def)

lemma descriptor_matches_report:
  "(\<Sum>(page, us, sz, n)\<leftarrow>descriptor_fields. unat sz * unat n) = 8 * (length (report_bytes r) - 1)"
  by (simp add: descriptor_fields_value)

end
