(* ===== verification/Win_Pipeline.thy ===== *)
theory Win_Pipeline
  imports Win_Base
begin

text \<open>
  The frame pipeline of the indirect display driver, \<^verbatim>\<open>UsbDisplayIdd/Pipeline.cpp\<close>:
  a presented surface is converted to RGB565, cut into chunks and pushed through the transport
  driver, with retries. The framework, the memory and the transport driver behind the target are a
  parameter; \<open>'d\<close> is the state of that driver.
\<close>

subsection \<open>State\<close>

datatype pipeline_call =
    GetDeviceInterfaces | FreePool | TargetCreate | TargetOpen | TargetClose | TargetDelete
  | TargetIoctl u32 "u8 list" | DelayExecution u32 | FinishedPresent | AllocatePool nat
  | GetBuffer | UnmapSurface

record 'd pipeline_env =
  pl_status :: "pipeline_call list \<Rightarrow> pipeline_call \<Rightarrow> NTSTATUS"
  pl_listed :: "pipeline_call list \<Rightarrow> bool"
  pl_alloc :: "pipeline_call list \<Rightarrow> nat \<Rightarrow> u8 list option"
  pl_ioctl :: "u32 \<Rightarrow> u8 list \<Rightarrow> 'd \<Rightarrow> NTSTATUS \<times> 'd"

record 'd PipelineContext =
  ParentDevice :: bool
  TransportTarget :: bool
  g_frameCounter :: u32
  target :: 'd
  pl_log :: "pipeline_call list"

definition pl_event :: "pipeline_call \<Rightarrow> 'd PipelineContext \<Rightarrow> 'd PipelineContext" where
  "pl_event call s = s\<lparr>pl_log := pl_log s @ [call]\<rparr>"

definition pl_do :: "'d pipeline_env \<Rightarrow> pipeline_call \<Rightarrow> 'd PipelineContext \<Rightarrow> NTSTATUS \<times> 'd PipelineContext" where
  "pl_do env call s = (pl_status env (pl_log s) call, pl_event call s)"

definition kMaxRetries :: nat where "kMaxRetries = 3"
definition kInitialRetryDelayMs :: u32 where "kInitialRetryDelayMs = 100"
definition kMaxRetryDelayMs :: u32 where "kMaxRetryDelayMs = 2000"

subsection \<open>The transport target\<close>

definition CloseTransportTarget :: "'d PipelineContext \<Rightarrow> 'd PipelineContext" where
  "CloseTransportTarget s =
     (if TransportTarget s
      then (pl_event TargetDelete (pl_event TargetClose s))\<lparr>TransportTarget := False\<rparr> else s)"

definition open_target :: "'d pipeline_env \<Rightarrow> 'd PipelineContext \<Rightarrow> NTSTATUS \<times> 'd PipelineContext" where
  "open_target env =
     on_success (pl_do env TargetCreate) (\<lambda>s.
       case pl_do env TargetOpen (s\<lparr>TransportTarget := True\<rparr>) of (status, s) \<Rightarrow>
         if NT_SUCCESS status then (status, s)
         else (status, (pl_event TargetDelete s)\<lparr>TransportTarget := False\<rparr>))"

definition EnsureTransportTarget :: "'d pipeline_env \<Rightarrow> 'd PipelineContext \<Rightarrow> NTSTATUS \<times> 'd PipelineContext" where
  "EnsureTransportTarget env s =
     (if TransportTarget s then (STATUS_SUCCESS, s)
      else if \<not> ParentDevice s then (STATUS_INVALID_DEVICE_STATE, s)
      else let listed = pl_listed env (pl_log s)
        in on_success (pl_do env GetDeviceInterfaces) (\<lambda>s.
             if \<not> listed then (STATUS_OBJECT_NAME_NOT_FOUND, pl_event FreePool s)
             else case open_target env s of (status, s) \<Rightarrow> (status, pl_event FreePool s)) s)"

definition send_ioctl :: "'d pipeline_env \<Rightarrow> u32 \<Rightarrow> u8 list \<Rightarrow> 'd PipelineContext \<Rightarrow> NTSTATUS \<times> 'd PipelineContext" where
  "send_ioctl env ioControlCode inputBuffer s =
     (case pl_ioctl env ioControlCode inputBuffer (target s) of (status, d) \<Rightarrow>
        (status, (pl_event (TargetIoctl ioControlCode inputBuffer) s)\<lparr>target := d\<rparr>))"

text \<open>One round of the retry loop without the pause.\<close>

definition send_attempt :: "'d pipeline_env \<Rightarrow> u32 \<Rightarrow> u8 list \<Rightarrow> 'd PipelineContext \<Rightarrow> NTSTATUS \<times> 'd PipelineContext" where
  "send_attempt env ioControlCode inputBuffer =
     on_success (EnsureTransportTarget env) (\<lambda>s.
       case send_ioctl env ioControlCode inputBuffer s of (status, s) \<Rightarrow>
         (status, if NT_SUCCESS status then s else CloseTransportTarget s))"

primrec retry_loop :: "'d pipeline_env \<Rightarrow> u32 \<Rightarrow> u8 list \<Rightarrow> nat \<Rightarrow> u32 \<Rightarrow> 'd PipelineContext \<Rightarrow> NTSTATUS \<times> 'd PipelineContext" where
  "retry_loop env ioControlCode inputBuffer 0 retryDelay s = send_attempt env ioControlCode inputBuffer s"
| "retry_loop env ioControlCode inputBuffer (Suc retries) retryDelay s =
     (case send_attempt env ioControlCode inputBuffer s of (status, s) \<Rightarrow>
        if NT_SUCCESS status then (status, s)
        else retry_loop env ioControlCode inputBuffer retries (min (retryDelay * 2) kMaxRetryDelayMs)
               (pl_event (DelayExecution retryDelay) s))"

definition SendIoctlWithRetry :: "'d pipeline_env \<Rightarrow> u32 \<Rightarrow> u8 list \<Rightarrow> 'd PipelineContext \<Rightarrow> NTSTATUS \<times> 'd PipelineContext" where
  "SendIoctlWithRetry env ioControlCode inputBuffer =
     retry_loop env ioControlCode inputBuffer kMaxRetries kInitialRetryDelayMs"

subsection \<open>Pixels\<close>

definition rgb565_of_bgra :: "u8 \<Rightarrow> u8 \<Rightarrow> u8 \<Rightarrow> u16" where
  "rgb565_of_bgra b g r = push_bit 8 (ucast (r AND 0xF8)) OR push_bit 3 (ucast (g AND 0xFC)) OR ucast (drop_bit 3 b)"

text \<open>
  Source rows are read at an offset in the mapped bits, pixels are written at an index of the frame
  buffer; an access outside of either is a fault.
\<close>

primrec convert_pixels :: "u8 list \<Rightarrow> nat \<Rightarrow> nat \<Rightarrow> nat list \<Rightarrow> u16 list \<Rightarrow> fault + u16 list" where
  "convert_pixels bits srcRow dstRow [] px = Inr px"
| "convert_pixels bits srcRow dstRow (x # xs) px =
     (let pixel = srcRow + unat (of_nat x * 4 :: u32)
      in if length bits \<le> pixel + 2 \<or> length px \<le> dstRow + x then Inl OutOfBounds
         else convert_pixels bits srcRow dstRow xs
           (px[dstRow + x := rgb565_of_bgra (bits ! pixel) (bits ! (pixel + 1)) (bits ! (pixel + 2))]))"

definition ConvertBgraToRgb565 :: "u8 list \<Rightarrow> nat \<Rightarrow> u32 \<Rightarrow> nat \<Rightarrow> u16 list \<Rightarrow> fault + u16 list" where
  "ConvertBgraToRgb565 bits srcRow width dstRow = convert_pixels bits srcRow dstRow [0..<unat width]"

primrec convert_rows :: "u8 list \<Rightarrow> u32 \<Rightarrow> u32 \<Rightarrow> nat list \<Rightarrow> u16 list \<Rightarrow> fault + u16 list" where
  "convert_rows bits pitch width [] px = Inr px"
| "convert_rows bits pitch width (row # rows) px =
     kbind (ConvertBgraToRgb565 bits (unat (of_nat row * pitch)) width (unat (of_nat row * width)) px)
       (convert_rows bits pitch width rows)"

subsection \<open>Chunks\<close>

definition ChunkSize :: u32 where "ChunkSize = 16 * 1024"
definition PixelFormat_Rgb565 :: u32 where "PixelFormat_Rgb565 = 0"

definition chunkDataSize :: u32 where "chunkDataSize = ChunkSize - 32"

definition total_chunks :: "u32 \<Rightarrow> u32" where
  "total_chunks payloadBytes = (payloadBytes + chunkDataSize - 1) div chunkDataSize"

record frame =
  fr_width :: u32
  fr_height :: u32
  fr_id :: u32
  fr_payloadBytes :: u32
  fr_pixelData :: "u8 list"

definition current_chunk_size :: "frame \<Rightarrow> u32 \<Rightarrow> u32" where
  "current_chunk_size f chunkIndex =
     (let remainingBytes = fr_payloadBytes f - chunkIndex * chunkDataSize
      in if remainingBytes < chunkDataSize then remainingBytes else chunkDataSize)"

definition chunk_header :: "frame \<Rightarrow> u32 \<Rightarrow> RPUSB_CHUNK_HEADER" where
  "chunk_header f chunkIndex = \<lparr>FrameId = fr_id f, ChunkIndex = chunkIndex,
     TotalChunks = total_chunks (fr_payloadBytes f), ChunkBytes = current_chunk_size f chunkIndex,
     chunk_Width = fr_width f, chunk_Height = fr_height f, chunk_PixelFormat = PixelFormat_Rgb565,
     TotalBytes = fr_payloadBytes f\<rparr>"

definition fill_chunk :: "frame \<Rightarrow> u32 \<Rightarrow> u8 list \<Rightarrow> fault + u8 list" where
  "fill_chunk f chunkIndex chunkBuffer =
     (let offset = 2 * (unat (chunkIndex * chunkDataSize) div 2); n = unat (current_chunk_size f chunkIndex)
      in if length (fr_pixelData f) < offset + n \<or> length chunkBuffer < 32 + n then Inl OutOfBounds
         else Inr (buf_put 32 (take n (drop offset (fr_pixelData f)))
                (buf_put 0 (chunk_header_bytes (chunk_header f chunkIndex)) chunkBuffer)))"

text \<open>The chunk loop: whether all chunks were sent, and the state it leaves.\<close>

primrec send_chunks :: "'d pipeline_env \<Rightarrow> frame \<Rightarrow> nat list \<Rightarrow> 'd PipelineContext \<Rightarrow> fault + bool \<times> 'd PipelineContext" where
  "send_chunks env f [] s = Inr (True, s)"
| "send_chunks env f (i # is) s =
     (let chunkIndex = of_nat i; chunkTotalSize = unat (32 + current_chunk_size f chunkIndex);
          allocated = pl_alloc env (pl_log s) chunkTotalSize; s = pl_event (AllocatePool chunkTotalSize) s
      in case allocated of None \<Rightarrow> Inr (False, s)
         | Some chunkBuffer \<Rightarrow> kbind (fill_chunk f chunkIndex chunkBuffer) (\<lambda>chunk.
             case SendIoctlWithRetry env IOCTL_RPUSB_PUSH_FRAME_CHUNK chunk s of (status, s) \<Rightarrow>
               let s = pl_event FreePool s
               in if \<not> NT_SUCCESS status then Inr (False, s) else send_chunks env f is s))"

subsection \<open>Presents\<close>

definition DXGI_FORMAT_B8G8R8A8_UNORM :: u32 where "DXGI_FORMAT_B8G8R8A8_UNORM = 87"

text \<open>A surface: its description and its mapped bits with their pitch, where the calls succeed.\<close>

record surface =
  GetDesc :: "(u32 \<times> u32 \<times> u32) option"
  MapRead :: "(u8 list \<times> u32) option"

definition convert_and_send :: "'d pipeline_env \<Rightarrow> u32 \<Rightarrow> u32 \<Rightarrow> u8 list \<Rightarrow> u32 \<Rightarrow> 'd PipelineContext \<Rightarrow> fault + 'd PipelineContext" where
  "convert_and_send env width height bits pitch s =
     (let payloadBytes = width * height * 2;
          totalBytes = 16 + unat payloadBytes;
          allocated = pl_alloc env (pl_log s) totalBytes; s = pl_event (AllocatePool totalBytes) s
      in case allocated of None \<Rightarrow> Inr (pl_event UnmapSurface s)
         | Some memory \<Rightarrow>
           let frameBuffer = buf_put 0 (frame_header_bytes \<lparr>frame_Width = width, frame_Height = height,
                 frame_PixelFormat = PixelFormat_Rgb565, PayloadBytes = payloadBytes\<rparr>) memory
           in kbind (convert_rows bits pitch width [0..<unat height] (parse_pixels (drop 16 frameBuffer))) (\<lambda>px.
              let s = pl_event UnmapSurface s; s = s\<lparr>g_frameCounter := g_frameCounter s + 1\<rparr>;
                  f = \<lparr>fr_width = width, fr_height = height, fr_id = g_frameCounter s,
                       fr_payloadBytes = payloadBytes, fr_pixelData = concat (map cpu_to_le16 px)\<rparr>
              in kbind (send_chunks env f [0..<unat (total_chunks payloadBytes)] s) (\<lambda>(allChunksSent, s).
                 Inr (pl_event FreePool s))))"

definition present_frame :: "'d pipeline_env \<Rightarrow> surface \<Rightarrow> 'd PipelineContext \<Rightarrow> fault + 'd PipelineContext" where
  "present_frame env surface s =
     (case EnsureTransportTarget env s of (status, s) \<Rightarrow>
        if \<not> NT_SUCCESS status then Inr s
        else case pl_do env GetBuffer s of (status, s) \<Rightarrow>
          if \<not> NT_SUCCESS status then Inr s
          else case GetDesc surface of None \<Rightarrow> Inr s
          | Some (width, height, format) \<Rightarrow>
              if width = 0 \<or> height = 0 \<or> format \<noteq> DXGI_FORMAT_B8G8R8A8_UNORM then Inr s
              else case MapRead surface of None \<Rightarrow> Inr s
                | Some (bits, pitch) \<Rightarrow> convert_and_send env width height bits pitch s)"

text \<open>The destructor of \<^verbatim>\<open>PresentCompletion\<close> runs at every return.\<close>

definition PresentCompletion_destroy :: "bool \<Rightarrow> 'd PipelineContext \<Rightarrow> 'd PipelineContext" where
  "PresentCompletion_destroy swapChain s = (if swapChain then pl_event FinishedPresent s else s)"

definition PipelineHandlePresent :: "'d pipeline_env \<Rightarrow> bool \<Rightarrow> surface \<Rightarrow> 'd PipelineContext \<Rightarrow> fault + 'd PipelineContext" where
  "PipelineHandlePresent env swapChain surface s =
     kbind (present_frame env surface s) (\<lambda>s. Inr (PresentCompletion_destroy swapChain s))"

subsection \<open>Initialisation and teardown\<close>

definition PipelineInitialize :: "'d pipeline_env \<Rightarrow> 'd PipelineContext \<Rightarrow> NTSTATUS \<times> 'd PipelineContext" where
  "PipelineInitialize env s =
     (case EnsureTransportTarget env (s\<lparr>ParentDevice := True\<rparr>) of (status, s) \<Rightarrow>
        (if \<not> NT_SUCCESS status then STATUS_SUCCESS else status, s))"

definition PipelineTeardown :: "'d PipelineContext \<Rightarrow> 'd PipelineContext" where
  "PipelineTeardown s = (CloseTransportTarget s)\<lparr>ParentDevice := False\<rparr>"

end
