(* ===== verification/Win_Display.thy ===== *)
theory Win_Display
  imports Win_Pipeline
begin

text \<open>
  The indirect display driver around the pipeline, \<^verbatim>\<open>UsbDisplayIdd/DisplayDevice.cpp\<close>,
  \<^verbatim>\<open>Driver.cpp\<close> and \<^verbatim>\<open>Edid.h\<close>: the adapter and its monitor, the swap chain
  with the thread that presents its frames, and the EDID the monitor is described with.
\<close>

subsection \<open>The EDID\<close>

definition kEdid320x240 :: "u8 list" where
  "kEdid320x240 = [
     0x00, 0xFF, 0xFF, 0xFF, 0xFF, 0xFF, 0xFF, 0x00,
     0x52, 0x50, 0x01, 0xA0, 0x01, 0x00, 0x00, 0x00,
     0x01, 0x1E, 0x01, 0x04,
     0x95, 0x1D, 0x11, 0x78,
     0x0A, 0xEE, 0x91, 0xA3, 0x54, 0x4C, 0x99, 0x26,
     0x0F, 0x50, 0x54,
     0x00, 0x00, 0x00,
     0x01, 0x01, 0x01, 0x01, 0x01, 0x01, 0x01, 0x01,
     0x01, 0x01, 0x01, 0x01, 0x01, 0x01,
     0x20, 0x1C, 0x40, 0x01, 0xF0, 0x30, 0x1F, 0x20,
     0x28, 0x80, 0x14, 0x00, 0x15, 0xD0, 0x10, 0x00,
     0x00, 0x1E,
     0x00, 0x00, 0x00, 0xFD, 0x00, 0x32, 0x4B, 0x1E,
     0x50, 0x11, 0x00, 0x0A, 0x20, 0x20, 0x20, 0x20,
     0x20, 0x20,
     0x00, 0x00, 0x00, 0xFC, 0x00, 0x52, 0x50, 0x20,
     0x55, 0x53, 0x42, 0x20, 0x44, 0x69, 0x73, 0x70,
     0x6C, 0x61, 0x79,
     0x00, 0x00, 0x00, 0xFF, 0x00, 0x30, 0x30, 0x30,
     0x30, 0x30, 0x30, 0x30, 0x30, 0x30, 0x30, 0x30,
     0x30, 0x0A,
     0x00, 0x5C]"

text \<open>
  What a reader of an EDID block takes from it: its validity, and the active size in the detailed
  timing descriptor at byte 54.
\<close>

definition edid_valid :: "u8 list \<Rightarrow> bool" where
  "edid_valid e \<longleftrightarrow> length e = 128 \<and> take 8 e = [0, 0xFF, 0xFF, 0xFF, 0xFF, 0xFF, 0xFF, 0] \<and> sum_list e = 0"

definition edid_active_size :: "u8 list \<Rightarrow> nat \<times> nat" where
  "edid_active_size e =
     (unat (e ! 56) + 256 * unat (drop_bit 4 (e ! 58)), unat (e ! 59) + 256 * unat (drop_bit 4 (e ! 61)))"

text \<open>The EDID is one byte short, its sum is not zero, and its timing is not that of the screen.\<close>

lemma edid_malformed:
  "\<not> edid_valid kEdid320x240 \<and> length kEdid320x240 = 127 \<and> sum_list kEdid320x240 \<noteq> 0
    \<and> edid_active_size kEdid320x240 \<noteq> (320, 240)"
  by (simp add: edid_valid_def kEdid320x240_def edid_active_size_def)

subsection \<open>What the framework is told\<close>

datatype adapter_callback =
    OnAdapterInitFinished | OnAdapterCommitModes | OnMonitorAssignSwapChain | OnMonitorUnassignSwapChain

record adapter_create =
  ClientId :: string
  EvtIddCxAdapterInitFinished :: adapter_callback
  EvtIddCxAdapterCommitModes :: adapter_callback
  EvtIddCxAdapterMonitorAssignSwapChain :: adapter_callback
  EvtIddCxAdapterMonitorUnassignSwapChain :: adapter_callback
  Flags :: u32

definition CreateAdapterArgs :: adapter_create where
  "CreateAdapterArgs = \<lparr>ClientId = ''RoboPeakUsbDisplay'',
     EvtIddCxAdapterInitFinished = OnAdapterInitFinished, EvtIddCxAdapterCommitModes = OnAdapterCommitModes,
     EvtIddCxAdapterMonitorAssignSwapChain = OnMonitorAssignSwapChain,
     EvtIddCxAdapterMonitorUnassignSwapChain = OnMonitorUnassignSwapChain, Flags = 0\<rparr>"

text \<open>A monitor is described by its EDID; its type and connector are USB.\<close>

record monitor_info =
  pEdid :: "u8 list"
  EdidLength :: nat

definition monitor_description :: monitor_info where
  "monitor_description = \<lparr>pEdid = kEdid320x240, EdidLength = length kEdid320x240\<rparr>"

record monitor_mode =
  activeSize :: "nat \<times> nat"
  vSyncFreq :: "nat \<times> nat"
  BitsPerPixel :: nat
  ModePixelFormat :: u32

definition native_mode :: monitor_mode where
  "native_mode = \<lparr>activeSize = (320, 240), vSyncFreq = (60, 1), BitsPerPixel = 16,
     ModePixelFormat = DXGI_FORMAT_B8G8R8A8_UNORM\<rparr>"

text \<open>The modes that the monitor arrives with, and the index of the default one.\<close>

definition monitor_modes :: "monitor_mode list \<times> nat" where
  "monitor_modes = ([native_mode], 0)"

subsection \<open>The device context\<close>

datatype display_call =
    WdfDriverCreate | DisplayDeviceCreated | IddCxAdapterInitAsync adapter_create
  | IddCxMonitorCreate monitor_info | IddCxMonitorArrival "monitor_mode list \<times> nat"
  | IddCxMonitorUnregister | IddCxAdapterClose | IddCxSwapChainSetDevice
  | PsCreateSystemThread | ObReferenceObjectByHandle | ZwClose | ObDereferenceObject | KeSetEvent
  | WaitForThread "nat option" | WPP_CLEANUP

type_synonym display_env = "display_call list \<Rightarrow> display_call \<Rightarrow> NTSTATUS"

record SwapChainContext =
  SwapChain :: "nat option"
  PresentThread :: bool
  StopEvent :: bool
  ShouldStop :: bool

text \<open>\<open>thread_references\<close> counts the references to thread objects that the driver holds.\<close>

record 'd DisplayDeviceContext =
  Adapter :: bool
  Monitor :: bool
  SwapChainCtx :: SwapChainContext
  CurrentWidth :: u32
  CurrentHeight :: u32
  pipeline :: "'d PipelineContext"
  thread_references :: nat
  display_log :: "display_call list"

definition display_event :: "display_call \<Rightarrow> 'd DisplayDeviceContext \<Rightarrow> 'd DisplayDeviceContext" where
  "display_event call s = s\<lparr>display_log := display_log s @ [call]\<rparr>"

definition display_do :: "display_env \<Rightarrow> display_call \<Rightarrow> 'd DisplayDeviceContext \<Rightarrow> NTSTATUS \<times> 'd DisplayDeviceContext" where
  "display_do env call s = (env (display_log s) call, display_event call s)"

definition set_swap_chain :: "(SwapChainContext \<Rightarrow> SwapChainContext) \<Rightarrow> 'd DisplayDeviceContext \<Rightarrow> 'd DisplayDeviceContext" where
  "set_swap_chain f s = s\<lparr>SwapChainCtx := f (SwapChainCtx s)\<rparr>"

subsection \<open>Adapter and monitor\<close>

definition DisplayEvtPrepareHardware :: "display_env \<Rightarrow> 'd DisplayDeviceContext \<Rightarrow> NTSTATUS \<times> 'd DisplayDeviceContext" where
  "DisplayEvtPrepareHardware env =
     on_success (display_do env (IddCxAdapterInitAsync CreateAdapterArgs)) (\<lambda>s. (STATUS_SUCCESS, s\<lparr>Adapter := True\<rparr>))"

definition DisplayEvtReleaseHardware :: "'d DisplayDeviceContext \<Rightarrow> NTSTATUS \<times> 'd DisplayDeviceContext" where
  "DisplayEvtReleaseHardware s =
     (let s = (if Monitor s then (display_event IddCxMonitorUnregister s)\<lparr>Monitor := False\<rparr> else s);
          s = (if Adapter s then (display_event IddCxAdapterClose s)\<lparr>Adapter := False\<rparr> else s)
      in (STATUS_SUCCESS, s))"

definition DisplayEvtAdapterInitFinished :: "display_env \<Rightarrow> 'd DisplayDeviceContext \<Rightarrow> NTSTATUS \<times> 'd DisplayDeviceContext" where
  "DisplayEvtAdapterInitFinished env =
     on_success (display_do env (IddCxMonitorCreate monitor_description)) (\<lambda>s.
       case display_do env (IddCxMonitorArrival monitor_modes) s of (status, s) \<Rightarrow>
         (status, if NT_SUCCESS status then s\<lparr>Monitor := True\<rparr> else s))"

text \<open>The paths of the committed modes with their active sizes; the context may be null.\<close>

definition DisplayEvtAdapterCommitModes :: "(u32 \<times> u32) list \<Rightarrow> 'd DisplayDeviceContext option \<Rightarrow> NTSTATUS \<times> 'd DisplayDeviceContext option" where
  "DisplayEvtAdapterCommitModes paths context =
     (STATUS_SUCCESS,
      if paths = [] then context
      else map_option (\<lambda>s. s\<lparr>CurrentWidth := fst (paths ! 0), CurrentHeight := snd (paths ! 0)\<rparr>) context)"

subsection \<open>The swap chain\<close>

definition signal_stop :: "'d DisplayDeviceContext \<Rightarrow> 'd DisplayDeviceContext" where
  "signal_stop s = display_event KeSetEvent (set_swap_chain (\<lambda>c. c\<lparr>ShouldStop := True, StopEvent := True\<rparr>) s)"

definition reference_thread :: "display_env \<Rightarrow> 'd DisplayDeviceContext \<Rightarrow> NTSTATUS \<times> 'd DisplayDeviceContext" where
  "reference_thread env s =
     (case display_do env ObReferenceObjectByHandle s of (status, s) \<Rightarrow>
        let s = display_event ZwClose s
        in (status,
            if NT_SUCCESS status
            then (set_swap_chain (\<lambda>c. c\<lparr>PresentThread := True\<rparr>) s)\<lparr>thread_references := thread_references s + 1\<rparr>
            else signal_stop s))"

definition DisplayEvtAssignSwapChain :: "display_env \<Rightarrow> nat \<Rightarrow> 'd DisplayDeviceContext \<Rightarrow> NTSTATUS \<times> 'd DisplayDeviceContext" where
  "DisplayEvtAssignSwapChain env hSwapChain =
     on_success (display_do env IddCxSwapChainSetDevice) (\<lambda>s.
     on_success (display_do env PsCreateSystemThread) (reference_thread env)
       (set_swap_chain (\<lambda>c. c\<lparr>SwapChain := Some hSwapChain, ShouldStop := False, StopEvent := False\<rparr>) s))"

definition DisplayEvtUnassignSwapChain :: "'d DisplayDeviceContext \<Rightarrow> NTSTATUS \<times> 'd DisplayDeviceContext" where
  "DisplayEvtUnassignSwapChain s =
     (let s = (if PresentThread (SwapChainCtx s)
          then let s = display_event ObDereferenceObject (display_event (WaitForThread None) (signal_stop s));
                   s = s\<lparr>thread_references := thread_references s - 1\<rparr>
               in set_swap_chain (\<lambda>c. c\<lparr>PresentThread := False\<rparr>) s
          else s)
      in (STATUS_SUCCESS, set_swap_chain (\<lambda>c. c\<lparr>SwapChain := None\<rparr>) s))"

definition DisplayEvtSurpriseRemoval :: "'d DisplayDeviceContext \<Rightarrow> 'd DisplayDeviceContext" where
  "DisplayEvtSurpriseRemoval s =
     (let s = (if PresentThread (SwapChainCtx s)
          then set_swap_chain (\<lambda>c. c\<lparr>PresentThread := False\<rparr>) (display_event (WaitForThread (Some 1000)) (signal_stop s))
          else s)
      in s\<lparr>pipeline := PipelineTeardown (pipeline s)\<rparr>)"

subsection \<open>The present thread\<close>

text \<open>
  A round of the thread, as far as it is decided outside of it: what the stop flag was, whether the
  stop event was signalled, the status of the acquisition and the surface it made available.
\<close>

record present_round =
  stop_seen :: bool
  stop_signalled :: bool
  acquired :: NTSTATUS
  SurfaceAvailable :: "surface option"

text \<open>The loop over the rounds: whether it ended by itself, the frames it counted, the pipeline.\<close>

fun present_loop :: "'d pipeline_env \<Rightarrow> bool \<Rightarrow> present_round list \<Rightarrow> u32 \<Rightarrow> 'd PipelineContext \<Rightarrow> fault + bool \<times> u32 \<times> 'd PipelineContext" where
  "present_loop env swapChain [] frameCount s = Inr (False, frameCount, s)"
| "present_loop env swapChain (r # rs) frameCount s =
     (if stop_seen r then Inr (True, frameCount, s)
      else if stop_signalled r then Inr (True, frameCount, s)
      else if NT_SUCCESS (acquired r) then
        (case SurfaceAvailable r of
           None \<Rightarrow> present_loop env swapChain rs frameCount s
         | Some surface \<Rightarrow> kbind (PipelineHandlePresent env swapChain surface s)
             (present_loop env swapChain rs (frameCount + 1)))
      else if acquired r = STATUS_TIMEOUT \<or> acquired r = STATUS_NO_MORE_ENTRIES
      then present_loop env swapChain rs frameCount s
      else Inr (True, frameCount, s))"

definition PresentProcessingThread :: "'d pipeline_env \<Rightarrow> SwapChainContext \<Rightarrow> present_round list \<Rightarrow> 'd PipelineContext \<Rightarrow> fault + bool \<times> u32 \<times> 'd PipelineContext" where
  "PresentProcessingThread env ctx rounds = present_loop env (SwapChain ctx \<noteq> None) rounds 0"

subsection \<open>Power and loading\<close>

text \<open>Powering up and down only traces.\<close>

definition DisplayEvtD0Entry :: "'d DisplayDeviceContext \<Rightarrow> NTSTATUS \<times> 'd DisplayDeviceContext" where
  "DisplayEvtD0Entry s = (STATUS_SUCCESS, s)"

definition DisplayEvtD0Exit :: "'d DisplayDeviceContext \<Rightarrow> NTSTATUS \<times> 'd DisplayDeviceContext" where
  "DisplayEvtD0Exit s = (STATUS_SUCCESS, s)"

definition DisplayEvtDeviceAdd :: "display_env \<Rightarrow> 'd pipeline_env \<Rightarrow> 'd DisplayDeviceContext \<Rightarrow> NTSTATUS \<times> 'd DisplayDeviceContext" where
  "DisplayEvtDeviceAdd env penv =
     on_success (display_do env DisplayDeviceCreated) (\<lambda>s.
       case PipelineInitialize penv (pipeline s) of (status, p) \<Rightarrow> (status, s\<lparr>pipeline := p\<rparr>))"

definition display_config :: driver_config where
  "display_config = \<lparr>EvtDriverDeviceAdd = True, EvtDriverUnload = False, NonPnpDriver = True\<rparr>"

definition display_DriverEntry :: "display_env \<Rightarrow> 'd DisplayDeviceContext \<Rightarrow> NTSTATUS \<times> 'd DisplayDeviceContext" where
  "display_DriverEntry env s =
     (case display_do env WdfDriverCreate s of (status, s) \<Rightarrow>
        if \<not> NT_SUCCESS status then (status, display_event WPP_CLEANUP s) else (status, s))"

definition DisplayEvtDriverUnload :: "'d DisplayDeviceContext \<Rightarrow> 'd DisplayDeviceContext" where
  "DisplayEvtDriverUnload s = display_event WPP_CLEANUP (s\<lparr>pipeline := PipelineTeardown (pipeline s)\<rparr>)"

end
