(* ===== verification/Win_Pipeline_Properties.thy ===== *)
theory Win_Pipeline_Properties
  imports Win_Pipeline Win_Transport
begin

text \<open>
  The pipeline on top of the transport driver: a presented surface arrives at the bulk pipe as
  chunks that carry its RGB565 pixels, and a send is tried a bounded number of times.
\<close>

lemma length_parse_pixels: "length (parse_pixels bs) = length bs div 2"
  by (induction bs rule: parse_pixels.induct) simp_all

subsection \<open>The target\<close>

lemma ensure_open [simp]: "TransportTarget s \<Longrightarrow> EnsureTransportTarget env s = (STATUS_SUCCESS, s)"
  by (simp add: EnsureTransportTarget_def)

lemma pl_event_fields [simp]:
  "TransportTarget (pl_event c s) = TransportTarget s" "ParentDevice (pl_event c s) = ParentDevice s"
  "target (pl_event c s) = target s" "g_frameCounter (pl_event c s) = g_frameCounter s"
  "pl_log (pl_event c s) = pl_log s @ [c]"
  by (simp_all add: pl_event_def)

lemma send_accepted:
  assumes "TransportTarget s" "pl_ioctl env code buf (target s) = (status, d)" "NT_SUCCESS status"
  shows "SendIoctlWithRetry env code buf s = (status, (pl_event (TargetIoctl code buf) s)\<lparr>target := d\<rparr>)"
  using assms
  by (simp add: SendIoctlWithRetry_def kMaxRetries_def eval_nat_numeral send_attempt_def send_ioctl_def)

subsection \<open>Conversion\<close>

definition bgra_at :: "u8 list \<Rightarrow> nat \<Rightarrow> u16" where
  "bgra_at bits pixel = rgb565_of_bgra (bits ! pixel) (bits ! (pixel + 1)) (bits ! (pixel + 2))"

text \<open>The reference: pixel \<open>x\<close> of row \<open>r\<close> is the one at \<open>r * pitch + 4 * x\<close>.\<close>

definition surface_row :: "u8 list \<Rightarrow> nat \<Rightarrow> nat \<Rightarrow> nat \<Rightarrow> u16 list" where
  "surface_row bits pitch width r = map (\<lambda>x. bgra_at bits (r * pitch + 4 * x)) [0..<width]"

definition surface_pixels :: "u8 list \<Rightarrow> nat \<Rightarrow> nat \<Rightarrow> nat \<Rightarrow> u16 list" where
  "surface_pixels bits pitch width height = concat (map (surface_row bits pitch width) [0..<height])"

lemma convert_pixels_snoc:
  "convert_pixels bits src dst (xs @ ys) px = kbind (convert_pixels bits src dst xs px) (convert_pixels bits src dst ys)"
  by (induction xs arbitrary: px) (simp_all add: Let_def)

lemma length_surface_row [simp]: "length (surface_row bits pitch width r) = width"
  by (simp add: surface_row_def)

lemma length_surface_pixels [simp]: "length (surface_pixels bits pitch width h) = h * width"
  by (induction h) (simp_all add: surface_pixels_def)

lemma surface_pixels_Suc:
  "surface_pixels bits pitch width (Suc h) = surface_pixels bits pitch width h @ surface_row bits pitch width h"
  by (simp add: surface_pixels_def)

lemma unat_of_nat_mult:
  assumes "i * unat (b :: u32) < 2 ^ 32"
  shows "unat (of_nat i * b) = i * unat b"
proof -
  have "of_nat i * b = (of_nat (i * unat b) :: u32)"
    by simp
  then show ?thesis
    using assms by (simp only: unat_of_nat) (simp add: take_bit_nat_eq_self)
qed

lemma convert_pixels_ok:
  assumes "src + 4 * w \<le> length bits" "dst + w \<le> length px" "4 * w < 2 ^ 32"
  shows "convert_pixels bits src dst [0..<w] px
    = Inr (buf_put dst (map (\<lambda>x. bgra_at bits (src + 4 * x)) [0..<w]) px)"
  using assms
proof (induction w)
  case 0
  then show ?case by simp
next
  case (Suc w)
  let ?row = "\<lambda>w. map (\<lambda>x. bgra_at bits (src + 4 * x)) [0..<w]"
  have "unat (of_nat w * 4 :: u32) = 4 * w"
    using Suc.prems(3) unat_of_nat_mult [of w 4] by simp
  moreover have "(buf_put dst (?row w) px)[dst + w := v] = buf_put dst (?row w @ [v]) px" for v
    using Suc.prems(2) buf_put_append [of dst "?row w" "[v]" px]
    by (simp add: buf_put_def [of _ "[v]"] upd_conv_take_nth_drop)
  ultimately show ?case
    using Suc by (simp add: convert_pixels_snoc Let_def bgra_at_def)
qed

lemma convert_row_ok:
  assumes "unat (of_nat r * (pitch :: u32)) + 4 * unat width \<le> length bits" "dst + unat width \<le> length px"
    and "4 * unat width < 2 ^ 32" "r * unat pitch < 2 ^ 32"
  shows "ConvertBgraToRgb565 bits (unat (of_nat r * pitch)) width dst px
    = Inr (buf_put dst (surface_row bits (unat pitch) (unat width) r) px)"
proof -
  have "unat (of_nat r * pitch) = r * unat pitch"
    using assms(4) by (rule unat_of_nat_mult)
  then show ?thesis
    using assms(1-3) convert_pixels_ok [of "r * unat pitch" "unat width" bits dst px]
    by (simp add: ConvertBgraToRgb565_def surface_row_def)
qed

lemma convert_rows_snoc:
  "convert_rows bits pitch width (rs @ qs) px = kbind (convert_rows bits pitch width rs px) (convert_rows bits pitch width qs)"
  by (induction rs arbitrary: px) (simp_all add: kbind_assoc fun_eq_iff cong: kbind_cong)

lemma kbind_return [simp]: "kbind m Inr = m"
  by (cases m) simp_all

lemma convert_rows_from:
  assumes "h * unat pitch \<le> length bits" "4 * unat width \<le> unat pitch" "h * unat pitch < 2 ^ 32"
    and "h * unat width \<le> length px"
  shows "convert_rows bits pitch width [0..<h] px
    = Inr (buf_put 0 (surface_pixels bits (unat pitch) (unat width) h) px)"
  using assms
proof (induction h)
  case 0
  then show ?case by (simp add: surface_pixels_def)
next
  case (Suc h)
  let ?done = "surface_pixels bits (unat pitch) (unat width)" and ?row = "surface_row bits (unat pitch) (unat width) h"
  have w: "4 * unat width < 2 ^ 32"
    using Suc.prems(2,3) by simp
  have "h * unat width \<le> h * unat pitch"
    by (rule mult_le_mono2) (use Suc.prems(2) in simp)
  also have "\<dots> < 2 ^ 32"
    using Suc.prems(3) by simp
  finally have w2: "h * unat width < 2 ^ 32" .
  have src: "unat (of_nat h * pitch) = h * unat pitch"
    by (rule unat_of_nat_mult) (use Suc.prems in simp)
  have dst: "unat (of_nat h * width) = h * unat width"
    using w2 by (rule unat_of_nat_mult)
  have "convert_rows bits pitch width [0..<h] px = Inr (buf_put 0 (?done h) px)"
    using Suc by simp
  moreover have "ConvertBgraToRgb565 bits (unat (of_nat h * pitch)) width (unat (of_nat h * width)) (buf_put 0 (?done h) px)
      = Inr (buf_put (h * unat width) ?row (buf_put 0 (?done h) px))"
    unfolding dst using Suc.prems w src by (intro convert_row_ok) simp_all
  moreover have "buf_put (h * unat width) ?row (buf_put 0 (?done h) px) = buf_put 0 (?done (Suc h)) px"
    using Suc.prems(4) buf_put_append [of 0 "?done h" ?row px] by (simp add: surface_pixels_Suc)
  ultimately show ?case
    by (simp add: convert_rows_snoc)
qed

lemma convert_rows_ok:
  assumes "unat height * unat pitch \<le> length bits" "4 * unat width \<le> unat pitch"
    and "unat height * unat pitch < 2 ^ 32" "length px = unat height * unat width"
  shows "convert_rows bits pitch width [0..<unat height] px
    = Inr (surface_pixels bits (unat pitch) (unat width) (unat height))"
  using assms convert_rows_from [of "unat height" pitch bits width px] by (simp add: buf_put_def)

subsection \<open>Chunks\<close>

definition chunk_count :: "nat \<Rightarrow> nat" where
  "chunk_count payload = (payload + 16351) div 16352"

definition chunk_data :: "u8 list \<Rightarrow> nat \<Rightarrow> u8 list" where
  "chunk_data im i = take 16352 (drop (i * 16352) im)"

text \<open>What is pushed for chunk \<open>i\<close> of a frame.\<close>

definition frame_chunk :: "frame \<Rightarrow> nat \<Rightarrow> u8 list" where
  "frame_chunk f i = chunk_header_bytes (chunk_header f (of_nat i)) @ chunk_data (fr_pixelData f) i"

lemma chunk_data_concat: "concat (map (chunk_data im) [0..<n]) = take (n * 16352) im"
proof (induction n)
  case (Suc n)
  have "take (Suc n * 16352) im = take (n * 16352) im @ chunk_data im n"
    using take_add [of "n * 16352" 16352 im] by (simp add: chunk_data_def add.commute)
  with Suc show ?case
    by simp
qed simp

lemma chunks_cover: "payload \<le> chunk_count payload * 16352"
  by (simp add: chunk_count_def)

lemma chunk_inside: "i < chunk_count payload \<Longrightarrow> i * 16352 < payload"
  by (simp add: chunk_count_def)

lemma frame_chunks_concat:
  assumes "length (fr_pixelData f) = n"
  shows "concat (map (drop 32) (map (frame_chunk f) [0..<chunk_count n])) = fr_pixelData f"
  using assms chunks_cover [of n]
  by (simp add: comp_def frame_chunk_def chunk_data_concat [unfolded map_eq_conv])

lemma length_frame_chunk: "length (frame_chunk f i) \<le> unat ChunkSize"
  by (simp add: frame_chunk_def chunk_data_def ChunkSize_def)

definition frame_ok :: "frame \<Rightarrow> bool" where
  "frame_ok f \<longleftrightarrow> length (fr_pixelData f) = unat (fr_payloadBytes f) \<and> unat (fr_payloadBytes f) + 16352 < 2 ^ 32"

lemma chunkDataSize_value: "chunkDataSize = 16352"
  by (simp add: chunkDataSize_def ChunkSize_def)

lemma total_chunks_value:
  assumes "unat payload + 16352 < 2 ^ 32"
  shows "unat (total_chunks payload) = chunk_count (unat payload)"
proof -
  have "unat (payload + 16351) = unat payload + 16351"
    using assms by (simp add: unat_word_ariths)
  moreover have "unat (16352 :: u32) = 16352"
    by simp
  moreover have "total_chunks payload = (payload + 16351) div 16352"
    by (simp add: total_chunks_def chunkDataSize_value add.commute)
  ultimately show ?thesis
    by (simp only: chunk_count_def unat_div)
qed

lemma chunk_offset:
  assumes "frame_ok f" "i < chunk_count (unat (fr_payloadBytes f))"
  shows "unat (of_nat i * chunkDataSize) = i * 16352" "i * 16352 < unat (fr_payloadBytes f)"
proof -
  show "i * 16352 < unat (fr_payloadBytes f)"
    using assms(2) by (rule chunk_inside)
  then show "unat (of_nat i * chunkDataSize) = i * 16352"
    using assms(1) unat_of_nat_mult [of i chunkDataSize] by (simp add: chunkDataSize_value frame_ok_def)
qed

lemma chunk_size_value:
  assumes "frame_ok f" "i < chunk_count (unat (fr_payloadBytes f))"
  shows "unat (current_chunk_size f (of_nat i)) = length (chunk_data (fr_pixelData f) i)"
proof -
  note o = chunk_offset [OF assms]
  have "unat (fr_payloadBytes f - of_nat i * chunkDataSize) = unat (fr_payloadBytes f) - i * 16352"
    using o by (simp add: unat_sub word_le_nat_alt)
  then show ?thesis
    using assms(1) by (simp add: current_chunk_size_def Let_def word_less_nat_alt chunk_data_def
        frame_ok_def chunkDataSize_value)
qed

lemma fill_chunk_ok:
  assumes "frame_ok f" "i < chunk_count (unat (fr_payloadBytes f))"
    and "length mem = 32 + length (chunk_data (fr_pixelData f) i)"
  shows "fill_chunk f (of_nat i) mem = Inr (frame_chunk f i)"
proof -
  note o = chunk_offset [OF assms(1,2)] and n = chunk_size_value [OF assms(1,2)]
  have "2 * (i * 16352 div 2) = i * 16352"
    by simp
  moreover have "take (length (chunk_data (fr_pixelData f) i)) (drop (i * 16352) (fr_pixelData f)) = chunk_data (fr_pixelData f) i"
    by (simp add: chunk_data_def min_def)
  moreover have "i * 16352 + length (chunk_data (fr_pixelData f) i) \<le> length (fr_pixelData f)"
    using o(2) assms(1) by (simp add: chunk_data_def frame_ok_def)
  ultimately show ?thesis
    using assms(3) o(1) n
    by (simp add: fill_chunk_def Let_def frame_chunk_def buf_put_def mult.commute)
qed

subsection \<open>A driver that accepts the chunks\<close>

definition pool_ok :: "'d pipeline_env \<Rightarrow> bool" where
  "pool_ok env \<longleftrightarrow> (\<forall>calls n. \<exists>mem. pl_alloc env calls n = Some mem \<and> length mem = n)"

definition push_chunk :: "'d pipeline_env \<Rightarrow> frame \<Rightarrow> nat \<Rightarrow> 'd \<Rightarrow> NTSTATUS \<times> 'd" where
  "push_chunk env f i = pl_ioctl env IOCTL_RPUSB_PUSH_FRAME_CHUNK (frame_chunk f i)"

lemma send_chunks_ok:
  assumes "frame_ok f" "pool_ok env"
    and "\<And>i d. P d \<Longrightarrow> i \<in> set is \<Longrightarrow> NT_SUCCESS (fst (push_chunk env f i d)) \<and> P (snd (push_chunk env f i d))"
    and "TransportTarget s" "P (target s)" "\<forall>i\<in>set is. i < chunk_count (unat (fr_payloadBytes f))"
  shows "\<exists>s'. send_chunks env f is s = Inr (True, s') \<and> TransportTarget s' \<and>
    target s' = fold (\<lambda>i d. snd (push_chunk env f i d)) is (target s)"
  using assms(3-)
proof (induction "is" arbitrary: s)
  case Nil
  then show ?case by simp
next
  case (Cons i "is")
  have i: "i < chunk_count (unat (fr_payloadBytes f))"
    using Cons.prems(4) by simp
  define n where "n = unat (32 + current_chunk_size f (of_nat i))"
  have "length (chunk_data (fr_pixelData f) i) \<le> 16352"
    by (simp add: chunk_data_def)
  then have n: "n = 32 + length (chunk_data (fr_pixelData f) i)"
    using chunk_size_value [OF assms(1) i] by (simp add: n_def unat_word_ariths)
  obtain mem where mem: "pl_alloc env (pl_log s) n = Some mem" "length mem = n"
    using assms(2) by (auto simp: pool_ok_def)
  obtain st d where st: "push_chunk env f i (target s) = (st, d)"
    by fastforce
  have ok: "NT_SUCCESS st" "P d"
    using Cons.prems(1) [OF Cons.prems(3), of i] st by simp_all
  define s1 where "s1 = pl_event FreePool ((pl_event (TargetIoctl IOCTL_RPUSB_PUSH_FRAME_CHUNK (frame_chunk f i))
    (pl_event (AllocatePool n) s))\<lparr>target := d\<rparr>)"
  have "send_chunks env f (i # is) s = send_chunks env f is s1"
    using mem st ok fill_chunk_ok [OF assms(1) i, of mem] n Cons.prems(2)
    by (simp add: Let_def n_def [symmetric] push_chunk_def s1_def send_accepted)
  moreover have "TransportTarget s1" "target s1 = d"
    using Cons.prems(2) by (simp_all add: s1_def)
  ultimately show ?case
    using Cons.IH [of s1] Cons.prems(1,4) ok st by simp
qed

subsection \<open>The transport driver behind the target\<close>

definition driver_ioctl :: "transport_env \<Rightarrow> u32 \<Rightarrow> u8 list \<Rightarrow> DeviceContext \<Rightarrow> NTSTATUS \<times> DeviceContext" where
  "driver_ioctl env code input d =
     (case UsbDeviceIoDeviceControl env code input [] d of (c, d) \<Rightarrow> (IoStatus c, d))"

definition transferred :: "nat option \<Rightarrow> u8 list \<Rightarrow> wdf_call list" where
  "transferred pipe bs = [WdfRequestRetrieveInputMemory, WdfUsbTargetPipeWrite pipe bs]"

definition frame_submitted :: "u32 \<Rightarrow> RPUSB_STATISTICS \<Rightarrow> RPUSB_STATISTICS" where
  "frame_submitted n t = t\<lparr>FramesSubmitted := FramesSubmitted t + 1, BytesTransferred := BytesTransferred t + ucast n\<rparr>"

lemma on_device_simps [simp]: "on_device f (s, out) = (fst (f s), (snd (f s), out))"
  by (simp add: on_device_def case_prod_beta)

lemma push_chunk_accepted:
  assumes "usb_accepting env" "32 \<le> length input" "ChunkBytes (chunk_header_at input) \<noteq> 0"
    and "ChunkIndex (chunk_header_at input) < TotalChunks (chunk_header_at input)"
  shows "\<exists>st. driver_ioctl env IOCTL_RPUSB_PUSH_FRAME_CHUNK input d = (st,
      d\<lparr>wdf_log := wdf_log d @ transferred (BulkOut d) input,
        Statistics := if ChunkIndex (chunk_header_at input) = TotalChunks (chunk_header_at input) - 1
          then frame_submitted (TotalBytes (chunk_header_at input)) (Statistics d) else Statistics d\<rparr>)
    \<and> NT_SUCCESS st"
proof -
  have codes: "IOCTL_RPUSB_PUSH_FRAME_CHUNK \<notin> {IOCTL_RPUSB_PING, IOCTL_RPUSB_GET_VERSION,
      IOCTL_RPUSB_PUSH_FRAME, IOCTL_RPUSB_SET_MODE, IOCTL_RPUSB_GET_STATISTICS, IOCTL_RPUSB_GET_TOUCH_DATA}"
    by (simp add: ioctl_defs)
  have "TotalChunks (chunk_header_at input) \<noteq> 0"
    using assms(4) by auto
  then show ?thesis
    using assms codes
    by (simp add: driver_ioctl_def UsbDeviceIoDeviceControl_def transport_dispatch_def
        ioctl_push_frame_chunk_def wdf_do_def usb_accepting_def Let_def transferred_def frame_submitted_def)
qed

lemma chunk_header_of [simp]: "chunk_header_at (frame_chunk f i) = chunk_header f (of_nat i)"
  by (simp add: frame_chunk_def)

lemma chunk_header_ok:
  assumes "frame_ok f" "i < chunk_count (unat (fr_payloadBytes f))"
  shows "unat (ChunkIndex (chunk_header f (of_nat i))) = i"
    and "unat (TotalChunks (chunk_header f (of_nat i))) = chunk_count (unat (fr_payloadBytes f))"
    and "unat (ChunkBytes (chunk_header f (of_nat i))) = length (chunk_data (fr_pixelData f) i)"
    and "ChunkBytes (chunk_header f (of_nat i)) \<noteq> 0"
    and "length (frame_chunk f i) = 32 + unat (ChunkBytes (chunk_header f (of_nat i)))"
proof -
  note o = chunk_offset [OF assms] and n = chunk_size_value [OF assms]
  have "i < 2 ^ 32"
    using o(2) assms(1) by (simp add: frame_ok_def)
  then show "unat (ChunkIndex (chunk_header f (of_nat i))) = i"
    by (simp add: chunk_header_def unat_of_nat take_bit_nat_eq_self)
  show "unat (TotalChunks (chunk_header f (of_nat i))) = chunk_count (unat (fr_payloadBytes f))"
    using assms(1) by (simp add: chunk_header_def frame_ok_def total_chunks_value)
  show bytes: "unat (ChunkBytes (chunk_header f (of_nat i))) = length (chunk_data (fr_pixelData f) i)"
    using n by (simp add: chunk_header_def)
  have "chunk_data (fr_pixelData f) i \<noteq> []"
    using o(2) assms(1) by (simp add: chunk_data_def frame_ok_def)
  then show "ChunkBytes (chunk_header f (of_nat i)) \<noteq> 0"
    using bytes by auto
  show "length (frame_chunk f i) = 32 + unat (ChunkBytes (chunk_header f (of_nat i)))"
    unfolding bytes by (simp add: frame_chunk_def)
qed

lemma last_chunk:
  assumes "frame_ok f" "i < chunk_count (unat (fr_payloadBytes f))"
  shows "ChunkIndex (chunk_header f (of_nat i)) = TotalChunks (chunk_header f (of_nat i)) - 1
    \<longleftrightarrow> Suc i = chunk_count (unat (fr_payloadBytes f))"
proof -
  let ?h = "chunk_header f (of_nat i)"
  note facts = chunk_header_ok(1,2) [OF assms]
  have "unat (TotalChunks ?h - 1) = unat (TotalChunks ?h) - 1"
    using facts(2) assms(2) by (simp add: unat_sub word_le_nat_alt)
  then have "ChunkIndex ?h = TotalChunks ?h - 1 \<longleftrightarrow> i = chunk_count (unat (fr_payloadBytes f)) - 1"
    using facts by (metis word_unat_eq_iff)
  then show ?thesis
    using assms(2) by auto
qed

lemma driver_takes_chunk:
  assumes "frame_ok f" "i < chunk_count (unat (fr_payloadBytes f))" "usb_accepting tenv"
    and "pl_ioctl env = driver_ioctl tenv"
  shows "NT_SUCCESS (fst (push_chunk env f i d))"
    and "snd (push_chunk env f i d) = d\<lparr>wdf_log := wdf_log d @ transferred (BulkOut d) (frame_chunk f i),
      Statistics := if Suc i = chunk_count (unat (fr_payloadBytes f))
        then frame_submitted (fr_payloadBytes f) (Statistics d) else Statistics d\<rparr>"
proof -
  note facts = chunk_header_ok [OF assms(1,2)]
  have "ChunkIndex (chunk_header f (of_nat i)) < TotalChunks (chunk_header f (of_nat i))"
    using facts(1,2) assms(2) by (simp add: word_less_nat_alt)
  moreover have "TotalBytes (chunk_header f (of_nat i)) = fr_payloadBytes f"
    by (simp add: chunk_header_def)
  ultimately obtain st where "push_chunk env f i d = (st, d\<lparr>wdf_log := wdf_log d @ transferred (BulkOut d) (frame_chunk f i),
      Statistics := if Suc i = chunk_count (unat (fr_payloadBytes f))
        then frame_submitted (fr_payloadBytes f) (Statistics d) else Statistics d\<rparr>)" "NT_SUCCESS st"
    using push_chunk_accepted [OF assms(3), of "frame_chunk f i" d] facts(4,5) last_chunk [OF assms(1,2)] assms(4)
    by (auto simp: push_chunk_def)
  then show "NT_SUCCESS (fst (push_chunk env f i d))"
    and "snd (push_chunk env f i d) = d\<lparr>wdf_log := wdf_log d @ transferred (BulkOut d) (frame_chunk f i),
      Statistics := if Suc i = chunk_count (unat (fr_payloadBytes f))
        then frame_submitted (fr_payloadBytes f) (Statistics d) else Statistics d\<rparr>"
    by simp_all
qed

lemma driver_takes_frame:
  assumes "frame_ok f" "usb_accepting tenv" "pl_ioctl env = driver_ioctl tenv"
    and "k \<le> chunk_count (unat (fr_payloadBytes f))"
  shows "fold (\<lambda>i d. snd (push_chunk env f i d)) [0..<k] d
    = d\<lparr>wdf_log := wdf_log d @ concat (map (\<lambda>i. transferred (BulkOut d) (frame_chunk f i)) [0..<k]),
        Statistics := if 0 < k \<and> k = chunk_count (unat (fr_payloadBytes f))
          then frame_submitted (fr_payloadBytes f) (Statistics d) else Statistics d\<rparr>"
  using assms(4)
proof (induction k)
  case 0
  then show ?case by simp
next
  case (Suc k)
  then show ?case
    using driver_takes_chunk(2) [OF assms(1) _ assms(2,3), of k] by simp
qed

subsection \<open>A presented frame arrives\<close>

text \<open>
  What a device can make of the chunks of a frame: one identifier and one size throughout, the
  chunks in order and complete, each as long as it says; the pixels are the data of all of them.
\<close>

definition reassemble :: "u8 list list \<Rightarrow> (u32 \<times> u32 \<times> u32 \<times> u16 list) option" where
  "reassemble chunks =
     (let h = map chunk_header_at chunks; image = concat (map (drop 32) chunks); i = hd h
      in if chunks \<noteq> [] \<and> map (unat \<circ> ChunkIndex) h = [0..<length chunks]
           \<and> list_all (\<lambda>c. length c = 32 + unat (ChunkBytes (chunk_header_at c))) chunks
           \<and> list_all (\<lambda>k. FrameId k = FrameId i \<and> chunk_Width k = chunk_Width i
               \<and> chunk_Height k = chunk_Height i \<and> chunk_PixelFormat k = PixelFormat_Rgb565
               \<and> unat (TotalChunks k) = length chunks \<and> unat (TotalBytes k) = length image) h
         then Some (FrameId i, chunk_Width i, chunk_Height i, parse_pixels image) else None)"

lemma reassemble_frame:
  assumes "frame_ok f" "fr_payloadBytes f \<noteq> 0"
  shows "reassemble (map (frame_chunk f) [0..<chunk_count (unat (fr_payloadBytes f))])
    = Some (fr_id f, fr_width f, fr_height f, parse_pixels (fr_pixelData f))"
proof -
  let ?n = "chunk_count (unat (fr_payloadBytes f))"
  define chunks where "chunks = map (frame_chunk f) [0..<?n]"
  have n: "0 < ?n" "length chunks = ?n" "chunks \<noteq> []"
    using chunks_cover [of "unat (fr_payloadBytes f)"] assms(2)
    by (cases ?n, simp_all add: unat_eq_zero chunks_def)+
  have im: "concat (map (drop 32) chunks) = fr_pixelData f"
    unfolding chunks_def using assms(1) by (intro frame_chunks_concat) (simp add: frame_ok_def)
  have h: "hd (map chunk_header_at chunks) = chunk_header f 0"
    using n(1) by (simp add: chunks_def upt_rec [of 0])
  have ix: "map (unat \<circ> ChunkIndex) (map chunk_header_at chunks) = [0..<?n]"
    unfolding chunks_def using chunk_header_ok(1) [OF assms(1)] by (auto intro!: map_idI)
  have len: "list_all (\<lambda>c. length c = 32 + unat (ChunkBytes (chunk_header_at c))) chunks"
    using chunk_header_ok(5) [OF assms(1)] by (simp add: chunks_def list_all_iff)
  have total: "unat (TotalChunks (chunk_header f i)) = ?n" for i
    using assms(1) by (simp add: chunk_header_def frame_ok_def total_chunks_value)
  have "list_all (\<lambda>k. FrameId k = FrameId (chunk_header f 0) \<and> chunk_Width k = chunk_Width (chunk_header f 0)
      \<and> chunk_Height k = chunk_Height (chunk_header f 0) \<and> chunk_PixelFormat k = PixelFormat_Rgb565
      \<and> unat (TotalChunks k) = ?n \<and> unat (TotalBytes k) = length (fr_pixelData f)) (map chunk_header_at chunks)"
    using total assms(1) by (simp add: chunks_def list_all_iff frame_ok_def) (simp add: chunk_header_def)
  then show ?thesis
    unfolding chunks_def [symmetric] reassemble_def Let_def h im
    using n ix len by (simp only: n(2)) (simp add: chunk_header_def)
qed

definition framework_ok :: "'d pipeline_env \<Rightarrow> bool" where
  "framework_ok env \<longleftrightarrow> pool_ok env \<and> (\<forall>calls call. NT_SUCCESS (pl_status env calls call)) \<and> (\<forall>calls. pl_listed env calls)"

lemma ensure_connects:
  assumes "framework_ok env" "ParentDevice s \<or> TransportTarget s"
  shows "\<exists>st log. EnsureTransportTarget env s = (st, s\<lparr>TransportTarget := True, pl_log := log\<rparr>) \<and> NT_SUCCESS st"
proof (cases "TransportTarget s")
  case True
  then show ?thesis
    by (intro exI [of _ STATUS_SUCCESS] exI [of _ "pl_log s"]) simp
next
  case False
  then show ?thesis
    using assms
    by (simp add: framework_ok_def EnsureTransportTarget_def open_target_def pl_do_def pl_event_def Let_def)
      (rule exI, rule refl)
qed

definition surface_ok :: "u32 \<Rightarrow> u32 \<Rightarrow> u8 list \<Rightarrow> u32 \<Rightarrow> bool" where
  "surface_ok width height bits pitch \<longleftrightarrow> width \<noteq> 0 \<and> height \<noteq> 0 \<and> 4 * unat width \<le> unat pitch
     \<and> unat height * unat pitch \<le> length bits \<and> unat height * unat pitch + 16352 < 2 ^ 32"

definition presented_frame :: "u32 \<Rightarrow> u32 \<Rightarrow> u8 list \<Rightarrow> u32 \<Rightarrow> u32 \<Rightarrow> frame" where
  "presented_frame width height bits pitch frameId = \<lparr>fr_width = width, fr_height = height, fr_id = frameId,
     fr_payloadBytes = width * height * 2,
     fr_pixelData = concat (map cpu_to_le16 (surface_pixels bits (unat pitch) (unat width) (unat height)))\<rparr>"

lemma surface_payload:
  assumes "surface_ok width height bits pitch"
  shows "unat (width * height * 2) = 2 * (unat height * unat width)" "frame_ok (presented_frame width height bits pitch n)"
    and "width * height * 2 \<noteq> 0"
proof -
  have "unat height * (4 * unat width) \<le> unat height * unat pitch"
    by (rule mult_le_mono2) (use assms in \<open>simp add: surface_ok_def\<close>)
  then have "2 * (unat height * unat width) + 16352 < 2 ^ 32"
    using assms unfolding surface_ok_def by linarith
  then show "unat (width * height * 2) = 2 * (unat height * unat width)"
    by (simp add: unat_word_ariths mult.commute)
  then show "frame_ok (presented_frame width height bits pitch n)"
    using \<open>2 * (unat height * unat width) + 16352 < 2 ^ 32\<close>
    by (simp add: frame_ok_def presented_frame_def)
  have "0 < unat height * unat width"
    using assms by (simp add: surface_ok_def unat_gt_0)
  then show "width * height * 2 \<noteq> 0"
    using \<open>unat (width * height * 2) = _\<close> by (metis less_numeral_extra(3) mult_eq_0_iff unat_0 zero_neq_numeral)
qed

lemma sent_frame:
  assumes "surface_ok width height bits pitch" "framework_ok env" "usb_accepting tenv" "pl_ioctl env = driver_ioctl tenv"
    and "TransportTarget s"
  defines "f \<equiv> presented_frame width height bits pitch (g_frameCounter s + 1)"
  shows "\<exists>s'. convert_and_send env width height bits pitch s = Inr s' \<and>
    target s' = (target s)\<lparr>
      wdf_log := wdf_log (target s) @ concat (map (\<lambda>i. transferred (BulkOut (target s)) (frame_chunk f i))
        [0..<chunk_count (unat (fr_payloadBytes f))]),
      Statistics := frame_submitted (fr_payloadBytes f) (Statistics (target s))\<rparr>"
proof -
  note payload = surface_payload [OF assms(1)]
  let ?bytes = "16 + unat (width * height * 2)" and ?n = "chunk_count (unat (fr_payloadBytes f))"
  have f: "frame_ok f" "fr_payloadBytes f = width * height * 2"
    using payload(2) by (simp_all add: f_def) (simp add: presented_frame_def)
  obtain mem where mem: "pl_alloc env (pl_log s) ?bytes = Some mem" "length mem = ?bytes"
    using assms(2) unfolding framework_ok_def pool_ok_def by blast
  define frameBuffer where "frameBuffer = buf_put 0 (frame_header_bytes \<lparr>frame_Width = width,
    frame_Height = height, frame_PixelFormat = PixelFormat_Rgb565, PayloadBytes = width * height * 2\<rparr>) mem"
  have "length (drop 16 frameBuffer) = 2 * (unat height * unat width)"
    using mem(2) payload(1) by (simp add: frameBuffer_def)
  then have len: "length (parse_pixels (drop 16 frameBuffer)) = unat height * unat width"
    by (simp add: length_parse_pixels)
  have px: "convert_rows bits pitch width [0..<unat height] (parse_pixels (drop 16 frameBuffer))
      = Inr (surface_pixels bits (unat pitch) (unat width) (unat height))"
    using assms(1) len by (intro convert_rows_ok) (simp_all add: surface_ok_def)
  have "0 < unat (fr_payloadBytes f)"
    using f(2) payload(3) by (simp only: unat_gt_0 simp_thms)
  then have "0 < ?n"
    using chunks_cover [of "unat (fr_payloadBytes f)"] by (cases ?n) simp_all
  moreover have "unat (total_chunks (width * height * 2)) = ?n"
    using f unfolding f(2) [symmetric] by (intro total_chunks_value) (simp add: frame_ok_def)
  ultimately have n: "unat (total_chunks (width * height * 2)) = ?n" "0 < ?n"
    by simp_all
  define s1 where "s1 = (pl_event UnmapSurface (pl_event (AllocatePool ?bytes) s))\<lparr>g_frameCounter := g_frameCounter s + 1\<rparr>"
  have s1: "TransportTarget s1" "target s1 = target s"
    using assms(5) by (simp_all add: s1_def)
  have memory: "pool_ok env"
    using assms(2) by (simp add: framework_ok_def)
  obtain s2 where s2: "send_chunks env f [0..<?n] s1 = Inr (True, s2)"
    "target s2 = fold (\<lambda>i d. snd (push_chunk env f i d)) [0..<?n] (target s)"
    using send_chunks_ok [OF f(1) memory, of "\<lambda>d. True" "[0..<?n]" s1] s1
      driver_takes_chunk(1) [OF f(1) _ assms(3,4)] by auto
  have "convert_and_send env width height bits pitch s = Inr (pl_event FreePool s2)"
    using mem(1) px s2(1) n(1)
    by (simp add: convert_and_send_def Let_def frameBuffer_def [symmetric] s1_def f_def presented_frame_def)
  then show ?thesis
    using s2(2) driver_takes_frame [OF f(1) assms(3,4) order.refl] n(2) by simp
qed

text \<open>
  C35. A presented BGRA surface reaches the device: when the framework's calls succeed and the
  transport driver behind the target accepts its writes, the frame is written to the bulk pipe as
  chunks of at most 16 KiB that reassemble to the RGB565 pixels of the surface under the next frame
  number, and the transport driver counts one submitted frame with all its bytes.
\<close>

theorem present_delivers_frame:
  assumes "surface_ok width height bits pitch" "framework_ok env" "usb_accepting tenv" "pl_ioctl env = driver_ioctl tenv"
    and "ParentDevice s \<or> TransportTarget s"
  shows "\<exists>s' chunks. PipelineHandlePresent env swapChain
      \<lparr>GetDesc = Some (width, height, DXGI_FORMAT_B8G8R8A8_UNORM), MapRead = Some (bits, pitch)\<rparr> s = Inr s'
    \<and> target s' = (target s)\<lparr>
        wdf_log := wdf_log (target s) @ concat (map (transferred (BulkOut (target s))) chunks),
        Statistics := frame_submitted (width * height * 2) (Statistics (target s))\<rparr>
    \<and> reassemble chunks = Some (g_frameCounter s + 1, width, height, surface_pixels bits (unat pitch) (unat width) (unat height))
    \<and> list_all (\<lambda>c. length c \<le> unat ChunkSize) chunks"
proof -
  obtain st log where e: "EnsureTransportTarget env s = (st, s\<lparr>TransportTarget := True, pl_log := log\<rparr>)" "NT_SUCCESS st"
    using ensure_connects [OF assms(2,5)] by blast
  define s1 where "s1 = pl_event GetBuffer (s\<lparr>TransportTarget := True, pl_log := log\<rparr>)"
  define f where "f = presented_frame width height bits pitch (g_frameCounter s + 1)"
  note payload = surface_payload [OF assms(1)]
  obtain s' where s': "convert_and_send env width height bits pitch s1 = Inr s'"
    "target s' = (target s)\<lparr>
      wdf_log := wdf_log (target s) @ concat (map (\<lambda>i. transferred (BulkOut (target s)) (frame_chunk f i))
        [0..<chunk_count (unat (fr_payloadBytes f))]),
      Statistics := frame_submitted (fr_payloadBytes f) (Statistics (target s))\<rparr>"
    using sent_frame [OF assms(1-4), of s1] by (auto simp: s1_def f_def)
  let ?chunks = "map (frame_chunk f) [0..<chunk_count (unat (fr_payloadBytes f))]"
  have "present_frame env \<lparr>GetDesc = Some (width, height, DXGI_FORMAT_B8G8R8A8_UNORM), MapRead = Some (bits, pitch)\<rparr> s = Inr s'"
    using e assms(1,2) s'(1)
    by (simp add: present_frame_def pl_do_def framework_ok_def surface_ok_def s1_def)
  moreover have "reassemble ?chunks
      = Some (g_frameCounter s + 1, width, height, surface_pixels bits (unat pitch) (unat width) (unat height))"
    using reassemble_frame [of f] payload(2,3) by (simp add: f_def presented_frame_def)
  moreover have "list_all (\<lambda>c. length c \<le> unat ChunkSize) ?chunks"
    by (simp add: list_all_iff length_frame_chunk)
  moreover have "fr_payloadBytes f = width * height * 2"
    by (simp add: f_def presented_frame_def)
  ultimately show ?thesis
    using s'(2)
    by (intro exI [of _ "PresentCompletion_destroy swapChain s'"] exI [of _ ?chunks])
      (simp add: PipelineHandlePresent_def PresentCompletion_destroy_def comp_def)
qed

definition sample_device :: DeviceContext where
  "sample_device = snd (UsbDevicePrepareHardware sample_transport (snd (UsbDeviceCreate sample_transport (new_context []))))"

definition sample_pipeline :: "DeviceContext pipeline_env" where
  "sample_pipeline = \<lparr>pl_status = \<lambda>calls call. STATUS_SUCCESS, pl_listed = \<lambda>calls. True,
     pl_alloc = \<lambda>calls n. Some (replicate n 0), pl_ioctl = driver_ioctl sample_transport\<rparr>"

definition sample_context :: "DeviceContext PipelineContext" where
  "sample_context = \<lparr>ParentDevice = True, TransportTarget = False, g_frameCounter = 0, target = sample_device, pl_log = []\<rparr>"

lemma sample_accepts:
  "usb_accepting sample_transport" "framework_ok sample_pipeline" "pl_ioctl sample_pipeline = driver_ioctl sample_transport"
  by (simp_all add: usb_accepting_def sample_transport_def framework_ok_def pool_ok_def sample_pipeline_def)

lemma sample_bulk_out: "BulkOut sample_device = Some 1" "Statistics sample_device = zero_statistics"
  by (simp_all add: sample_device_def UsbDevicePrepareHardware_def UsbDeviceCreate_def sample_transport_def wdf_do_def
      on_success_def configure_pipes_def configure_pipe_def Let_def start_reader_def QueueCreate_def init_touch_data_def
      new_context_def enumerate_eq_zip upt_rec)

theorem present_delivers_frame_witness:
  "\<exists>s' chunks. PipelineHandlePresent sample_pipeline True
      \<lparr>GetDesc = Some (2, 1, DXGI_FORMAT_B8G8R8A8_UNORM), MapRead = Some ([0, 0, 0xFF, 0, 0xFF, 0, 0, 0], 8)\<rparr> sample_context = Inr s'
    \<and> FramesSubmitted (Statistics (target s')) = 1 \<and> BytesTransferred (Statistics (target s')) = 4
    \<and> set (wdf_log (target s')) = set (wdf_log sample_device) \<union> (\<Union>c\<in>set chunks. set (transferred (Some 1) c))
    \<and> reassemble chunks = Some (1, 2, 1, [0xF800, 0x001F])"
proof -
  have surface: "surface_ok 2 1 [0, 0, 0xFF, 0, 0xFF, 0, 0, 0] 8"
    by (simp add: surface_ok_def)
  have px: "surface_pixels [0, 0, 0xFF, 0, 0xFF, 0, 0, 0] 8 2 1 = [0xF800, 0x001F]"
    by (simp add: surface_pixels_def surface_row_def bgra_at_def rgb565_of_bgra_def upt_rec)
  obtain s' chunks where "PipelineHandlePresent sample_pipeline True
      \<lparr>GetDesc = Some (2, 1, DXGI_FORMAT_B8G8R8A8_UNORM), MapRead = Some ([0, 0, 0xFF, 0, 0xFF, 0, 0, 0], 8)\<rparr> sample_context = Inr s'"
    and "target s' = sample_device\<lparr>wdf_log := wdf_log sample_device @ concat (map (transferred (Some 1)) chunks),
        Statistics := frame_submitted 4 zero_statistics\<rparr>"
    and "reassemble chunks = Some (1, 2, 1, [0xF800, 0x001F])"
    using present_delivers_frame [OF surface sample_accepts(2,1,3), of sample_context True] px
    by (auto simp: sample_context_def sample_bulk_out)
  then show ?thesis
    by (intro exI [of _ s'] exI [of _ chunks]) (auto simp: frame_submitted_def zero_statistics_def)
qed

subsection \<open>A driver that refuses\<close>

definition pushes :: "pipeline_call list \<Rightarrow> nat" where
  "pushes calls = length [c \<leftarrow> calls. case c of TargetIoctl code bs \<Rightarrow> True | _ \<Rightarrow> False]"

definition waited :: "pipeline_call list \<Rightarrow> nat" where
  "waited calls = (\<Sum>c\<leftarrow>calls. case c of DelayExecution ms \<Rightarrow> unat ms | _ \<Rightarrow> 0)"

definition presented :: "pipeline_call list \<Rightarrow> nat" where
  "presented calls = (\<Sum>c\<leftarrow>calls. case c of FinishedPresent \<Rightarrow> 1 | _ \<Rightarrow> 0)"

lemma effort_simps [simp]:
  "pushes [] = 0" "pushes (c # cs) = (case c of TargetIoctl code bs \<Rightarrow> 1 | _ \<Rightarrow> 0) + pushes cs"
  "pushes (cs @ ds) = pushes cs + pushes ds"
  "waited [] = 0" "waited (c # cs) = (case c of DelayExecution ms \<Rightarrow> unat ms | _ \<Rightarrow> 0) + waited cs"
  "waited (cs @ ds) = waited cs + waited ds"
  "presented [] = 0" "presented (c # cs) = (case c of FinishedPresent \<Rightarrow> 1 | _ \<Rightarrow> 0) + presented cs"
  "presented (cs @ ds) = presented cs + presented ds"
  by (simp_all add: pushes_def waited_def presented_def split: pipeline_call.split)

text \<open>What a call adds to the log costs at most so many pushes and milliseconds, and finishes no present.\<close>

definition costs :: "nat \<Rightarrow> nat \<Rightarrow> 'd PipelineContext \<Rightarrow> 'd PipelineContext \<Rightarrow> bool" where
  "costs p w s s' \<longleftrightarrow> pushes (pl_log s') \<le> pushes (pl_log s) + p \<and> waited (pl_log s') \<le> waited (pl_log s) + w
   \<and> presented (pl_log s') = presented (pl_log s)"

lemma costs_trans: "costs p w s s' \<Longrightarrow> costs p' w' s' s'' \<Longrightarrow> costs (p + p') (w + w') s s''"
  by (simp add: costs_def)

lemma ensure_costs: "costs 0 0 s (snd (EnsureTransportTarget env s))"
  by (simp add: costs_def EnsureTransportTarget_def on_success_def open_target_def pl_do_def Let_def)

lemma ensure_iff: "NT_SUCCESS (fst (EnsureTransportTarget env s)) \<longleftrightarrow> TransportTarget (snd (EnsureTransportTarget env s))"
  by (simp add: EnsureTransportTarget_def on_success_def open_target_def pl_do_def Let_def)

lemma close_target: "\<not> TransportTarget (CloseTransportTarget s)" "costs 0 0 s (CloseTransportTarget s)"
  by (simp_all add: CloseTransportTarget_def costs_def)

lemma attempt_outcome:
  assumes "send_attempt env code buf s = (status, s')"
  shows "costs 1 0 s s'" "NT_SUCCESS status \<longleftrightarrow> TransportTarget s'"
proof -
  obtain st s1 where e: "EnsureTransportTarget env s = (st, s1)"
    by fastforce
  note ensured = ensure_costs [of s env, unfolded e] ensure_iff [of env s, unfolded e]
  obtain st2 d where i: "pl_ioctl env code buf (target s1) = (st2, d)"
    by fastforce
  let ?s2 = "(pl_event (TargetIoctl code buf) s1)\<lparr>target := d\<rparr>"
  have "costs 1 0 s ?s2"
    using ensured(1) by (simp add: costs_def)
  moreover have "costs 1 0 s (CloseTransportTarget ?s2)"
    using costs_trans [OF \<open>costs 1 0 s ?s2\<close> close_target(2)] by simp
  ultimately show "costs 1 0 s s'" "NT_SUCCESS status \<longleftrightarrow> TransportTarget s'"
    using assms e i ensured close_target(1) [of ?s2]
    by (auto simp: send_attempt_def on_success_def send_ioctl_def costs_def split: if_splits)
qed

lemma retry_outcome:
  assumes "retry_loop env code buf n ms s = (status, s')" "ms = 100 * 2 ^ m" "m + n \<le> 3"
  shows "costs (Suc n) (100 * (2 ^ (m + n) - 2 ^ m)) s s' \<and> (NT_SUCCESS status \<longleftrightarrow> TransportTarget s')"
  using assms
proof (induction n arbitrary: m ms s)
  case 0
  then show ?case using attempt_outcome by fastforce
next
  case (Suc n)
  obtain st s1 where a: "send_attempt env code buf s = (st, s1)"
    by fastforce
  note o = attempt_outcome [OF a]
  have m: "m \<in> {0, 1, 2}"
    using Suc.prems(3) by auto
  show ?case
  proof (cases "NT_SUCCESS st")
    case True
    then show ?thesis
      using Suc.prems(1) a o by (auto simp: costs_def)
  next
    case False
    let ?s2 = "pl_event (DelayExecution ms) s1"
    have "retry_loop env code buf n (100 * 2 ^ Suc m) ?s2 = (status, s')"
      using Suc.prems(1,2) a False m by (auto simp: kMaxRetryDelayMs_def min_def)
    then have rest: "costs (Suc n) (100 * (2 ^ (Suc m + n) - 2 ^ Suc m)) ?s2 s'" "NT_SUCCESS status \<longleftrightarrow> TransportTarget s'"
      using Suc.IH [of "100 * 2 ^ Suc m" ?s2 "Suc m"] Suc.prems(3) by simp_all
    have "unat ms = 100 * 2 ^ m"
      using Suc.prems(2) m by auto
    then have "costs 1 (100 * 2 ^ m) s ?s2"
      using o(1) by (simp add: costs_def)
    from costs_trans [OF this rest(1)] rest(2) show ?thesis
      using m by (auto simp: algebra_simps)
  qed
qed

lemma SendIoctlWithRetry_outcome:
  assumes "SendIoctlWithRetry env code buf s = (status, s')"
  shows "costs 4 700 s s'" "NT_SUCCESS status \<longleftrightarrow> TransportTarget s'"
  using retry_outcome [of env code buf 3 100 s status s' 0] assms
  by (simp_all add: SendIoctlWithRetry_def kMaxRetries_def kInitialRetryDelayMs_def)

text \<open>Memory that is handed out has the size that was asked for.\<close>

definition honest_memory :: "'d pipeline_env \<Rightarrow> bool" where
  "honest_memory env \<longleftrightarrow> (\<forall>calls n. pred_option (\<lambda>mem. length mem = n) (pl_alloc env calls n))"

lemma honest_alloc: "honest_memory env \<Longrightarrow> pl_alloc env calls n = Some mem \<Longrightarrow> length mem = n"
  unfolding honest_memory_def by (metis option.pred_inject(2))

lemma send_chunks_outcome:
  assumes "frame_ok f" "honest_memory env" "\<forall>i\<in>set is. i < chunk_count (unat (fr_payloadBytes f))"
  shows "\<exists>ok s'. send_chunks env f is s = Inr (ok, s') \<and> costs (4 * length is) (700 * length is) s s'"
  using assms(3)
proof (induction "is" arbitrary: s)
  case Nil
  show ?case by (intro exI [of _ True] exI [of _ s]) (simp add: costs_def)
next
  case (Cons i "is")
  have i: "i < chunk_count (unat (fr_payloadBytes f))"
    using Cons.prems by simp
  define n where "n = unat (32 + current_chunk_size f (of_nat i))"
  have "length (chunk_data (fr_pixelData f) i) \<le> 16352"
    by (simp add: chunk_data_def)
  then have n: "n = 32 + length (chunk_data (fr_pixelData f) i)"
    using chunk_size_value [OF assms(1) i] by (simp add: n_def unat_word_ariths)
  show ?case
  proof (cases "pl_alloc env (pl_log s) n")
    case None
    then have "send_chunks env f (i # is) s = Inr (False, pl_event (AllocatePool n) s)"
      by (simp add: Let_def n_def)
    then show ?thesis
      by (intro exI [of _ False] exI [of _ "pl_event (AllocatePool n) s"]) (simp add: costs_def)
  next
    case (Some mem)
    let ?s1 = "pl_event (AllocatePool n) s"
    obtain st s2 where r: "SendIoctlWithRetry env IOCTL_RPUSB_PUSH_FRAME_CHUNK (frame_chunk f i) ?s1 = (st, s2)"
      by fastforce
    have c: "costs 4 700 s (pl_event FreePool s2)"
      using SendIoctlWithRetry_outcome(1) [OF r] by (simp add: costs_def)
    have step: "send_chunks env f (i # is) s
        = (if NT_SUCCESS st then send_chunks env f is (pl_event FreePool s2) else Inr (False, pl_event FreePool s2))"
      using Some r fill_chunk_ok [OF assms(1) i, of mem] n honest_alloc [OF assms(2) Some]
      by (simp add: Let_def n_def [symmetric])
    obtain ok s' where s': "send_chunks env f is (pl_event FreePool s2) = Inr (ok, s')"
      "costs (4 * length is) (700 * length is) (pl_event FreePool s2) s'"
      using Cons by fastforce
    show ?thesis
      unfolding step using s' costs_trans [OF c s'(2)] c by (auto simp: costs_def)
  qed
qed

lemma convert_and_send_outcome:
  assumes "surface_ok width height bits pitch" "honest_memory env"
  defines "n \<equiv> chunk_count (2 * (unat height * unat width))"
  shows "\<exists>s'. convert_and_send env width height bits pitch s = Inr s' \<and> costs (4 * n) (700 * n) s s'"
proof -
  note payload = surface_payload [OF assms(1)]
  let ?bytes = "16 + unat (width * height * 2)"
  define f where "f = presented_frame width height bits pitch (g_frameCounter s + 1)"
  have f: "frame_ok f" "fr_payloadBytes f = width * height * 2"
    using payload(2) by (simp_all add: f_def) (simp add: presented_frame_def)
  show ?thesis
  proof (cases "pl_alloc env (pl_log s) ?bytes")
    case None
    then show ?thesis
      by (simp add: convert_and_send_def Let_def costs_def)
  next
    case (Some mem)
    define frameBuffer where "frameBuffer = buf_put 0 (frame_header_bytes \<lparr>frame_Width = width,
      frame_Height = height, frame_PixelFormat = PixelFormat_Rgb565, PayloadBytes = width * height * 2\<rparr>) mem"
    have "length (drop 16 frameBuffer) = 2 * (unat height * unat width)"
      using honest_alloc [OF assms(2) Some] payload(1) by (simp add: frameBuffer_def)
    then have px: "convert_rows bits pitch width [0..<unat height] (parse_pixels (drop 16 frameBuffer))
        = Inr (surface_pixels bits (unat pitch) (unat width) (unat height))"
      using assms(1) by (intro convert_rows_ok) (simp_all add: surface_ok_def length_parse_pixels)
    have count: "unat (total_chunks (width * height * 2)) = n"
      using f payload(1) total_chunks_value [of "width * height * 2"] by (simp add: frame_ok_def n_def)
    define s1 where "s1 = (pl_event UnmapSurface (pl_event (AllocatePool ?bytes) s))\<lparr>g_frameCounter := g_frameCounter s + 1\<rparr>"
    obtain ok s2 where s2: "send_chunks env f [0..<n] s1 = Inr (ok, s2)" "costs (4 * n) (700 * n) s1 s2"
      using send_chunks_outcome [OF f(1) assms(2), of "[0..<n]" s1] f(2) payload(1) by (auto simp: n_def)
    have "convert_and_send env width height bits pitch s = Inr (pl_event FreePool s2)"
      using Some px s2(1) count
      by (simp add: convert_and_send_def Let_def frameBuffer_def [symmetric] s1_def f_def presented_frame_def)
    then show ?thesis
      using s2(2) by (simp add: costs_def s1_def)
  qed
qed

text \<open>A surface that the driver can read: its bits have the rows that its description claims.\<close>

definition sound_surface :: "surface \<Rightarrow> bool" where
  "sound_surface surface = (case (GetDesc surface, MapRead surface) of
     (Some (width, height, format), Some (bits, pitch)) \<Rightarrow>
       width = 0 \<or> height = 0 \<or> format \<noteq> DXGI_FORMAT_B8G8R8A8_UNORM \<or> surface_ok width height bits pitch
   | _ \<Rightarrow> True)"

definition surface_chunks :: "surface \<Rightarrow> nat" where
  "surface_chunks surface = (case GetDesc surface of None \<Rightarrow> 0
     | Some (width, height, format) \<Rightarrow> chunk_count (2 * (unat height * unat width)))"

lemma present_outcome:
  assumes "sound_surface surface" "honest_memory env"
  shows "\<exists>s'. PipelineHandlePresent env True surface s = Inr s' \<and> last (pl_log s') = FinishedPresent
    \<and> pushes (pl_log s') \<le> pushes (pl_log s) + 4 * surface_chunks surface
    \<and> waited (pl_log s') \<le> waited (pl_log s) + 700 * surface_chunks surface
    \<and> presented (pl_log s') = presented (pl_log s) + 1"
proof -
  let ?n = "surface_chunks surface"
  obtain st s1 where e: "EnsureTransportTarget env s = (st, s1)"
    by fastforce
  have s1: "costs 0 0 s s1" "costs 0 0 s (pl_event GetBuffer s1)"
    using ensure_costs [of s env, unfolded e] by (simp_all add: costs_def)
  then have base: "costs (4 * ?n) (700 * ?n) s s1" "costs (4 * ?n) (700 * ?n) s (pl_event GetBuffer s1)"
    by (simp_all add: costs_def)
  have "\<exists>s'. present_frame env surface s = Inr s' \<and> costs (4 * ?n) (700 * ?n) s s'"
  proof (cases "\<exists>width height bits pitch. NT_SUCCESS st \<and> NT_SUCCESS (pl_status env (pl_log s1) GetBuffer)
      \<and> GetDesc surface = Some (width, height, DXGI_FORMAT_B8G8R8A8_UNORM) \<and> MapRead surface = Some (bits, pitch)
      \<and> width \<noteq> 0 \<and> height \<noteq> 0")
    case True
    then obtain width height bits pitch where d: "NT_SUCCESS st" "NT_SUCCESS (pl_status env (pl_log s1) GetBuffer)"
      "GetDesc surface = Some (width, height, DXGI_FORMAT_B8G8R8A8_UNORM)" "MapRead surface = Some (bits, pitch)"
      "width \<noteq> 0" "height \<noteq> 0"
      by blast
    then have "surface_ok width height bits pitch"
      using assms(1) by (simp add: sound_surface_def)
    from convert_and_send_outcome [OF this assms(2), of "pl_event GetBuffer s1"]
    obtain s' where s': "convert_and_send env width height bits pitch (pl_event GetBuffer s1) = Inr s'"
      "costs (4 * ?n) (700 * ?n) (pl_event GetBuffer s1) s'"
      using d(3) by (auto simp: surface_chunks_def)
    then show ?thesis
      using e d costs_trans [OF s1(2) s'(2)] by (simp add: present_frame_def pl_do_def)
  next
    case False
    then show ?thesis
      using e base by (auto simp: present_frame_def pl_do_def split: option.splits)
  qed
  then show ?thesis
    by (auto simp: PipelineHandlePresent_def PresentCompletion_destroy_def costs_def)
qed

text \<open>
  C36. Whatever the framework and the transport driver answer, handling a present returns without an
  access outside its buffers, finishes the present last, and costs at most four pushes and 700
  milliseconds of waiting for each chunk of the frame.
\<close>

theorem present_always_finishes:
  assumes "sound_surface surface" "honest_memory env"
  shows "\<exists>s'. PipelineHandlePresent env True surface s = Inr s' \<and> last (pl_log s') = FinishedPresent
    \<and> pushes (pl_log s') \<le> pushes (pl_log s) + 4 * surface_chunks surface
    \<and> waited (pl_log s') \<le> waited (pl_log s) + 700 * surface_chunks surface"
  using present_outcome [OF assms] by blast

definition refusing_pipeline :: "DeviceContext pipeline_env" where
  "refusing_pipeline = sample_pipeline\<lparr>pl_ioctl := \<lambda>code bs d. (STATUS_UNSUCCESSFUL, d)\<rparr>"

theorem present_always_finishes_witness:
  "\<exists>s'. PipelineHandlePresent refusing_pipeline True
      \<lparr>GetDesc = Some (2, 1, DXGI_FORMAT_B8G8R8A8_UNORM), MapRead = Some ([0, 0, 0xFF, 0, 0xFF, 0, 0, 0], 8)\<rparr> sample_context = Inr s'
    \<and> last (pl_log s') = FinishedPresent \<and> pushes (pl_log s') \<le> 4 \<and> waited (pl_log s') \<le> 700"
proof -
  have "sound_surface \<lparr>GetDesc = Some (2, 1, DXGI_FORMAT_B8G8R8A8_UNORM), MapRead = Some ([0, 0, 0xFF, 0, 0xFF, 0, 0, 0], 8)\<rparr>"
    by (simp add: sound_surface_def surface_ok_def)
  moreover have "honest_memory refusing_pipeline"
    by (simp add: honest_memory_def refusing_pipeline_def sample_pipeline_def)
  ultimately show ?thesis
    using present_always_finishes [of "\<lparr>GetDesc = Some (2, 1, DXGI_FORMAT_B8G8R8A8_UNORM), MapRead = Some ([0, 0, 0xFF, 0, 0xFF, 0, 0, 0], 8)\<rparr>"
        refusing_pipeline sample_context]
    by (simp add: surface_chunks_def chunk_count_def sample_context_def)
qed

end
