(* ===== verification/Win_Display_Properties.thy ===== *)
theory Win_Display_Properties
  imports Win_Display Win_Pipeline_Properties
begin

text \<open>
  The thread of the indirect display driver: what of it is left when the swap chain goes, and that
  its frames all pass the pipeline without a fault.
\<close>

subsection \<open>References to the thread\<close>

lemma display_fields [simp]:
  "thread_references (display_event c s) = thread_references s" "SwapChainCtx (display_event c s) = SwapChainCtx s"
  "display_log (display_event c s) = display_log s @ [c]"
  "thread_references (set_swap_chain f s) = thread_references s" "SwapChainCtx (set_swap_chain f s) = f (SwapChainCtx s)"
  "display_log (set_swap_chain f s) = display_log s"
  by (simp_all add: display_event_def set_swap_chain_def)

lemma signal_stop_fields [simp]:
  "thread_references (signal_stop s) = thread_references s"
  "PresentThread (SwapChainCtx (signal_stop s)) = PresentThread (SwapChainCtx s)"
  by (simp_all add: signal_stop_def)

lemma assign_outcome:
  assumes "\<not> PresentThread (SwapChainCtx s)"
  shows "PresentThread (SwapChainCtx (snd (DisplayEvtAssignSwapChain env h s)))
      = NT_SUCCESS (fst (DisplayEvtAssignSwapChain env h s))"
    and "thread_references (snd (DisplayEvtAssignSwapChain env h s))
      = thread_references s + (if NT_SUCCESS (fst (DisplayEvtAssignSwapChain env h s)) then 1 else 0)"
  using assms
  by (simp_all add: DisplayEvtAssignSwapChain_def reference_thread_def on_success_def display_do_def Let_def)

text \<open>
  C38. A swap chain that is assigned and unassigned again leaves no thread and no reference to one,
  whatever failed on the way; after a surprise removal in between, the reference to the thread of
  every swap chain that was assigned successfully is never given back.
\<close>

theorem swap_chain_thread_references:
  assumes "\<not> PresentThread (SwapChainCtx s)" "DisplayEvtAssignSwapChain env h s = (status, s1)"
  shows "thread_references (snd (DisplayEvtUnassignSwapChain s1)) = thread_references s
    \<and> \<not> PresentThread (SwapChainCtx (snd (DisplayEvtUnassignSwapChain s1)))
    \<and> SwapChain (SwapChainCtx (snd (DisplayEvtUnassignSwapChain s1))) = None
    \<and> thread_references (snd (DisplayEvtUnassignSwapChain (DisplayEvtSurpriseRemoval s1)))
        = thread_references s + (if NT_SUCCESS status then 1 else 0)
    \<and> \<not> PresentThread (SwapChainCtx (DisplayEvtSurpriseRemoval s1))"
  using assign_outcome [OF assms(1), of env h] assms(2)
  by (cases "NT_SUCCESS status") (simp_all add: DisplayEvtUnassignSwapChain_def DisplayEvtSurpriseRemoval_def Let_def)

definition sample_display :: "DeviceContext DisplayDeviceContext" where
  "sample_display = \<lparr>Adapter = True, Monitor = True,
     SwapChainCtx = \<lparr>SwapChain = None, PresentThread = False, StopEvent = False, ShouldStop = False\<rparr>,
     CurrentWidth = 320, CurrentHeight = 240, pipeline = sample_context, thread_references = 0, display_log = []\<rparr>"

theorem swap_chain_thread_references_witness:
  "thread_references (snd (DisplayEvtUnassignSwapChain (snd (DisplayEvtAssignSwapChain (\<lambda>calls call. STATUS_SUCCESS) 7 sample_display)))) = 0
    \<and> thread_references (snd (DisplayEvtUnassignSwapChain (DisplayEvtSurpriseRemoval
        (snd (DisplayEvtAssignSwapChain (\<lambda>calls call. STATUS_SUCCESS) 7 sample_display))))) = 1"
proof -
  let ?r = "DisplayEvtAssignSwapChain (\<lambda>calls call. STATUS_SUCCESS) 7 sample_display"
  have "\<not> PresentThread (SwapChainCtx sample_display)" "?r = (STATUS_SUCCESS, snd ?r)"
    by (simp_all add: sample_display_def DisplayEvtAssignSwapChain_def on_success_def display_do_def
        reference_thread_def Let_def)
  from swap_chain_thread_references [OF this] show ?thesis
    by (simp add: sample_display_def)
qed

subsection \<open>The present thread\<close>

definition stops :: "present_round \<Rightarrow> bool" where
  "stops r \<longleftrightarrow> stop_seen r \<or> stop_signalled r
     \<or> \<not> NT_SUCCESS (acquired r) \<and> acquired r \<noteq> STATUS_TIMEOUT \<and> acquired r \<noteq> STATUS_NO_MORE_ENTRIES"

definition presents :: "present_round \<Rightarrow> bool" where
  "presents r \<longleftrightarrow> NT_SUCCESS (acquired r) \<and> SurfaceAvailable r \<noteq> None"

definition sound_round :: "present_round \<Rightarrow> bool" where
  "sound_round r \<longleftrightarrow> pred_option sound_surface (SurfaceAvailable r)"

text \<open>
  The surfaces that were made available in a list of rounds, and the pipeline after it has handled
  surfaces one after the other.
\<close>

definition surfaces_of :: "present_round list \<Rightarrow> surface list" where
  "surfaces_of rounds = map (the \<circ> SurfaceAvailable) (filter presents rounds)"

fun handle_all :: "'d pipeline_env \<Rightarrow> surface list \<Rightarrow> 'd PipelineContext \<Rightarrow> fault + 'd PipelineContext" where
  "handle_all env [] s = Inr s"
| "handle_all env (surface # surfaces) s = kbind (PipelineHandlePresent env True surface s) (handle_all env surfaces)"

lemma present_loop_before:
  assumes "honest_memory env" "list_all (\<lambda>r. \<not> stops r \<and> sound_round r) before" "stops r"
  shows "\<exists>s'. present_loop env True (before @ r # after) n s = Inr (True, n + of_nat (length (surfaces_of before)), s')
    \<and> handle_all env (surfaces_of before) s = Inr s'
    \<and> presented (pl_log s') = presented (pl_log s) + length (surfaces_of before)"
  using assms(2)
proof (induction before arbitrary: n s)
  case Nil
  then show ?case
    using assms(3) by (auto simp: stops_def surfaces_of_def)
next
  case (Cons q qs)
  have q: "\<not> stop_seen q" "\<not> stop_signalled q" "sound_round q"
    "NT_SUCCESS (acquired q) \<or> acquired q = STATUS_TIMEOUT \<or> acquired q = STATUS_NO_MORE_ENTRIES"
    using Cons.prems by (auto simp: stops_def)
  have rest: "list_all (\<lambda>r. \<not> stops r \<and> sound_round r) qs"
    using Cons.prems by simp
  show ?case
  proof (cases "presents q")
    case True
    then obtain surface where surface: "SurfaceAvailable q = Some surface" "NT_SUCCESS (acquired q)"
      by (auto simp: presents_def)
    then obtain s1 where s1: "PipelineHandlePresent env True surface s = Inr s1"
      "presented (pl_log s1) = presented (pl_log s) + 1"
      using present_outcome [OF _ assms(1), of surface s] q(3) by (auto simp: sound_round_def)
    then show ?thesis
      using Cons.IH [OF rest, of "n + 1" s1] q(1,2) surface True by (simp add: add.assoc surfaces_of_def)
  next
    case False
    then show ?thesis
      using Cons.IH [OF rest, of n s] q by (auto simp: presents_def surfaces_of_def split: option.split)
  qed
qed

text \<open>
  C37. The present thread ends in the first round in which it sees the stop flag or the stop event or
  in which the acquisition fails, however long it ran before. Until then it hands every surface that
  was made available to the pipeline, in order: the pipeline it leaves is the one after handling those
  surfaces one after the other, each present was finished once, and the frame counter is their number.
\<close>

theorem present_thread_stops:
  assumes "honest_memory env" "list_all (\<lambda>r. \<not> stops r \<and> sound_round r) before" "stops r" "SwapChain ctx \<noteq> None"
  shows "\<exists>s'. PresentProcessingThread env ctx (before @ r # after) s = Inr (True, of_nat (length (surfaces_of before)), s')
    \<and> handle_all env (surfaces_of before) s = Inr s'
    \<and> presented (pl_log s') = presented (pl_log s) + length (surfaces_of before)"
  using present_loop_before [OF assms(1-3), of "after" 0 s] assms(4) by (simp add: PresentProcessingThread_def)

definition idle_round :: present_round where
  "idle_round = \<lparr>stop_seen = False, stop_signalled = False, acquired = STATUS_TIMEOUT, SurfaceAvailable = None\<rparr>"

definition frame_round :: present_round where
  "frame_round = idle_round\<lparr>acquired := STATUS_SUCCESS, SurfaceAvailable := Some
     \<lparr>GetDesc = Some (2, 1, DXGI_FORMAT_B8G8R8A8_UNORM), MapRead = Some ([0, 0, 0xFF, 0, 0xFF, 0, 0, 0], 8)\<rparr>\<rparr>"

definition sample_surface :: surface where
  "sample_surface = \<lparr>GetDesc = Some (2, 1, DXGI_FORMAT_B8G8R8A8_UNORM), MapRead = Some ([0, 0, 0xFF, 0, 0xFF, 0, 0, 0], 8)\<rparr>"

lemma sample_rounds:
  "surfaces_of [idle_round, frame_round, idle_round, frame_round] = [sample_surface, sample_surface]"
  by (simp add: surfaces_of_def presents_def idle_round_def frame_round_def sample_surface_def)

theorem present_thread_stops_witness:
  "\<exists>s'. PresentProcessingThread refusing_pipeline
      \<lparr>SwapChain = Some 7, PresentThread = True, StopEvent = False, ShouldStop = False\<rparr>
      [idle_round, frame_round, idle_round, frame_round, idle_round\<lparr>stop_seen := True\<rparr>] sample_context = Inr (True, 2, s')
    \<and> kbind (PipelineHandlePresent refusing_pipeline True sample_surface sample_context)
        (PipelineHandlePresent refusing_pipeline True sample_surface) = Inr s'
    \<and> presented (pl_log s') = 2"
proof -
  have "honest_memory refusing_pipeline"
    by (simp add: honest_memory_def refusing_pipeline_def sample_pipeline_def)
  moreover have "list_all (\<lambda>r. \<not> stops r \<and> sound_round r) [idle_round, frame_round, idle_round, frame_round]"
    by (simp add: stops_def sound_round_def idle_round_def frame_round_def sound_surface_def surface_ok_def)
  moreover have "stops (idle_round\<lparr>stop_seen := True\<rparr>)"
    by (simp add: stops_def)
  moreover have "pl_log sample_context = []"
    by (simp add: sample_context_def)
  moreover have "kbind r Inr = r" for r :: "fault + DeviceContext PipelineContext"
    by (simp add: kbind_def split: sum.split)
  moreover have "handle_all refusing_pipeline [surface] = PipelineHandlePresent refusing_pipeline True surface" for surface
    by (simp add: fun_eq_iff kbind_def split: sum.split)
  ultimately show ?thesis
    using present_thread_stops [of refusing_pipeline "[idle_round, frame_round, idle_round, frame_round]"
        "idle_round\<lparr>stop_seen := True\<rparr>"
        "\<lparr>SwapChain = Some 7, PresentThread = True, StopEvent = False, ShouldStop = False\<rparr>" "[]" sample_context]
    unfolding sample_rounds by (simp only: handle_all.simps(2) [of _ _ "[_]"]) (simp add: numeral_2_eq_2)
qed

end
