(* ===== verification/Spec2Isabelle.thy ===== *)
theory Spec2Isabelle
  imports Driver_Machine Rect_Properties Status_Properties Module_Init Sdk_Sessions Win_Touch_Properties
    Win_Display_Properties
begin

text \<open>
  RoboPeak USB display: a verification development of the drivers under \<^verbatim>\<open>src/drivers\<close>.

  The program drives a small 320x240 USB screen with a touch panel. The host keeps an image of the
  screen and sends the device rectangles of pixels in packets of the USB endpoint's size, each
  starting with a command byte; the device answers with status packets that carry the touch
  position. Three programs do this. The Linux kernel module (\<^verbatim>\<open>linux-driver\<close>) puts it behind a
  framebuffer device and an input device. The user-mode SDK (\<^verbatim>\<open>usermode-sdk\<close>) sends the same commands
  through libusb. A set of three Windows drivers (\<^verbatim>\<open>UsbTransportUmdf\<close>, \<^verbatim>\<open>UsbDisplayIdd\<close>,
  \<^verbatim>\<open>UsbTouchHidUmdf\<close>) speaks another protocol, of chunked frames and touch packets.

  The Linux driver.

  \<^item> \<^verbatim>\<open>Prelude\<close>: machine types, C conversions, faults and their sequencing, byte images, shared list
    lemmas. \<^verbatim>\<open>Protocol\<close>: \<^verbatim>\<open>common/inc/protocol.h\<close>, the packets and what a receiver reads from them.
    \<^verbatim>\<open>Driver_State\<close>: the structures of \<^verbatim>\<open>usbhandlers.c\<close> and \<^verbatim>\<open>fbhandlers.c\<close> as records, the state \<^verbatim>\<open>st\<close>
    of one bound device, and the parameter \<^verbatim>\<open>hcd\<close> that stands for the USB core.
  \<^item> \<^verbatim>\<open>Ticket_Pool\<close>: selling, returning, submitting and completing transfer tickets. \<^verbatim>\<open>pool_inv H s\<close>
    says that the tickets not free and not in flight are exactly \<^verbatim>\<open>H\<close>.
  \<^item> \<^verbatim>\<open>Byte_Sink\<close>: the locale of an encoder that payload bytes are put into. \<^verbatim>\<open>Rle_Encoder\<close>: the
    run-length encoder over any sink, its round trip and size bound. \<^verbatim>\<open>Bitblt_Encoder\<close>: the packet
    encoder, which is a sink. \<^verbatim>\<open>Packet_Stream\<close>, \<^verbatim>\<open>Bitblt_Correct\<close>: the framing of packets in transfers
    and the invariant of the packet encoder. \<^verbatim>\<open>Receiver\<close>: what a device makes of the transfers of a
    command; the theorems on both the kernel module and the SDK speak of it.
  \<^item> \<^verbatim>\<open>Send_Image\<close>, \<^verbatim>\<open>Image_Properties\<close>: \<^verbatim>\<open>rpusbdisp_usb_try_send_image\<close> as a whole: what it delivers,
    when it succeeds, that the only fault is the \<^verbatim>\<open>BUG_ON\<close> of an image that takes its tickets to
    the last byte (\<^verbatim>\<open>exact_fill\<close>), and which tickets a refused flush loses. \<^verbatim>\<open>Rect_Commands\<close>, \<^verbatim>\<open>Rect_Properties\<close>: the one-packet commands.
  \<^item> \<^verbatim>\<open>Framebuffer\<close>, \<^verbatim>\<open>Display_Sync\<close>, \<^verbatim>\<open>Display_Properties\<close>, \<^verbatim>\<open>Display_Flush\<close>: the dirty rectangle, the
    drawing operations, the deferred io handler and the flush work, and that drawing, writing and
    flushing keep the display showing the framebuffer except where an update is pending, while what
    is written through a mapping never reaches it. Whole-screen updates need an endpoint whose
    tickets the screen's estimate is no multiple of; \<^verbatim>\<open>screen_never_fills\<close> shows that every USB
    endpoint of 11 to 1024 bytes is one. \<^verbatim>\<open>Fb_Device\<close>, \<^verbatim>\<open>Fb_Device_Properties\<close>:
    colour registers, mmap, creation and release of the framebuffer device.
  \<^item> \<^verbatim>\<open>Status_Touch\<close>, \<^verbatim>\<open>Status_Properties\<close>: status packets, their polling, touch events.
    \<^verbatim>\<open>Device_Lifecycle\<close>, \<^verbatim>\<open>Lifecycle_Properties\<close>: probe, the ticket pool's allocation and release,
    disconnect. \<^verbatim>\<open>Module_Init\<close>: loading and unloading the module (\<^verbatim>\<open>main.c\<close>).
  \<^item> \<^verbatim>\<open>Driver_Machine\<close>: the drawing, flush and completion operations as one step relation; in a reachable
    state only an image that takes its tickets to the last byte stops the driver, and every step
    refines an abstract account of free, flying and lost tickets.

  The user-mode SDK.

  \<^item> \<^verbatim>\<open>Sdk_Util\<close>: exceptions, byte order, buffers with their lock (\<^verbatim>\<open>infra\<close>), as state-passing actions
    that can also crash, hang or terminate the process. \<^verbatim>\<open>Sdk_Usb\<close>: the libusb wrapper
    (\<^verbatim>\<open>deps-wraps/libusbx_wrap\<close>) over libusb as a parameter.
  \<^item> \<^verbatim>\<open>Sdk_Rle\<close>: \<^verbatim>\<open>rleCompress\<close> on its array, bounds checked, equivalent to the stream of the kernel
    encoder. \<^verbatim>\<open>Sdk_Packets\<close>: the packets of a command, the same framing as the kernel module's.
  \<^item> \<^verbatim>\<open>Sdk_Driver\<close>: \<^verbatim>\<open>rpusbdisp.cc\<close>. \<^verbatim>\<open>Sdk_Properties\<close>, \<^verbatim>\<open>Sdk_Commands\<close>, \<^verbatim>\<open>Sdk_Status\<close>: the outcome of a
    command, what the device decodes from it, enabling, and the status thread.
  \<^item> \<^verbatim>\<open>Sdk_Client\<close>: the C interface with exceptions as error codes, and the demo program.
  \<^item> \<^verbatim>\<open>Sdk_Resources\<close>: an account of what the SDK holds (device references, handles, interfaces,
    transfers, shared pointers to buffers and to the pipeline), the locale of resources with its
    interpretations, and how every operation changes the account. \<^verbatim>\<open>Sdk_Sessions\<close>: opening takes
    everything or nothing, a session gives everything back.

  The Windows drivers.

  \<^item> \<^verbatim>\<open>Win_Base\<close>: statuses, the structures of \<^verbatim>\<open>UsbIoctl.h\<close> and \<^verbatim>\<open>UsbProtocol.h\<close> with their images, the
    chaining of framework calls.
  \<^item> \<^verbatim>\<open>Win_Transport\<close>: the transport driver (\<^verbatim>\<open>Device.cpp\<close>, \<^verbatim>\<open>Queue.cpp\<close>): creation, plug and play,
    power, interrupt packets, control requests. \<^verbatim>\<open>Win_Touch\<close>: the touch driver and its HID reports.
    \<^verbatim>\<open>Win_Touch_Properties\<close>: the transport driver's reachable states and their invariant, and the
    touch driver on top of it: what a report would show, and why it never does.
  \<^item> \<^verbatim>\<open>Win_Pipeline\<close>: presents (\<^verbatim>\<open>Pipeline.cpp\<close>): conversion, chunks, retries. \<^verbatim>\<open>Win_Pipeline_Properties\<close>:
    on top of the transport driver a surface arrives at the bulk pipe and reassembles to its pixels;
    with any driver below, a present finishes within bounds.
  \<^item> \<^verbatim>\<open>Win_Display\<close>, \<^verbatim>\<open>Win_Display_Properties\<close>: adapter, monitor, EDID, swap chain and present thread
    (\<^verbatim>\<open>DisplayDevice.cpp\<close>, \<^verbatim>\<open>Driver.cpp\<close>, \<^verbatim>\<open>Edid.h\<close>).

  Conventions. A fallible kernel function returns \<^verbatim>\<open>fault + 'a\<close>: \<^verbatim>\<open>Inl\<close> is a crash (a \<^verbatim>\<open>BUG_ON\<close>, an access
  outside a buffer, a NULL pointer), \<^verbatim>\<open>Inr\<close> an ordinary return, the error codes of the source included.
  The USB controller, libusb and the Windows framework are parameters: functions from the calls made
  so far to the next answer, so that a theorem that quantifies over them covers every pattern of
  failures and every order of completions between two steps.

  Bounds and fuel. Loops over lists are recursions on them; the transfer loop of the packet encoder
  and the compressor's loop have a measure. The reference decoder \<^verbatim>\<open>rle_decode\<close> has the length of its
  input as fuel, and every section consumes a byte. The mmap loop, which may not end, is a partial
  function, and its theorem says for any answers of the kernel when it returns, and with what. The release of the ticket pool, the status thread
  and the demo's loop take a bound on the rounds; the theorems on them say how many rounds are enough
  or hold for each round. The present thread runs over the list of what its rounds see.

  Not modelled. Locks: an operation is atomic but for the completions the controller reports while an
  URB is submitted, and the status callback of the SDK, which runs under the status lock. The kernel's
  own code, libusb (vendored under \<^verbatim>\<open>usermode-sdk/deps\<close>), libpng and the Windows frameworks, which are
  parameters or unused. The frame rate of the deferred io (\<^verbatim>\<open>HZ / fps\<close>). Copies of shared
  pointers in the SDK that are only passed down for the time of a call; its default context, which
  lives until the process ends; methods of its outer classes that only forward are identified with
  what they call. The
  traces of the Windows drivers, the argument structures they fill for the frameworks except where
  their content matters. Scripts and packaging.
\<close>

end
